(* ===== verification/Go_Prelude.thy ===== *)
theory Go_Prelude
  imports Main "HOL-Library.Char_ord" "HOL-Library.List_Lexorder"
begin

text \<open>
  What the components share of the Go language and its standard library.

  \<^item> \<^emph>\<open>Time.\<close> A \<open>time.Time\<close> is an \<open>int\<close>, the nanoseconds since the Unix epoch; a
    \<open>time.Duration\<close> is an \<open>int\<close> number of nanoseconds. Where Go's 64-bit arithmetic can
    wrap (a caller-supplied number of seconds scaled to nanoseconds) the wrap is written out
    with \<open>wrap64\<close>. A clock read is an argument of the operation that makes it.
  \<^item> \<^emph>\<open>Strings.\<close> A Go string is its list of bytes, a \<open>char list\<close>. Case mapping and white
    space follow the ASCII rules of package strings; bytes above 127 are left as they are.
  \<^item> \<^emph>\<open>Maps.\<close> A Go map is a partial function. The unspecified iteration order of a map is
    an argument where a result depends on it.
  \<^item> \<^emph>\<open>Errors.\<close> A pair of a value and an error is a sum with the error on the left.
\<close>

named_theorems go_str \<open>rewriting of the string functions\<close>

section \<open>Runs of a stateful component\<close>

text \<open>
  A component with state is a step function on its operations. \<open>run\<close> executes a sequence of
  operations in order (the order in which the component's mutex admits them) and \<open>run_ok\<close>
  says that every operation of the sequence meets a condition on the state it finds.
\<close>

fun run :: "('s \<Rightarrow> 'o \<Rightarrow> 's) \<Rightarrow> 's \<Rightarrow> 'o list \<Rightarrow> 's" where
  "run step s [] = s"
| "run step s (x # xs) = run step (step s x) xs"

fun run_ok :: "('s \<Rightarrow> 'o \<Rightarrow> 's) \<Rightarrow> ('s \<Rightarrow> 'o \<Rightarrow> bool) \<Rightarrow> 's \<Rightarrow> 'o list \<Rightarrow> bool" where
  "run_ok step ok s [] = True"
| "run_ok step ok s (x # xs) = (ok s x \<and> run_ok step ok (step s x) xs)"

lemma run_append [simp]: "run step s (xs @ ys) = run step (run step s xs) ys"
  by (induction xs arbitrary: s) auto

lemma run_ok_append [simp]:
  "run_ok step ok s (xs @ ys) \<longleftrightarrow> run_ok step ok s xs \<and> run_ok step ok (run step s xs) ys"
  by (induction xs arbitrary: s) auto

lemma run_ok_True [simp]: "run_ok step (\<lambda>s x. True) s xs"
  by (induction xs arbitrary: s) auto

text \<open>
  The contract every component below discharges once: each admissible operation keeps its
  invariant. Its runs then keep the invariant, and keep any fact that single steps keep.
\<close>

locale op_system =
  fixes step :: "'s \<Rightarrow> 'o \<Rightarrow> 's"
    and ok :: "'s \<Rightarrow> 'o \<Rightarrow> bool"
    and inv :: "'s \<Rightarrow> bool"
  assumes inv_step: "inv s \<Longrightarrow> ok s x \<Longrightarrow> inv (step s x)"
begin

lemma run_inv: "inv s \<Longrightarrow> run_ok step ok s xs \<Longrightarrow> inv (run step s xs)"
  by (induction xs arbitrary: s) (auto intro: inv_step)

lemma run_stable:
  assumes step: "\<And>s x. inv s \<Longrightarrow> ok s x \<Longrightarrow> P s \<Longrightarrow> P (step s x)"
    and "inv s" and "run_ok step ok s xs" and "P s"
  shows "P (run step s xs)"
  using assms(2-) by (induction xs arbitrary: s) (auto intro: inv_step step)

end

section \<open>Time\<close>

type_synonym time = int
type_synonym duration = int

definition millisecond :: duration where "millisecond = 1000000"
definition second :: duration where "second = 1000000000"
definition minute :: duration where "minute = 60000000000"
definition hour :: duration where "hour = 3600000000000"

lemmas time_units = millisecond_def second_def minute_def hour_def

text \<open>The zero \<open>time.Time\<close>, 1 January of year 1, UTC.\<close>

definition zero_time :: time where "zero_time = - 62135596800000000000"

text \<open>Two's complement reading of the low 64 bits.\<close>

definition wrap64 :: "int \<Rightarrow> int" where
  "wrap64 x = (x + 2 ^ 63) mod 2 ^ 64 - 2 ^ 63"

lemma wrap64_id: "- (2 ^ 63) \<le> x \<Longrightarrow> x < 2 ^ 63 \<Longrightarrow> wrap64 x = x"
  by (simp add: wrap64_def)

lemma wrap64_range: "- (2 ^ 63) \<le> wrap64 x" "wrap64 x < 2 ^ 63"
  using pos_mod_bound [of "2 ^ 64" "x + 2 ^ 63"] pos_mod_sign [of "2 ^ 64" "x + 2 ^ 63"]
  by (simp_all add: wrap64_def)

text \<open>\<open>t.Unix()\<close>: whole seconds, rounded towards the past.\<close>

definition unix_of :: "time \<Rightarrow> int" where
  "unix_of t = t div 1000000000"

definition of_unix :: "int \<Rightarrow> time" where
  "of_unix s = s * 1000000000"

lemma of_unix_unix_of_le: "of_unix (unix_of t) \<le> t"
  using div_mult_mod_eq [of t 1000000000] pos_mod_sign [of 1000000000 t]
  by (simp add: of_unix_def unix_of_def)

lemma of_unix_unix_of_gt: "t - second < of_unix (unix_of t)"
  using div_mult_mod_eq [of t 1000000000] pos_mod_bound [of 1000000000 t]
  by (simp add: of_unix_def unix_of_def second_def)

section \<open>Strings\<close>

definition is_space :: "char \<Rightarrow> bool" where
  "is_space c \<longleftrightarrow> c \<in> set [CHR '' '', CHR 0x09, CHR 0x0A, CHR 0x0B, CHR 0x0C, CHR 0x0D]"

definition is_digit :: "char \<Rightarrow> bool" where
  "is_digit c \<longleftrightarrow> 48 \<le> (of_char c :: nat) \<and> (of_char c :: nat) \<le> 57"

definition to_lower_char :: "char \<Rightarrow> char" where
  "to_lower_char c =
     (if 65 \<le> (of_char c :: nat) \<and> (of_char c :: nat) \<le> 90
      then char_of (of_char c + 32 :: nat) else c)"

definition to_upper_char :: "char \<Rightarrow> char" where
  "to_upper_char c =
     (if 97 \<le> (of_char c :: nat) \<and> (of_char c :: nat) \<le> 122
      then char_of (of_char c - 32 :: nat) else c)"

definition to_lower :: "string \<Rightarrow> string" where "to_lower = map to_lower_char"
definition to_upper :: "string \<Rightarrow> string" where "to_upper = map to_upper_char"

definition equal_fold :: "string \<Rightarrow> string \<Rightarrow> bool" where
  "equal_fold a b \<longleftrightarrow> to_lower a = to_lower b"

definition trim_right_by :: "(char \<Rightarrow> bool) \<Rightarrow> string \<Rightarrow> string" where
  "trim_right_by P s = rev (dropWhile P (rev s))"

definition trim_space :: "string \<Rightarrow> string" where
  "trim_space s = trim_right_by is_space (dropWhile is_space s)"

definition trim_right :: "string \<Rightarrow> string \<Rightarrow> string" where
  "trim_right s cutset = trim_right_by (\<lambda>c. c \<in> set cutset) s"

definition trim_left :: "string \<Rightarrow> string \<Rightarrow> string" where
  "trim_left s cutset = dropWhile (\<lambda>c. c \<in> set cutset) s"

definition has_prefix :: "string \<Rightarrow> string \<Rightarrow> bool" where
  "has_prefix s p \<longleftrightarrow> take (length p) s = p"

definition has_suffix :: "string \<Rightarrow> string \<Rightarrow> bool" where
  "has_suffix s p \<longleftrightarrow> has_prefix (rev s) (rev p)"

definition trim_prefix :: "string \<Rightarrow> string \<Rightarrow> string" where
  "trim_prefix s p = (if has_prefix s p then drop (length p) s else s)"

definition trim_suffix :: "string \<Rightarrow> string \<Rightarrow> string" where
  "trim_suffix s p = (if has_suffix s p then take (length s - length p) s else s)"

text \<open>For the evaluation of these functions on literals.\<close>

lemmas text_eval = trim_space_def trim_right_by_def is_space_def to_lower_def to_lower_char_def has_prefix_def has_suffix_def
  trim_prefix_def

text \<open>\<open>strings.Index\<close>: the first position of a substring.\<close>

fun index_of :: "string \<Rightarrow> string \<Rightarrow> nat option" where
  "index_of [] sub = (if sub = [] then Some 0 else None)"
| "index_of (c # cs) sub =
     (if has_prefix (c # cs) sub then Some 0 else map_option Suc (index_of cs sub))"

definition contains :: "string \<Rightarrow> string \<Rightarrow> bool" where
  "contains s sub \<longleftrightarrow> index_of s sub \<noteq> None"

text \<open>\<open>strings.IndexAny\<close> and \<open>strings.LastIndex\<close> of a one-byte string.\<close>

fun index_any :: "string \<Rightarrow> string \<Rightarrow> nat option" where
  "index_any [] chars = None"
| "index_any (c # cs) chars =
     (if c \<in> set chars then Some 0 else map_option Suc (index_any cs chars))"

fun last_index :: "string \<Rightarrow> char \<Rightarrow> nat option" where
  "last_index [] x = None"
| "last_index (c # cs) x =
     (case last_index cs x of
        Some i \<Rightarrow> Some (Suc i)
      | None \<Rightarrow> (if c = x then Some 0 else None))"

definition contains_any :: "string \<Rightarrow> string \<Rightarrow> bool" where
  "contains_any s chars \<longleftrightarrow> (\<exists>c \<in> set s. c \<in> set chars)"

text \<open>\<open>strings.Split\<close> at a one-byte separator, \<open>strings.Fields\<close>, \<open>strings.Join\<close>.\<close>

fun split_at :: "char \<Rightarrow> string \<Rightarrow> string list" where
  "split_at x [] = [[]]"
| "split_at x (c # cs) =
     (if c = x then [] # split_at x cs
      else (case split_at x cs of [] \<Rightarrow> [[c]] | w # ws \<Rightarrow> (c # w) # ws))"

fun str_fields_acc :: "string \<Rightarrow> string \<Rightarrow> string list" where
  "str_fields_acc w [] = (if w = [] then [] else [rev w])"
| "str_fields_acc w (c # cs) =
     (if is_space c then (if w = [] then str_fields_acc [] cs else rev w # str_fields_acc [] cs)
      else str_fields_acc (c # w) cs)"

definition str_fields :: "string \<Rightarrow> string list" where
  "str_fields s = str_fields_acc [] s"

fun join :: "string list \<Rightarrow> string \<Rightarrow> string" where
  "join [] sep = []"
| "join [w] sep = w"
| "join (w # v # ws) sep = w @ sep @ join (v # ws) sep"

lemma dropWhile_none: "\<forall>c \<in> set xs. \<not> P c \<Longrightarrow> dropWhile P xs = xs"
  by (cases xs) auto

lemma trim_space_id: "\<forall>c \<in> set s. \<not> is_space c \<Longrightarrow> trim_space s = s"
  by (simp add: trim_space_def trim_right_by_def dropWhile_none)

lemma to_lower_id: "\<forall>c \<in> set s. to_lower_char c = c \<Longrightarrow> to_lower s = s"
  by (simp add: to_lower_def map_idI)

lemma index_of_singleton: "index_of s [c] = None \<longleftrightarrow> c \<notin> set s"
  by (induction s) (auto simp: has_prefix_def)

lemma contains_singleton [go_str]: "contains s [c] \<longleftrightarrow> c \<in> set s"
  by (simp add: contains_def index_of_singleton)

lemma to_lower_char_idem [simp]: "to_lower_char (to_lower_char c) = to_lower_char c"
proof (cases "65 \<le> (of_char c :: nat) \<and> (of_char c :: nat) \<le> 90")
  case True
  then have "of_char (char_of (of_char c + 32 :: nat) :: char) = (of_char c + 32 :: nat)"
    by (simp add: take_bit_eq_mod)
  then show ?thesis using True by (simp add: to_lower_char_def)
qed (auto simp: to_lower_char_def)

lemma to_lower_idem [simp]: "to_lower (to_lower s) = to_lower s"
  by (simp add: to_lower_def)

text \<open>Lower-casing neither makes nor removes a character that is not a letter.\<close>

definition no_letter :: "char \<Rightarrow> bool" where
  "no_letter c \<longleftrightarrow> \<not> (65 \<le> (of_char c :: nat) \<and> (of_char c :: nat) \<le> 90) \<and>
     \<not> (97 \<le> (of_char c :: nat) \<and> (of_char c :: nat) \<le> 122)"

lemma to_lower_char_no_letter: "no_letter c \<Longrightarrow> to_lower_char d = c \<longleftrightarrow> d = c"
proof (cases "65 \<le> (of_char d :: nat) \<and> (of_char d :: nat) \<le> 90")
  case True
  then have "of_char (to_lower_char d) = (of_char d + 32 :: nat)"
    by (simp add: to_lower_char_def take_bit_eq_mod)
  moreover assume "no_letter c"
  ultimately show ?thesis using True by (auto simp: no_letter_def)
next
  case False
  then show ?thesis by (auto simp: to_lower_char_def)
qed

lemma set_to_lower: "no_letter c \<Longrightarrow> c \<in> set (to_lower s) \<longleftrightarrow> c \<in> set s"
  unfolding to_lower_def set_map image_iff using to_lower_char_no_letter [of c] by metis

lemma is_space_lower [simp]: "is_space (to_lower_char c) = is_space c"
  by (auto simp: is_space_def to_lower_char_no_letter no_letter_def)

lemma trim_space_to_lower: "trim_space (to_lower s) = to_lower (trim_space s)"
  by (simp add: trim_space_def trim_right_by_def to_lower_def dropWhile_map rev_map comp_def)

lemma has_prefix_append: "has_prefix s p \<Longrightarrow> has_prefix (s @ t) p"
  using take_all_iff [of "length p" s] by (auto simp: has_prefix_def)

lemma has_suffix_append [simp]: "has_suffix (s @ p) p"
  by (simp add: has_suffix_def has_prefix_def)

section \<open>Numbers in text\<close>

definition digits_value :: "string \<Rightarrow> nat" where
  "digits_value s = foldl (\<lambda>n c. 10 * n + (of_char c - 48)) 0 s"

text \<open>\<open>strconv.ParseUint(s, 10, bits)\<close>: one or more digits, below \<open>2 ^ bits\<close>.\<close>

definition parse_uint :: "nat \<Rightarrow> string \<Rightarrow> nat option" where
  "parse_uint bits s =
     (if s \<noteq> [] \<and> list_all is_digit s \<and> digits_value s < 2 ^ bits
      then Some (digits_value s) else None)"

text \<open>\<open>strconv.Atoi\<close>: an optional sign, then digits, within the 64-bit range.\<close>

definition atoi :: "string \<Rightarrow> int option" where
  "atoi s =
     (let neg = has_prefix s ''-'';
          ds = (if neg \<or> has_prefix s ''+'' then tl s else s)
      in if ds \<noteq> [] \<and> list_all is_digit ds
         then (let n = int (digits_value ds); v = (if neg then - n else n)
               in if - (2 ^ 63) \<le> v \<and> v < 2 ^ 63 then Some v else None)
         else None)"

text \<open>\<open>strconv.Itoa\<close> of a number that is not negative.\<close>

fun format_uint :: "nat \<Rightarrow> string" where
  "format_uint n =
     (if n < 10 then [char_of (n + 48)]
      else format_uint (n div 10) @ [char_of (n mod 10 + 48)])"

declare format_uint.simps [simp del]

lemma of_char_digit: "k < 10 \<Longrightarrow> of_char (char_of (k + 48 :: nat) :: char) = (k + 48 :: nat)"
  by (simp add: take_bit_eq_mod)

lemma format_uint_digits: "list_all is_digit (format_uint n)"
proof (induction n rule: format_uint.induct)
  case (1 n)
  have "is_digit (char_of (k + 48))" if "k < 10" for k :: nat
    using that by (simp add: is_digit_def of_char_digit)
  then show ?case using 1 by (subst format_uint.simps) simp
qed

lemma digits_value_snoc: "digits_value (s @ [c]) = 10 * digits_value s + (of_char c - 48)"
  by (simp add: digits_value_def)

lemma digits_value_format: "digits_value (format_uint n) = n"
proof (induction n rule: format_uint.induct)
  case (1 n)
  show ?case
  proof (cases "n < 10")
    case True
    then show ?thesis by (subst format_uint.simps) (simp add: digits_value_def of_char_digit)
  next
    case False
    have "of_char (char_of (n mod 10 + 48) :: char) - 48 = n mod 10" by (simp add: of_char_digit)
    then show ?thesis using 1 False by (subst format_uint.simps) (simp add: digits_value_snoc)
  qed
qed

lemma format_uint_nonempty: "format_uint n \<noteq> []"
  by (subst format_uint.simps) simp

lemma parse_format_uint: "n < 2 ^ bits \<Longrightarrow> parse_uint bits (format_uint n) = Some n"
  by (simp add: parse_uint_def format_uint_digits digits_value_format format_uint_nonempty)

end
