(* ===== verification/Session_Store.thy ===== *)
theory Session_Store
  imports Go_Prelude
begin

text \<open>
  The session store: \<open>internal/auth/session.go\<close>. A session is the refresh-token family of one
  enrollment. \<open>memory_store\<close> is the struct behind the store's mutex; every method is a function
  from the store to its result and the store it leaves, errors included, because one error
  path (the replay of a spent token) also writes.
\<close>

named_theorems store_defs \<open>definitions of the store's methods\<close>

section \<open>Data\<close>

definition RefreshTTL :: duration where
  "RefreshTTL = 30 * 24 * hour"

datatype store_error =
    SessionIDRequired
  | SessionExists string
  | RefreshRequired
  | RefreshAlreadyIssued
  | ErrNoSession string
  | ErrSessionRevoked string
  | ErrRefreshUnknown
  | ErrRefreshExpired time
  | ReuseError string

record session =
  sess_ID :: string
  sess_Label :: string
  sess_Scopes :: "string list"
  sess_CreatedAt :: time
  sess_LastSeen :: time
  sess_ExpiresAt :: time
  sess_Revoked :: bool
  sess_RevokedAt :: time
  sess_Rotations :: int
  sess_ClientHint :: string

record refresh_record =
  rec_sid :: string
  rec_expiresAt :: time
  rec_used :: bool
  rec_usedAt :: time
  rec_replaced :: string

record memory_store =
  st_sessions :: "string \<rightharpoonup> session"
  st_refresh :: "string \<rightharpoonup> refresh_record"

definition Active :: "session option \<Rightarrow> time \<Rightarrow> bool" where
  "Active s now =
     (case s of None \<Rightarrow> False
      | Some s \<Rightarrow> \<not> sess_Revoked s \<and> now < sess_ExpiresAt s)"

section \<open>Operations\<close>

definition NewMemoryStore :: memory_store where
  "NewMemoryStore = \<lparr>st_sessions = Map.empty, st_refresh = Map.empty\<rparr>"

definition Create ::
    "memory_store \<Rightarrow> session option \<Rightarrow> (store_error + unit) \<times> memory_store" where
  "Create m s =
     (case s of
        None \<Rightarrow> (Inl SessionIDRequired, m)
      | Some s \<Rightarrow>
          if sess_ID s = [] then (Inl SessionIDRequired, m)
          else if st_sessions m (sess_ID s) \<noteq> None then (Inl (SessionExists (sess_ID s)), m)
          else (Inr (), m\<lparr>st_sessions := (st_sessions m)(sess_ID s \<mapsto> s)\<rparr>))"

definition new_record :: "string \<Rightarrow> time \<Rightarrow> refresh_record" where
  "new_record sid exp =
     \<lparr>rec_sid = sid, rec_expiresAt = exp, rec_used = False, rec_usedAt = zero_time,
      rec_replaced = []\<rparr>"

definition IssueRefresh ::
    "memory_store \<Rightarrow> string \<Rightarrow> string \<Rightarrow> time \<Rightarrow> (store_error + unit) \<times> memory_store" where
  "IssueRefresh m sid token now =
     (if token = [] then (Inl RefreshRequired, m)
      else case st_sessions m sid of
        None \<Rightarrow> (Inl (ErrNoSession sid), m)
      | Some s \<Rightarrow>
          if sess_Revoked s then (Inl (ErrSessionRevoked sid), m)
          else if st_refresh m token \<noteq> None then (Inl RefreshAlreadyIssued, m)
          else (Inr (),
                m\<lparr>st_sessions := (st_sessions m)(sid \<mapsto> s\<lparr>sess_LastSeen := now\<rparr>),
                  st_refresh := (st_refresh m)(token \<mapsto> new_record sid (sess_ExpiresAt s))\<rparr>))"

definition Get :: "memory_store \<Rightarrow> string \<Rightarrow> store_error + session" where
  "Get m sid =
     (case st_sessions m sid of None \<Rightarrow> Inl (ErrNoSession sid) | Some s \<Rightarrow> Inr s)"

text \<open>
  \<open>ord\<close> is the order in which the runtime iterates the session map. \<open>sort.Slice\<close> promises
  nothing about equal creation times, and neither does the iteration order.
\<close>

definition SessionList :: "memory_store \<Rightarrow> string list \<Rightarrow> session list" where
  "SessionList m ord =
     sort_key (\<lambda>s. - sess_CreatedAt s) (List.map_filter (st_sessions m) ord)"

definition spend :: "time \<Rightarrow> refresh_record \<Rightarrow> refresh_record" where
  "spend now r = r\<lparr>rec_used := True, rec_usedAt := now\<rparr>"

definition revokeFamilyLocked :: "memory_store \<Rightarrow> string \<Rightarrow> time \<Rightarrow> memory_store" where
  "revokeFamilyLocked m sid now =
     m\<lparr>st_refresh := (\<lambda>tok. map_option
         (\<lambda>r. if rec_sid r = sid \<and> \<not> rec_used r then spend now r else r) (st_refresh m tok))\<rparr>"

definition mark_revoked :: "time \<Rightarrow> session \<Rightarrow> session" where
  "mark_revoked now s = s\<lparr>sess_Revoked := True, sess_RevokedAt := now\<rparr>"

definition Rotate ::
    "memory_store \<Rightarrow> string \<Rightarrow> string \<Rightarrow> time \<Rightarrow> (store_error + session) \<times> memory_store" where
  "Rotate m oldToken newToken now =
     (case st_refresh m oldToken of
        None \<Rightarrow> (Inl ErrRefreshUnknown, m)
      | Some r \<Rightarrow>
          (case st_sessions m (rec_sid r) of
             None \<Rightarrow> (Inl (ErrNoSession (rec_sid r)), m)
           | Some s \<Rightarrow>
               if rec_used r then
                 (Inl (ReuseError (sess_ID s)),
                  revokeFamilyLocked
                    (m\<lparr>st_sessions := (st_sessions m)(rec_sid r \<mapsto> mark_revoked now s)\<rparr>)
                    (sess_ID s) now)
               else if sess_Revoked s then (Inl (ErrSessionRevoked (sess_ID s)), m)
               else if rec_expiresAt r < now then (Inl (ErrRefreshExpired (rec_expiresAt r)), m)
               else
                 (let s' = s\<lparr>sess_LastSeen := now, sess_ExpiresAt := now + RefreshTTL,
                             sess_Rotations := sess_Rotations s + 1\<rparr>
                  in (Inr s',
                      m\<lparr>st_sessions := (st_sessions m)(rec_sid r \<mapsto> s'),
                        st_refresh := (st_refresh m)
                          (oldToken \<mapsto> (spend now r)\<lparr>rec_replaced := newToken\<rparr>,
                           newToken \<mapsto> new_record (sess_ID s) (sess_ExpiresAt s'))\<rparr>))))"

definition Revoke ::
    "memory_store \<Rightarrow> string \<Rightarrow> time \<Rightarrow> (store_error + unit) \<times> memory_store" where
  "Revoke m sid now =
     (case st_sessions m sid of
        None \<Rightarrow> (Inl (ErrNoSession sid), m)
      | Some s \<Rightarrow>
          (Inr (), revokeFamilyLocked
             (m\<lparr>st_sessions := (st_sessions m)(sid \<mapsto> mark_revoked now s)\<rparr>) sid now))"

definition Touch ::
    "memory_store \<Rightarrow> string \<Rightarrow> time \<Rightarrow> (store_error + unit) \<times> memory_store" where
  "Touch m sid now =
     (case st_sessions m sid of
        None \<Rightarrow> (Inl (ErrNoSession sid), m)
      | Some s \<Rightarrow>
          (Inr (), m\<lparr>st_sessions := (st_sessions m)(sid \<mapsto> s\<lparr>sess_LastSeen := now\<rparr>)\<rparr>))"

lemmas [store_defs] =
  Create_def IssueRefresh_def Rotate_def Revoke_def Touch_def revokeFamilyLocked_def Let_def
  new_record_def spend_def mark_revoked_def

text \<open>\<open>NewSessionID\<close>; the random identifier, or the failure to draw one, is its argument.\<close>

definition NewSessionID :: "string option \<Rightarrow> string option" where
  "NewSessionID rid = map_option (\<lambda>rid. ''sess_'' @ rid) rid"

text \<open>\<open>NormalizeScopes\<close>: the loop with its \<open>seen\<close> set, then the sort.\<close>

fun normalize_scopes_loop :: "string set \<Rightarrow> string list \<Rightarrow> string list" where
  "normalize_scopes_loop seen [] = []"
| "normalize_scopes_loop seen (s # ss) =
     (let v = to_lower (trim_space s)
      in if v = [] \<or> v \<in> seen then normalize_scopes_loop seen ss
         else v # normalize_scopes_loop (insert v seen) ss)"

definition NormalizeScopes :: "string list \<Rightarrow> string list" where
  "NormalizeScopes scopes = sort (normalize_scopes_loop {} scopes)"

section \<open>The store as a state machine\<close>

datatype store_op =
    OpCreate "session option"
  | OpIssueRefresh string string time
  | OpRotate string string time
  | OpRevoke string time
  | OpTouch string time

fun store_step :: "memory_store \<Rightarrow> store_op \<Rightarrow> memory_store" where
  "store_step m (OpCreate s) = snd (Create m s)"
| "store_step m (OpIssueRefresh sid tok now) = snd (IssueRefresh m sid tok now)"
| "store_step m (OpRotate old new now) = snd (Rotate m old new now)"
| "store_step m (OpRevoke sid now) = snd (Revoke m sid now)"
| "store_step m (OpTouch sid now) = snd (Touch m sid now)"

text \<open>
  The successor handed to \<open>Rotate\<close> is 256 fresh random bits. The store does not check it, so
  that it is new is a condition on the operation.
\<close>

fun fresh_op :: "memory_store \<Rightarrow> store_op \<Rightarrow> bool" where
  "fresh_op m (OpRotate old new now) \<longleftrightarrow> st_refresh m new = None"
| "fresh_op m _ \<longleftrightarrow> True"

abbreviation store_run :: "memory_store \<Rightarrow> store_op list \<Rightarrow> memory_store" where
  "store_run \<equiv> run store_step"

abbreviation fresh_run :: "memory_store \<Rightarrow> store_op list \<Rightarrow> bool" where
  "fresh_run \<equiv> run_ok store_step fresh_op"

text \<open>A session is dead when it is revoked; a token is live when it is known and unspent.\<close>

definition dead :: "memory_store \<Rightarrow> string \<Rightarrow> bool" where
  "dead m sid \<longleftrightarrow> (\<exists>s. st_sessions m sid = Some s \<and> sess_Revoked s)"

definition live_token :: "memory_store \<Rightarrow> string \<Rightarrow> string \<Rightarrow> bool" where
  "live_token m sid tok \<longleftrightarrow>
     (\<exists>r. st_refresh m tok = Some r \<and> rec_sid r = sid \<and> \<not> rec_used r)"

definition spent_token :: "memory_store \<Rightarrow> string \<Rightarrow> string \<Rightarrow> bool" where
  "spent_token m sid tok \<longleftrightarrow>
     (\<exists>r. st_refresh m tok = Some r \<and> rec_sid r = sid \<and> rec_used r)"

lemmas token_defs = dead_def live_token_def spent_token_def

text \<open>
  Sessions are filed under their own id, every token belongs to a stored session, and a
  revoked session has no live token.
\<close>

definition store_inv :: "memory_store \<Rightarrow> bool" where
  "store_inv m \<longleftrightarrow>
     (\<forall>k s. st_sessions m k = Some s \<longrightarrow> sess_ID s = k \<and> k \<noteq> []) \<and>
     (\<forall>t r. st_refresh m t = Some r \<longrightarrow> st_sessions m (rec_sid r) \<noteq> None) \<and>
     (\<forall>t r s. st_refresh m t = Some r \<longrightarrow> st_sessions m (rec_sid r) = Some s \<longrightarrow>
        sess_Revoked s \<longrightarrow> rec_used r)"

lemma store_invI:
  assumes "\<And>k s. st_sessions m k = Some s \<Longrightarrow> sess_ID s = k \<and> k \<noteq> []"
    and "\<And>t r. st_refresh m t = Some r \<Longrightarrow> \<exists>s. st_sessions m (rec_sid r) = Some s"
    and "\<And>t r s. st_refresh m t = Some r \<Longrightarrow> st_sessions m (rec_sid r) = Some s \<Longrightarrow>
           sess_Revoked s \<Longrightarrow> rec_used r"
  shows "store_inv m"
  using assms unfolding store_inv_def by fastforce

lemma store_invD:
  assumes "store_inv m"
  shows store_inv_sid: "st_sessions m k = Some s \<Longrightarrow> sess_ID s = k"
    and store_inv_id: "st_sessions m k = Some s \<Longrightarrow> k \<noteq> []"
    and store_inv_tok: "st_refresh m t = Some r \<Longrightarrow> \<exists>s. st_sessions m (rec_sid r) = Some s"
    and store_inv_used: "st_refresh m t = Some r \<Longrightarrow> st_sessions m (rec_sid r) = Some s \<Longrightarrow>
           sess_Revoked s \<Longrightarrow> rec_used r"
  using assms unfolding store_inv_def by blast+

lemma NewMemoryStore_inv: "store_inv NewMemoryStore"
  by (simp add: store_inv_def NewMemoryStore_def)

section \<open>What single operations keep\<close>

lemma revokeFamilyLocked_simps [simp]:
  "st_sessions (revokeFamilyLocked m sid now) = st_sessions m"
  "st_refresh (revokeFamilyLocked m sid now) tok =
     map_option (\<lambda>r. if rec_sid r = sid \<and> \<not> rec_used r then spend now r else r) (st_refresh m tok)"
  by (simp_all add: revokeFamilyLocked_def)

lemma spend_simps [simp]:
  "rec_sid (spend now r) = rec_sid r" "rec_used (spend now r)"
  "rec_expiresAt (spend now r) = rec_expiresAt r"
  by (simp_all add: spend_def)

lemma mark_revoked_simps [simp]:
  "sess_ID (mark_revoked now s) = sess_ID s" "sess_Revoked (mark_revoked now s)"
  by (simp_all add: mark_revoked_def)

lemma new_record_simps [simp]:
  "rec_sid (new_record sid e) = sid" "\<not> rec_used (new_record sid e)"
  "rec_expiresAt (new_record sid e) = e"
  by (simp_all add: new_record_def)

lemma store_inv_put_session:
  assumes "store_inv m" and "sess_ID s = k" and "k \<noteq> []"
    and "sess_Revoked s \<Longrightarrow> \<forall>t. \<not> live_token m k t"
  shows "store_inv (m\<lparr>st_sessions := (st_sessions m)(k \<mapsto> s)\<rparr>)"
proof (rule store_invI, goal_cases)
  case (1 k' s') then show ?case using store_invD(1,2) [OF assms(1)] assms(2,3)
    by (auto split: if_splits)
next
  case (2 t r) then show ?case using store_inv_tok [OF assms(1)] by simp
next
  case (3 t r s') then show ?case using store_inv_used [OF assms(1)] assms(4)
    by (auto simp: live_token_def split: if_splits)
qed

lemma store_inv_put_token:
  assumes "store_inv m" and "st_sessions m (rec_sid r) = Some s" and "sess_Revoked s \<Longrightarrow> rec_used r"
  shows "store_inv (m\<lparr>st_refresh := (st_refresh m)(t \<mapsto> r)\<rparr>)"
proof (rule store_invI, goal_cases)
  case (1 k' s') then show ?case using store_invD(1,2) [OF assms(1)] by simp
next
  case (2 t' r') then show ?case using store_inv_tok [OF assms(1)] assms(2)
    by (auto split: if_splits)
next
  case (3 t' r' s') then show ?case using store_inv_used [OF assms(1)] assms(2,3)
    by (auto split: if_splits)
qed

lemma store_inv_revokeFamily:
  assumes "store_inv m" shows "store_inv (revokeFamilyLocked m sid now)"
proof (rule store_invI, goal_cases)
  case (1 k' s') then show ?case using store_invD(1,2) [OF assms] by simp
next
  case (2 t r) then show ?case using store_inv_tok [OF assms] by (auto split: if_splits)
next
  case (3 t r s') then show ?case using store_inv_used [OF assms] by (auto split: if_splits)
qed

lemma revokeFamily_put_session:
  "revokeFamilyLocked (m\<lparr>st_sessions := f\<rparr>) sid now =
     (revokeFamilyLocked m sid now)\<lparr>st_sessions := f\<rparr>"
  by (simp add: revokeFamilyLocked_def)

lemma revokeFamily_not_live: "\<not> live_token (revokeFamilyLocked m sid now) sid t"
proof (cases "st_refresh m t")
  case (Some r) then show ?thesis
    by (cases "rec_sid r = sid"; cases "rec_used r") (simp_all add: live_token_def)
qed (simp add: live_token_def)

lemma kill_family_inv:
  assumes "store_inv m" and "st_sessions m sid = Some s"
  shows "store_inv (revokeFamilyLocked
           (m\<lparr>st_sessions := (st_sessions m)(sid \<mapsto> mark_revoked now s)\<rparr>) sid now)"
proof -
  let ?m = "revokeFamilyLocked m sid now"
  have "store_inv (?m\<lparr>st_sessions := (st_sessions ?m)(sid \<mapsto> mark_revoked now s)\<rparr>)"
    using store_invD(1,2) [OF assms]
    by (intro store_inv_put_session store_inv_revokeFamily assms allI revokeFamily_not_live) simp_all
  then show ?thesis by (simp only: revokeFamily_put_session revokeFamilyLocked_simps)
qed

lemma no_session_not_live: "store_inv m \<Longrightarrow> st_sessions m k = None \<Longrightarrow> \<not> live_token m k t"
  by (auto simp: live_token_def) (metis option.distinct(1) store_inv_tok)

lemma Create_inv: "store_inv m \<Longrightarrow> store_inv (snd (Create m s))"
  by (auto simp: Create_def no_session_not_live split: option.splits intro!: store_inv_put_session)

lemma store_inv_touch:
  assumes "store_inv m" and "st_sessions m sid = Some s"
  shows "store_inv (m\<lparr>st_sessions := (st_sessions m)(sid \<mapsto> s\<lparr>sess_LastSeen := now\<rparr>)\<rparr>)"
  using store_invD [OF assms(1)] assms
  by (intro store_inv_put_session) (auto simp: live_token_def)

lemma Touch_inv: "store_inv m \<Longrightarrow> store_inv (snd (Touch m sid now))"
  by (auto simp: Touch_def store_inv_touch split: option.splits)

lemma IssueRefresh_inv:
  assumes inv: "store_inv m"
  shows "store_inv (snd (IssueRefresh m sid tok now))"
proof (cases "st_sessions m sid")
  case (Some s)
  show ?thesis
    using store_inv_put_token [OF store_inv_touch [OF inv Some, of now],
        of "new_record sid (sess_ExpiresAt s)" "s\<lparr>sess_LastSeen := now\<rparr>" tok] Some inv
    by (auto simp: IssueRefresh_def)
qed (simp add: IssueRefresh_def inv)

lemma Revoke_inv: "store_inv m \<Longrightarrow> store_inv (snd (Revoke m sid now))"
  by (auto simp: Revoke_def kill_family_inv split: option.splits)

lemma Rotate_inv:
  assumes inv: "store_inv m"
  shows "store_inv (snd (Rotate m old new now))"
proof (cases "st_refresh m old")
  case (Some r)
  obtain s where s: "st_sessions m (rec_sid r) = Some s"
    using store_inv_tok [OF inv Some] by blast
  note sid = store_inv_sid [OF inv s]
  let ?s = "s\<lparr>sess_LastSeen := now, sess_ExpiresAt := now + RefreshTTL,
               sess_Rotations := sess_Rotations s + 1\<rparr>"
  consider "rec_used r" | "\<not> rec_used r" "\<not> sess_Revoked s" | "\<not> rec_used r" "sess_Revoked s" by blast
  then show ?thesis
  proof cases
    case 1
    with s Some show ?thesis
      using kill_family_inv [OF inv s] sid by (simp add: Rotate_def)
  next
    case 2
    have "store_inv (m\<lparr>st_sessions := (st_sessions m)(rec_sid r \<mapsto> ?s)\<rparr>)"
      using 2 sid store_inv_id [OF inv s] by (intro store_inv_put_session inv) auto
    from store_inv_put_token [OF this, of "(spend now r)\<lparr>rec_replaced := new\<rparr>" ?s old]
    have "store_inv (m\<lparr>st_sessions := (st_sessions m)(rec_sid r \<mapsto> ?s), st_refresh :=
        (st_refresh m)(old \<mapsto> (spend now r)\<lparr>rec_replaced := new\<rparr>)\<rparr>)" by simp
    from store_inv_put_token [OF this, of "new_record (sess_ID s) (now + RefreshTTL)" ?s new]
    show ?thesis using 2 s Some sid inv by (simp add: Rotate_def Let_def)
  next
    case 3
    with s Some inv show ?thesis by (simp add: Rotate_def)
  qed
qed (simp add: Rotate_def inv)

lemma store_step_inv: "store_inv m \<Longrightarrow> store_inv (store_step m x)"
  by (cases x) (simp_all add: Create_inv IssueRefresh_inv Rotate_inv Revoke_inv Touch_inv)

interpretation store: op_system store_step fresh_op store_inv
  by unfold_locales (rule store_step_inv)

text \<open>Once revoked, always revoked: no operation clears the mark.\<close>

lemma store_step_dead:
  assumes "dead m sid" shows "dead (store_step m x) sid"
proof -
  obtain s where "st_sessions m sid = Some s" "sess_Revoked s"
    using assms by (auto simp: dead_def)
  then show ?thesis
    by (cases x) (auto simp: dead_def Create_def IssueRefresh_def Rotate_def Revoke_def Touch_def
        Let_def split: option.split if_split)
qed

text \<open>Once spent, always spent, as long as the successors drawn are new.\<close>

lemma store_step_spent:
  assumes "fresh_op m x" and "spent_token m sid tok"
  shows "spent_token (store_step m x) sid tok"
proof -
  obtain r where "st_refresh m tok = Some r" "rec_sid r = sid" "rec_used r"
    using assms(2) by (auto simp: spent_token_def)
  with assms(1) show ?thesis
    by (cases x) (auto simp: spent_token_def Create_def IssueRefresh_def Rotate_def Revoke_def
        Touch_def Let_def split: option.split if_split)
qed

lemma dead_not_live: "store_inv m \<Longrightarrow> dead m sid \<Longrightarrow> \<not> live_token m sid tok"
  by (auto simp: token_defs dest: store_inv_used)

section \<open>The interface \<open>SessionStore\<close>\<close>

text \<open>
  The contract of the Go interface, as its comments state it: a rotation consumes the token, a
  consumed token is recognised as such and its replay kills the session, and a dead session
  never hands out a successor. \<open>spent\<close> and \<open>gone\<close> are what an implementation has to remember.
\<close>

locale session_store = op_system step ok inv
  for step :: "'s \<Rightarrow> 'o \<Rightarrow> 's" and ok :: "'s \<Rightarrow> 'o \<Rightarrow> bool" and inv :: "'s \<Rightarrow> bool" +
  fixes rotate :: "'s \<Rightarrow> string \<Rightarrow> string \<Rightarrow> time \<Rightarrow> (store_error + session) \<times> 's"
    and rot :: "string \<Rightarrow> string \<Rightarrow> time \<Rightarrow> 'o"
    and spent :: "'s \<Rightarrow> string \<Rightarrow> string \<Rightarrow> bool"
    and gone :: "'s \<Rightarrow> string \<Rightarrow> bool"
  assumes step_rot: "step m (rot old new now) = snd (rotate m old new now)"
    and rotate_spends: "inv m \<Longrightarrow> ok m (rot old new now) \<Longrightarrow> rotate m old new now = (Inr s, m') \<Longrightarrow>
           spent m' (sess_ID s) old"
    and rotate_gone: "inv m \<Longrightarrow> gone m sid \<Longrightarrow> rotate m old new now = (Inr s, m') \<Longrightarrow> sess_ID s \<noteq> sid"
    and rotate_replay: "inv m \<Longrightarrow> spent m sid old \<Longrightarrow>
           \<exists>m'. rotate m old new now = (Inl (ReuseError sid), m') \<and> gone m' sid"
    and step_spent: "inv m \<Longrightarrow> ok m x \<Longrightarrow> spent m sid tok \<Longrightarrow> spent (step m x) sid tok"
    and step_gone: "inv m \<Longrightarrow> ok m x \<Longrightarrow> gone m sid \<Longrightarrow> gone (step m x) sid"
begin

lemma rotate_inv:
  "inv m \<Longrightarrow> ok m (rot old new now) \<Longrightarrow> rotate m old new now = (res, m') \<Longrightarrow> inv m'"
  using inv_step [of m "rot old new now"] by (simp add: step_rot)

lemma run_gone: "inv m \<Longrightarrow> run_ok step ok m xs \<Longrightarrow> gone m sid \<Longrightarrow> gone (run step m xs) sid"
  by (rule run_stable [where P = "\<lambda>m. gone m sid"]) (auto intro: step_gone)

lemma spent_is_replay:
  assumes "inv m" and "spent m sid old" and "run_ok step ok m xs"
  shows "\<exists>m'. rotate (run step m xs) old new now = (Inl (ReuseError sid), m') \<and> gone m' sid"
  using assms run_stable [where P = "\<lambda>m. spent m sid old"]
  by (intro rotate_replay run_inv) (auto intro: step_spent)

lemma single_use:
  assumes "inv m" and "ok m (rot old new now)" and "rotate m old new now = (Inr s, m')"
    and "run_ok step ok m' xs"
  shows "\<exists>m''. rotate (run step m' xs) old new' now' = (Inl (ReuseError (sess_ID s)), m'') \<and>
           gone m'' (sess_ID s)"
  using assms by (intro spent_is_replay rotate_inv [OF assms(1-3)] rotate_spends [OF assms(1-3)])

lemma gone_for_good:
  assumes "inv m" and "gone m sid" and "run_ok step ok m xs"
    and "rotate (run step m xs) old new now = (Inr s, m')"
  shows "sess_ID s \<noteq> sid"
  using assms by (intro rotate_gone [OF run_inv run_gone])

end

lemma Rotate_okD:
  assumes "Rotate m old new now = (Inr s', m')"
  obtains r s where "st_refresh m old = Some r" and "st_sessions m (rec_sid r) = Some s"
    and "\<not> rec_used r" and "\<not> sess_Revoked s" and "now \<le> rec_expiresAt r"
    and "s' = s\<lparr>sess_LastSeen := now, sess_ExpiresAt := now + RefreshTTL,
                 sess_Rotations := sess_Rotations s + 1\<rparr>"
    and "m' = m\<lparr>st_sessions := (st_sessions m)(rec_sid r \<mapsto> s'),
                st_refresh := (st_refresh m)
                  (old \<mapsto> (spend now r)\<lparr>rec_replaced := new\<rparr>,
                   new \<mapsto> new_record (sess_ID s) (sess_ExpiresAt s'))\<rparr>"
  using assms by (auto simp: Rotate_def Let_def split: option.splits if_splits)

lemma Rotate_spends:
  assumes "store_inv m" and "st_refresh m new = None" and "Rotate m old new now = (Inr s, m')"
  shows "spent_token m' (sess_ID s) old"
  using assms(3,2) by (elim Rotate_okD) (auto simp: spent_token_def dest: store_inv_sid [OF assms(1)])

lemma Rotate_dead:
  assumes "store_inv m" and "dead m sid" and "Rotate m old new now = (Inr s, m')"
  shows "sess_ID s \<noteq> sid"
proof (rule Rotate_okD [OF assms(3)])
  fix r s0
  assume "st_sessions m (rec_sid r) = Some s0" "\<not> sess_Revoked s0"
    and "s = s0\<lparr>sess_LastSeen := now, sess_ExpiresAt := now + RefreshTTL,
                 sess_Rotations := sess_Rotations s0 + 1\<rparr>"
  then show ?thesis using store_inv_sid [OF assms(1)] assms(2) by (force simp: dead_def)
qed

lemma Rotate_replay:
  assumes "store_inv m" and "spent_token m sid old"
  shows "\<exists>m'. Rotate m old new now = (Inl (ReuseError sid), m') \<and> dead m' sid"
proof -
  obtain r s where "st_refresh m old = Some r" "rec_sid r = sid" "rec_used r"
    "st_sessions m sid = Some s"
    using assms store_inv_tok by (fastforce simp: spent_token_def)
  then show ?thesis using store_inv_sid [OF assms(1)] by (simp add: Rotate_def dead_def)
qed

interpretation mem: session_store store_step fresh_op store_inv Rotate OpRotate spent_token dead
  by unfold_locales
    (auto intro: Rotate_spends Rotate_replay store_step_spent store_step_dead dest: Rotate_dead)

section \<open>Scopes\<close>

definition scope_names :: "string list \<Rightarrow> string set" where
  "scope_names ss = {v. v \<noteq> [] \<and> v \<in> (\<lambda>s. to_lower (trim_space s)) ` set ss}"

lemma normalize_scopes_loop_set:
  "set (normalize_scopes_loop seen ss) = scope_names ss - seen"
  by (induction seen ss rule: normalize_scopes_loop.induct) (auto simp: scope_names_def Let_def)

lemma normalize_scopes_loop_distinct: "distinct (normalize_scopes_loop seen ss)"
  by (induction seen ss rule: normalize_scopes_loop.induct)
    (auto simp: Let_def normalize_scopes_loop_set)

lemma NormalizeScopes_props:
  "set (NormalizeScopes ss) = scope_names ss"
  "sorted (NormalizeScopes ss)" "distinct (NormalizeScopes ss)"
  by (simp_all add: NormalizeScopes_def normalize_scopes_loop_set normalize_scopes_loop_distinct)

section \<open>Properties\<close>

lemma store_inv_runs: "store_inv m \<Longrightarrow> store_inv (store_run m ops)"
  by (induction ops arbitrary: m) (simp_all add: store_step_inv)

text \<open>Whatever sequence of store operations runs, and with whatever arguments: every session
  is filed under its own id, every refresh token belongs to a stored session, and a revoked
  session has no token that is still unspent.\<close>

theorem store_runs_consistent:
  "let m = store_run NewMemoryStore ops in
     (\<nexists>k s. st_sessions m k = Some s \<and> sess_ID s \<noteq> k) \<and>
     (\<nexists>t r. st_refresh m t = Some r \<and> st_sessions m (rec_sid r) = None) \<and>
     (\<nexists>t r s. st_refresh m t = Some r \<and> st_sessions m (rec_sid r) = Some s \<and>
        sess_Revoked s \<and> \<not> rec_used r)"
  using store_inv_runs [OF NewMemoryStore_inv, of ops] unfolding Let_def store_inv_def by blast

text \<open>C9. A refresh token is good for one exchange. After a successful \<open>Rotate\<close>, and after any
  further operations that draw new tokens, presenting the old token again is reported as
  \<open>ReuseError\<close> naming the session, and leaves that session revoked.\<close>

theorem Rotate_single_use:
  assumes "fresh_run NewMemoryStore before" and "m = store_run NewMemoryStore before"
    and "st_refresh m new = None" and "Rotate m old new now = (Inr s, m')"
    and "fresh_run m' between"
  shows "\<exists>m''. Rotate (store_run m' between) old new' now' = (Inl (ReuseError (sess_ID s)), m'') \<and>
           dead m'' (sess_ID s)"
  using mem.single_use [of m old new now s m' between new' now'] assms
    store_inv_runs [OF NewMemoryStore_inv, of before] by simp

definition demo_session :: session where
  "demo_session = \<lparr>sess_ID = ''s1'', sess_Label = ''laptop'', sess_Scopes = [''lookup''],
     sess_CreatedAt = 0, sess_LastSeen = 0, sess_ExpiresAt = RefreshTTL, sess_Revoked = False,
     sess_RevokedAt = zero_time, sess_Rotations = 0, sess_ClientHint = []\<rparr>"

definition demo_store :: memory_store where
  "demo_store = store_run NewMemoryStore
     [OpCreate (Some demo_session), OpIssueRefresh ''s1'' ''r1'' 1]"

lemma demo_rotate:
  "Rotate demo_store ''r1'' ''r2'' 5 =
     (Inr (demo_session\<lparr>sess_LastSeen := 5, sess_ExpiresAt := 5 + RefreshTTL, sess_Rotations := 1\<rparr>),
      store_run demo_store [OpRotate ''r1'' ''r2'' 5])"
  by (simp add: demo_store_def demo_session_def NewMemoryStore_def store_defs RefreshTTL_def hour_def)

theorem Rotate_single_use_witness:
  "\<exists>m''. Rotate (store_run (store_run demo_store [OpRotate ''r1'' ''r2'' 5]) [OpTouch ''s1'' 6])
      ''r1'' ''r3'' 7 = (Inl (ReuseError ''s1''), m'') \<and> dead m'' ''s1''"
  using Rotate_single_use [of "[OpCreate (Some demo_session), OpIssueRefresh ''s1'' ''r1'' 1]"
      demo_store "''r2''" "''r1''" 5 _ _ "[OpTouch ''s1'' 6]" "''r3''" 7, OF _ _ _ demo_rotate]
  by (simp add: demo_session_def)
    (simp add: demo_store_def demo_session_def NewMemoryStore_def store_defs)

text \<open>The replay of a spent token ends the whole family for good: once the session is revoked
  by it, no exchange of any token, in any later state of the store, returns that session.\<close>

theorem Rotate_replay_kills_family:
  assumes "fresh_run NewMemoryStore before" and "spent_token (store_run NewMemoryStore before) sid old"
    and "m = snd (Rotate (store_run NewMemoryStore before) old new now)"
    and "fresh_run m after"
  shows "\<nexists>tok new' now' s m'. Rotate (store_run m after) tok new' now' = (Inr s, m') \<and> sess_ID s = sid"
proof -
  have "dead m sid"
    using mem.rotate_replay [OF store_inv_runs [OF NewMemoryStore_inv] assms(2), of new now] assms(3)
    by auto
  moreover have "store_inv m"
    using assms(3) Rotate_inv store_inv_runs [OF NewMemoryStore_inv] by simp
  ultimately show ?thesis using mem.gone_for_good assms(4) by blast
qed

theorem Rotate_replay_kills_family_witness:
  "\<nexists>tok new' now' s m'.
     Rotate (store_run (snd (Rotate (store_run demo_store [OpRotate ''r1'' ''r2'' 5]) ''r1'' ''r3'' 7))
       [OpTouch ''s1'' 9]) tok new' now' = (Inr s, m') \<and> sess_ID s = ''s1''"
  using Rotate_replay_kills_family [of "[OpCreate (Some demo_session), OpIssueRefresh ''s1'' ''r1'' 1,
      OpRotate ''r1'' ''r2'' 5]" "''s1''" "''r1''" _ "''r3''" 7 "[OpTouch ''s1'' 9]"]
  by (simp add: demo_store_def demo_session_def NewMemoryStore_def store_defs spent_token_def
      RefreshTTL_def hour_def)

text \<open>A client that keeps exchanging its newest token, and exchanges each before it expires.\<close>

fun rotations :: "string \<Rightarrow> (string \<times> time) list \<Rightarrow> store_op list" where
  "rotations tok [] = []"
| "rotations tok ((new, t) # xs) = OpRotate tok new t # rotations new xs"

fun paced :: "time \<Rightarrow> (string \<times> time) list \<Rightarrow> bool" where
  "paced e [] = True"
| "paced e ((new, t) # xs) = (t \<le> e \<and> paced (t + RefreshTTL) xs)"

definition good_token :: "memory_store \<Rightarrow> string \<Rightarrow> string \<Rightarrow> time \<Rightarrow> int \<Rightarrow> bool" where
  "good_token m sid tok e n \<longleftrightarrow>
     (\<exists>r s. st_refresh m tok = Some r \<and> rec_sid r = sid \<and> \<not> rec_used r \<and> rec_expiresAt r = e \<and>
        st_sessions m sid = Some s \<and> \<not> sess_Revoked s \<and> sess_Rotations s = n)"

lemma Rotate_good_token:
  assumes "store_inv m" and "good_token m sid tok e n" and "t \<le> e" and "st_refresh m new = None"
  shows "good_token (store_step m (OpRotate tok new t)) sid new (t + RefreshTTL) (n + 1)"
    and "st_refresh (store_step m (OpRotate tok new t)) x \<noteq> None \<longleftrightarrow>
           st_refresh m x \<noteq> None \<or> x = new"
  using assms store_inv_sid [OF assms(1)]
  by (auto simp: good_token_def Rotate_def Let_def split: if_splits)

lemma rotations_keep_good:
  assumes "store_inv m" and "good_token m sid tok e n" and "paced e xs"
    and "distinct (map fst xs)" and "\<forall>x \<in> fst ` set xs. st_refresh m x = None"
  shows "\<exists>e'. good_token (store_run m (rotations tok xs)) sid (last (tok # map fst xs)) e' (n + int (length xs))"
  using assms
proof (induction xs arbitrary: m tok e n)
  case (Cons x xs)
  obtain new t where x: "x = (new, t)" by force
  let ?m = "store_step m (OpRotate tok new t)"
  have good: "good_token ?m sid new (t + RefreshTTL) (n + 1)"
    and dom: "\<And>y. st_refresh ?m y \<noteq> None \<longleftrightarrow> st_refresh m y \<noteq> None \<or> y = new"
    using Cons.prems Rotate_good_token [of m sid tok e n t new] x by auto
  have "\<exists>e'. good_token (store_run ?m (rotations new xs)) sid (last (new # map fst xs)) e'
      (n + 1 + int (length xs))"
  proof (rule Cons.IH [OF store_step_inv good])
    show "\<forall>y \<in> fst ` set xs. st_refresh ?m y = None"
    proof
      fix y assume "y \<in> fst ` set xs"
      then show "st_refresh ?m y = None" using Cons.prems(4,5) x dom [of y] by auto
    qed
  qed (use Cons.prems x in auto)
  then show ?case by (cases "xs = []") (simp_all add: x algebra_simps)
qed auto

text \<open>The thirty-day window slides. A client that exchanges each token no later than its expiry
  keeps its session through any number of rotations: the newest token is good again, and the
  session counts one rotation per exchange.\<close>

theorem session_survives_regular_use:
  assumes "good_token (store_run NewMemoryStore before) sid tok e n" and "paced e xs"
    and "distinct (map fst xs)"
    and "\<forall>x \<in> fst ` set xs. st_refresh (store_run NewMemoryStore before) x = None"
  shows "\<exists>e'. good_token (store_run NewMemoryStore (before @ rotations tok xs)) sid
           (last (tok # map fst xs)) e' (n + int (length xs))"
  using rotations_keep_good [OF store_inv_runs [OF NewMemoryStore_inv] assms] by simp

theorem session_survives_regular_use_witness:
  "\<exists>e'. good_token (store_run NewMemoryStore
       ([OpCreate (Some demo_session), OpIssueRefresh ''s1'' ''r1'' 1] @
        rotations ''r1'' [(''r2'', 20 * 24 * hour), (''r3'', 40 * 24 * hour)])) ''s1'' ''r3'' e' 2"
  using session_survives_regular_use [of "[OpCreate (Some demo_session), OpIssueRefresh ''s1'' ''r1'' 1]"
      "''s1''" "''r1''" RefreshTTL 0 "[(''r2'', 20 * 24 * hour), (''r3'', 40 * 24 * hour)]"]
  by (simp add: demo_session_def NewMemoryStore_def store_defs good_token_def RefreshTTL_def hour_def)

text \<open>Silence ends it: after the expiry the token is refused with \<open>ErrRefreshExpired\<close> and the store
  is left as it was, so a late token is neither exchanged nor treated as theft.\<close>

theorem idle_token_expires:
  assumes "good_token m sid tok e n" and "e < now"
  shows "Rotate m tok new now = (Inl (ErrRefreshExpired e), m)"
  using assms by (auto simp: good_token_def Rotate_def)

theorem idle_token_expires_witness:
  "Rotate demo_store ''r1'' ''r2'' (RefreshTTL + 1) = (Inl (ErrRefreshExpired RefreshTTL), demo_store)"
  by (rule idle_token_expires [where sid = "''s1''" and n = 0])
    (simp_all add: demo_store_def demo_session_def NewMemoryStore_def store_defs good_token_def)

lemma map_filter_sessions_ids:
  assumes "store_inv m"
  shows "map sess_ID (List.map_filter (st_sessions m) ord) = filter (\<lambda>k. st_sessions m k \<noteq> None) ord"
  by (induction ord) (auto simp: List.map_filter_def store_inv_sid [OF assms])

lemma SessionList_props:
  assumes "store_inv m" and "distinct ord" and "set ord = dom (st_sessions m)"
  shows "sorted_wrt (\<lambda>a b. sess_CreatedAt b \<le> sess_CreatedAt a) (SessionList m ord)"
    and "distinct (map sess_ID (SessionList m ord))"
    and "set (SessionList m ord) = ran (st_sessions m)"
proof -
  let ?xs = "List.map_filter (st_sessions m) ord"
  have "sorted (map (\<lambda>s. - sess_CreatedAt s) (SessionList m ord))" by (simp add: SessionList_def)
  then show "sorted_wrt (\<lambda>a b. sess_CreatedAt b \<le> sess_CreatedAt a) (SessionList m ord)"
    by (simp add: sorted_map)
  have "distinct (map sess_ID ?xs)"
    unfolding map_filter_sessions_ids [OF assms(1)] using assms(2) by simp
  then show "distinct (map sess_ID (SessionList m ord))"
    by (simp add: SessionList_def distinct_map)
  show "set (SessionList m ord) = ran (st_sessions m)" using assms(3)
    by (auto simp: SessionList_def List.map_filter_def ran_def image_iff) force+
qed

text \<open>\<open>List\<close> returns every stored session exactly once, newest first, in whatever order the
  runtime iterates the map.\<close>

theorem SessionList_newest_first:
  assumes "m = store_run NewMemoryStore ops" and "distinct ord" and "set ord = dom (st_sessions m)"
  shows "sorted_wrt (\<lambda>a b. sess_CreatedAt b \<le> sess_CreatedAt a) (SessionList m ord) \<and>
         distinct (map sess_ID (SessionList m ord)) \<and> set (SessionList m ord) = ran (st_sessions m)"
  using SessionList_props [OF _ assms(2,3)] store_inv_runs [OF NewMemoryStore_inv] assms(1) by blast

theorem SessionList_newest_first_witness:
  "set (SessionList demo_store [''s1'']) = ran (st_sessions demo_store)"
  using SessionList_newest_first
    [of demo_store "[OpCreate (Some demo_session), OpIssueRefresh ''s1'' ''r1'' 1]" "[''s1'']"]
  by (auto simp: demo_store_def demo_session_def NewMemoryStore_def store_defs)

text \<open>\<open>NormalizeScopes\<close> is canonical: it returns the distinct trimmed, lower-cased, non-empty
  names in sorted order, so two grants get equal lists exactly when they name the same scopes.\<close>

theorem NormalizeScopes_canonical:
  "sorted (NormalizeScopes a) \<and> distinct (NormalizeScopes a) \<and> set (NormalizeScopes a) = scope_names a \<and>
   (NormalizeScopes a = NormalizeScopes b \<longleftrightarrow> scope_names a = scope_names b)"
  using NormalizeScopes_props [of a] NormalizeScopes_props [of b] by (metis sorted_distinct_set_unique)

end
