(* ===== verification/Base64.thy ===== *)
theory Base64
  imports Go_Prelude
begin

text \<open>
  Package \<open>encoding/base64\<close> as \<open>internal/auth\<close> uses it: \<open>b64\<close> of \<open>keys.go\<close> encodes with
  \<open>RawURLEncoding\<close>, \<open>Issuer.Verify\<close> decodes with it, and \<open>decodeB64\<close> tries four variants in
  turn. The decoder drops carriage returns and line feeds anywhere, refuses every other foreign
  byte and a trailing group of one digit, and (not being the strict variant) ignores the unused
  low bits of the last digit. The padded variants want the last group filled up with \<open>=\<close>.
\<close>

definition url_alphabet :: string where
  "url_alphabet = ''ABCDEFGHIJKLMNOPQRSTUVWXYZabcdefghijklmnopqrstuvwxyz0123456789-_''"

definition enc_digit :: "nat \<Rightarrow> char" where
  "enc_digit n = url_alphabet ! n"

definition std_alphabet :: string where
  "std_alphabet = ''ABCDEFGHIJKLMNOPQRSTUVWXYZabcdefghijklmnopqrstuvwxyz0123456789+/''"

definition dec_digit :: "string \<Rightarrow> char \<Rightarrow> nat option" where
  "dec_digit alphabet c =
     (let i = length (takeWhile (\<lambda>x. x \<noteq> c) alphabet)
      in if i < 64 then Some i else None)"

fun b64_nats :: "nat list \<Rightarrow> nat list" where
  "b64_nats [] = []"
| "b64_nats [a] = [a div 4, a mod 4 * 16]"
| "b64_nats [a, b] = [a div 4, a mod 4 * 16 + b div 16, b mod 16 * 4]"
| "b64_nats (a # b # c # r) =
     a div 4 # (a mod 4 * 16 + b div 16) # (b mod 16 * 4 + c div 64) # c mod 64 # b64_nats r"

definition b64 :: "string \<Rightarrow> string" where
  "b64 s = map enc_digit (b64_nats (map of_char s))"

fun unb64_nats :: "nat list \<Rightarrow> nat list option" where
  "unb64_nats [] = Some []"
| "unb64_nats [p] = None"
| "unb64_nats [p, q] = Some [p * 4 + q div 16]"
| "unb64_nats [p, q, r] = Some [p * 4 + q div 16, q mod 16 * 16 + r div 4]"
| "unb64_nats (p # q # r # t # ds) =
     map_option (\<lambda>bs. (p * 4 + q div 16) # (q mod 16 * 16 + r div 4) # (r mod 4 * 64 + t) # bs)
       (unb64_nats ds)"

definition no_newlines :: "string \<Rightarrow> string" where
  "no_newlines s = filter (\<lambda>c. c \<noteq> CHR 0x0A \<and> c \<noteq> CHR 0x0D) s"

definition decode_digits :: "string \<Rightarrow> string \<Rightarrow> string option" where
  "decode_digits alphabet s =
     (let ds = map (dec_digit alphabet) s
      in if list_ex (\<lambda>x. x = None) ds then None
         else map_option (map char_of) (unb64_nats (map the ds)))"

definition decode_raw :: "string \<Rightarrow> string \<Rightarrow> string option" where
  "decode_raw alphabet s = decode_digits alphabet (no_newlines s)"

definition decode_padded :: "string \<Rightarrow> string \<Rightarrow> string option" where
  "decode_padded alphabet s =
     (let s' = no_newlines s;
          body = takeWhile (\<lambda>c. c \<noteq> CHR ''='') s';
          pad = drop (length body) s'
      in if pad = [] \<and> length body mod 4 = 0 \<or> pad = ''='' \<and> length body mod 4 = 3 \<or>
            pad = ''=='' \<and> length body mod 4 = 2
         then decode_digits alphabet body else None)"

definition unb64 :: "string \<Rightarrow> string option" where
  "unb64 s = decode_raw url_alphabet s"

text \<open>\<open>decodeB64\<close>: the first of the four variants that accepts.\<close>

definition decodeB64 :: "string \<Rightarrow> string option" where
  "decodeB64 s =
     (case decode_raw url_alphabet s of Some b \<Rightarrow> Some b
      | None \<Rightarrow> (case decode_padded url_alphabet s of Some b \<Rightarrow> Some b
      | None \<Rightarrow> (case decode_raw std_alphabet s of Some b \<Rightarrow> Some b
      | None \<Rightarrow> decode_padded std_alphabet s)))"

section \<open>Digits\<close>

lemma digit_table:
  "list_all (\<lambda>n. dec_digit url_alphabet (enc_digit n) = Some n \<and> enc_digit n \<noteq> CHR ''.'' \<and>
     \<not> is_space (enc_digit n)) [0..<64]"
  by code_simp

lemma enc_digit:
  assumes "n < 64"
  shows "dec_digit url_alphabet (enc_digit n) = Some n" "enc_digit n \<noteq> CHR ''.''"
    "\<not> is_space (enc_digit n)"
  using digit_table assms by (auto simp: list_all_iff)

lemma b64_nats_bound: "\<forall>a \<in> set xs. a < 256 \<Longrightarrow> \<forall>d \<in> set (b64_nats xs). d < 64"
  by (induction xs rule: b64_nats.induct) auto

lemma small_div: "b < 256 \<Longrightarrow> b div 16 < 16" "c < 256 \<Longrightarrow> c div 64 < 4" for b c :: nat
  by auto

lemmas unpack = small_div [THEN div_less] small_div [THEN mod_less] div_mult_mod_eq

lemma unb64_b64_nats: "\<forall>a \<in> set xs. a < 256 \<Longrightarrow> unb64_nats (b64_nats xs) = Some xs"
  by (induction xs rule: b64_nats.induct) (simp_all add: unpack)

lemma b64_digits: "d \<in> set (b64 s) \<Longrightarrow> \<exists>n < 64. d = enc_digit n"
  using b64_nats_bound [of "map of_char s"] by (auto simp: b64_def)

lemma b64_no_dot: "CHR ''.'' \<notin> set (b64 s)"
  using b64_digits enc_digit(2) by metis

lemma b64_no_space: "c \<in> set (b64 s) \<Longrightarrow> \<not> is_space c"
  using b64_digits enc_digit(3) by metis

lemma b64_Nil_iff [simp]: "b64 s = [] \<longleftrightarrow> s = []"
  by (cases "map of_char s :: nat list" rule: b64_nats.cases) (auto simp: b64_def)

lemma no_newlines_b64: "no_newlines (b64 s) = b64 s"
proof -
  have "c \<noteq> CHR 0x0A \<and> c \<noteq> CHR 0x0D" if "c \<in> set (b64 s)" for c
    using b64_no_space [OF that] by (auto simp: is_space_def)
  then show ?thesis by (simp add: no_newlines_def filter_id_conv)
qed

lemma trim_space_b64: "trim_space (b64 s) = b64 s"
  using b64_no_space by (intro trim_space_id) blast

lemma dec_enc_digits:
  "\<forall>d \<in> set ds. d < 64 \<Longrightarrow> map (dec_digit url_alphabet) (map enc_digit ds) = map Some ds"
  by (induction ds) (simp_all add: enc_digit)

lemma unb64_b64 [simp]: "unb64 (b64 s) = Some s"
proof -
  let ?ds = "b64_nats (map of_char s)"
  have "\<forall>a \<in> set (map of_char s :: nat list). a < 256" by auto
  note b = b64_nats_bound [OF this] unb64_b64_nats [OF this]
  have "map (dec_digit url_alphabet) (b64 s) = map Some ?ds"
    unfolding b64_def by (rule dec_enc_digits [OF b(1)])
  then have "decode_digits url_alphabet (b64 s) = Some s"
    using b(2) by (simp add: decode_digits_def comp_def list_ex_iff del: set_map) auto
  then show ?thesis by (simp add: unb64_def decode_raw_def no_newlines_b64)
qed

lemma decodeB64_b64: "decodeB64 (b64 s) = Some s"
  using unb64_b64 [of s] by (simp add: decodeB64_def unb64_def)

end
