(* ===== verification/Code_Store.thy ===== *)
theory Code_Store
  imports Base64
begin

text \<open>
  Authorization codes: \<open>internal/auth/authcode.go\<close>. The store of outstanding codes, the PKCE
  check, and the structural rule for redirect targets. SHA-256 (\<open>sha\<close>) and \<open>url.Parse\<close>
  (\<open>parse\<close>) are arguments; base64url is the concrete encoding of theory Base64.
\<close>

section \<open>Data\<close>

definition AuthCodeTTL :: duration where
  "AuthCodeTTL = minute"

datatype code_error =
    CodeRandomFailed
  | ErrCodeUnknown
  | ErrCodeExpired
  | ErrCodeOtherClient
  | ErrRedirectMismatch
  | ErrPKCEFailed

record code =
  code_Code :: string
  code_SessionID :: string
  code_Label :: string
  code_Scopes :: "string list"
  code_ClientID :: string
  code_RedirectURI :: string
  code_Challenge :: string
  code_Resource :: string
  code_IssuedAt :: time
  code_ExpiresAt :: time

type_synonym code_store = "string \<rightharpoonup> code"

section \<open>Operations\<close>

definition NewCodeStore :: code_store where
  "NewCodeStore = Map.empty"

definition VerifyPKCE :: "(string \<Rightarrow> string) \<Rightarrow> string \<Rightarrow> string \<Rightarrow> bool" where
  "VerifyPKCE sha challenge verifier =
     (if challenge = [] \<or> verifier = [] then False
      else if length verifier < 43 \<or> 128 < length verifier then False
      else b64 (sha verifier) = challenge)"

definition sweepLocked :: "code_store \<Rightarrow> time \<Rightarrow> code_store" where
  "sweepLocked s now =
     (\<lambda>k. case s k of None \<Rightarrow> None
          | Some c \<Rightarrow> if code_ExpiresAt c < now then None else Some c)"

text \<open>\<open>rid\<close> is what \<open>randomID(32)\<close> drew, or its failure.\<close>

definition Issue ::
    "code_store \<Rightarrow> code \<Rightarrow> string option \<Rightarrow> time \<Rightarrow> (code_error + string) \<times> code_store" where
  "Issue s c rid now =
     (case rid of
        None \<Rightarrow> (Inl CodeRandomFailed, s)
      | Some k \<Rightarrow>
          (let c' = c\<lparr>code_Code := k, code_IssuedAt := now, code_ExpiresAt := now + AuthCodeTTL\<rparr>
           in (Inr k, sweepLocked (s(k \<mapsto> c')) now)))"

definition Consume ::
    "(string \<Rightarrow> string) \<Rightarrow> code_store \<Rightarrow> string \<Rightarrow> string \<Rightarrow> string \<Rightarrow> string \<Rightarrow> time \<Rightarrow>
     (code_error + code) \<times> code_store" where
  "Consume sha s k verifier redirectURI clientID now =
     (case s k of
        None \<Rightarrow> (Inl ErrCodeUnknown, s)
      | Some c \<Rightarrow>
          ((if code_ExpiresAt c < now then Inl ErrCodeExpired
            else if code_ClientID c \<noteq> [] \<and> clientID \<noteq> [] \<and> code_ClientID c \<noteq> clientID
              then Inl ErrCodeOtherClient
            else if code_RedirectURI c \<noteq> [] \<and> code_RedirectURI c \<noteq> redirectURI
              then Inl ErrRedirectMismatch
            else if \<not> VerifyPKCE sha (code_Challenge c) verifier then Inl ErrPKCEFailed
            else Inr c),
           s(k := None)))"

section \<open>Redirect targets\<close>

text \<open>What the rule reads of a parsed \<open>url.URL\<close>.\<close>

record url =
  url_Scheme :: string
  url_Host :: string
  url_Hostname :: string
  url_Fragment :: string

datatype redirect_error =
    RedirectRequired
  | RedirectNotURI
  | RedirectFragment
  | RedirectNoHost
  | RedirectNotLoopback
  | RedirectNotAbsolute
  | RedirectBadScheme string
  | RedirectNotPrivate string

definition ValidateRedirectURI :: "(string \<Rightarrow> url option) \<Rightarrow> string \<Rightarrow> redirect_error option" where
  "ValidateRedirectURI parse raw =
     (if trim_space raw = [] then Some RedirectRequired
      else case parse raw of
        None \<Rightarrow> Some RedirectNotURI
      | Some u \<Rightarrow>
          if url_Fragment u \<noteq> [] then Some RedirectFragment
          else
            (let scheme = to_lower (url_Scheme u)
             in if scheme = ''https'' then
                  (if url_Host u = [] then Some RedirectNoHost else None)
                else if scheme = ''http'' then
                  (if url_Hostname u \<in> set [''127.0.0.1'', ''::1'', ''localhost''] then None
                   else Some RedirectNotLoopback)
                else if scheme = [] then Some RedirectNotAbsolute
                else if scheme \<in> set [''javascript'', ''data'', ''vbscript'', ''file''] then
                  Some (RedirectBadScheme scheme)
                else if contains scheme ''.'' then None
                else Some (RedirectNotPrivate scheme)))"

section \<open>The store as a state machine\<close>

datatype code_op =
    OpIssue code "string option" time
  | OpConsume string string string string time

fun code_step :: "(string \<Rightarrow> string) \<Rightarrow> code_store \<Rightarrow> code_op \<Rightarrow> code_store" where
  "code_step sha s (OpIssue c rid now) = snd (Issue s c rid now)"
| "code_step sha s (OpConsume k v r cl now) = snd (Consume sha s k v r cl now)"

definition code_inv :: "code_store \<Rightarrow> bool" where
  "code_inv s \<longleftrightarrow> (\<forall>k c. s k = Some c \<longrightarrow>
     code_Code c = k \<and> code_ExpiresAt c = code_IssuedAt c + AuthCodeTTL)"

lemma sweepLocked_Some [simp]:
  "sweepLocked s now k = Some c \<longleftrightarrow> s k = Some c \<and> now \<le> code_ExpiresAt c"
  by (auto simp: sweepLocked_def split: option.splits)

lemma code_step_inv: "code_inv s \<Longrightarrow> code_inv (code_step sha s x)"
  by (cases x) (auto simp: code_inv_def Issue_def Consume_def Let_def split: option.splits if_splits)

interpretation codes: op_system "code_step sha" "\<lambda>s x. True" code_inv for sha
  by unfold_locales (rule code_step_inv)

fun issues :: "code_op \<Rightarrow> string \<Rightarrow> bool" where
  "issues (OpIssue c rid now) k \<longleftrightarrow> rid = Some k"
| "issues _ k \<longleftrightarrow> False"

lemma code_step_gone: "s k = None \<Longrightarrow> \<not> issues x k \<Longrightarrow> code_step sha s x k = None"
  by (cases x) (auto simp: Issue_def Consume_def Let_def sweepLocked_def split: option.splits)

lemma code_run_gone:
  "s k = None \<Longrightarrow> \<forall>x \<in> set ops. \<not> issues x k \<Longrightarrow> run (code_step sha) s ops k = None"
  by (induction ops arbitrary: s) (auto simp: code_step_gone)

text \<open>An operation leaves a live code alone unless it consumes or overwrites it.\<close>

fun spares :: "code_op \<Rightarrow> string \<Rightarrow> time \<Rightarrow> bool" where
  "spares (OpIssue c rid now) k e \<longleftrightarrow> rid \<noteq> Some k \<and> now \<le> e"
| "spares (OpConsume k' v r cl now) k e \<longleftrightarrow> k' \<noteq> k"

lemma code_run_keeps:
  "s k = Some c \<Longrightarrow> \<forall>x \<in> set ops. spares x k (code_ExpiresAt c) \<Longrightarrow>
     run (code_step sha) s ops k = Some c"
proof (induction ops arbitrary: s)
  case (Cons x ops)
  have "code_step sha s x k = Some c"
    using Cons.prems by (cases x) (auto simp: Issue_def Consume_def Let_def split: option.splits)
  then show ?case using Cons by simp
qed simp

lemma VerifyPKCE_iff:
  "VerifyPKCE sha ch v \<longleftrightarrow> 43 \<le> length v \<and> length v \<le> 128 \<and> ch \<noteq> [] \<and> ch = b64 (sha v)"
  by (auto simp: VerifyPKCE_def)

lemma Consume_okD:
  assumes "Consume sha s k v r cl now = (Inr c, s')"
  shows "s k = Some c \<and> now \<le> code_ExpiresAt c \<and>
         (code_RedirectURI c = [] \<or> r = code_RedirectURI c) \<and>
         (code_ClientID c = [] \<or> cl = [] \<or> cl = code_ClientID c) \<and>
         VerifyPKCE sha (code_Challenge c) v \<and> s' = s(k := None)"
  using assms by (auto simp: Consume_def split: option.splits if_splits)

section \<open>Properties\<close>

text \<open>C20. An authorization code works once. However a \<open>Consume\<close> ends, the code is spent: as long as
  the generator does not draw the same code again, every later \<open>Consume\<close> of it, with any
  verifier, redirect target and client, is \<open>ErrCodeUnknown\<close>.\<close>

theorem Consume_single_use:
  assumes "Consume sha s k v r cl now = (res, s')" and "\<forall>x \<in> set ops. \<not> issues x k"
  shows "fst (Consume sha (run (code_step sha) s' ops) k v' r' cl' now') = Inl ErrCodeUnknown"
proof -
  have "s' k = None" using assms(1) by (auto simp: Consume_def split: option.splits)
  then show ?thesis using code_run_gone assms(2) by (simp add: Consume_def)
qed

definition demo_code :: code where
  "demo_code = \<lparr>code_Code = [], code_SessionID = ''s1'', code_Label = [], code_Scopes = [],
     code_ClientID = ''client'', code_RedirectURI = ''http://localhost/cb'',
     code_Challenge = b64 (replicate 43 CHR ''v''), code_Resource = [],
     code_IssuedAt = 0, code_ExpiresAt = 0\<rparr>"

definition demo_codes :: code_store where
  "demo_codes = run (code_step id) NewCodeStore [OpIssue demo_code (Some ''k1'') 7]"

lemma Consume_single_use_witness:
  "fst (Consume id (run (code_step id) (demo_codes(''k1'' := None)) [OpIssue demo_code (Some ''k2'') 9])
     ''k1'' [] [] [] 10) = Inl ErrCodeUnknown"
proof -
  have "Consume id demo_codes ''k1'' [] [] [] 8 = (Inl ErrRedirectMismatch, demo_codes(''k1'' := None))"
    by (simp add: demo_codes_def demo_code_def NewCodeStore_def Issue_def Consume_def Let_def
        sweepLocked_def AuthCodeTTL_def minute_def)
  from Consume_single_use [OF this, of "[OpIssue demo_code (Some ''k2'') 9]"] show ?thesis by simp
qed

text \<open>A code is redeemed exactly by the client it was issued to. From its issue on, and through
  any operations that neither consume it nor sweep after its expiry, \<open>Consume\<close> succeeds if and
  only if it comes within one minute, names the same redirect target, does not name another
  client, and presents a verifier of 43 to 128 bytes whose S256 digest is the recorded challenge.\<close>

theorem Consume_iff_bindings:
  assumes "Issue s c (Some k) now = (Inr k, s')" and "\<forall>x \<in> set ops. spares x k (now + AuthCodeTTL)"
    and "s'' = run (code_step sha) s' ops"
  shows "(\<exists>c'. fst (Consume sha s'' k v r cl now') = Inr c') \<longleftrightarrow>
           now' \<le> now + AuthCodeTTL \<and>
           (code_RedirectURI c = [] \<or> r = code_RedirectURI c) \<and>
           (code_ClientID c = [] \<or> cl = [] \<or> cl = code_ClientID c) \<and>
           43 \<le> length v \<and> length v \<le> 128 \<and> code_Challenge c \<noteq> [] \<and> code_Challenge c = b64 (sha v)"
proof -
  let ?c = "c\<lparr>code_Code := k, code_IssuedAt := now, code_ExpiresAt := now + AuthCodeTTL\<rparr>"
  have "s' k = Some ?c"
    using assms(1) by (auto simp: Issue_def Let_def AuthCodeTTL_def minute_def)
  then have "s'' k = Some ?c"
    using code_run_keeps [of s' k ?c ops sha] assms(2,3) by simp
  then show ?thesis by (auto simp: Consume_def VerifyPKCE_iff)
qed

lemma Consume_iff_bindings_witness:
  "\<exists>c'. fst (Consume id (run (code_step id) demo_codes [OpIssue demo_code (Some ''k2'') 9])
     ''k1'' (replicate 43 CHR ''v'') ''http://localhost/cb'' ''client'' 20) = Inr c'"
proof -
  have "Issue NewCodeStore demo_code (Some ''k1'') 7 = (Inr ''k1'', demo_codes)"
    by (simp add: demo_codes_def Issue_def Let_def)
  then show ?thesis
    using Consume_iff_bindings [of NewCodeStore demo_code "''k1''" 7 demo_codes
        "[OpIssue demo_code (Some ''k2'') 9]" _ id "replicate 43 CHR ''v''" "''http://localhost/cb''"
        "''client''" 20]
    by (simp add: demo_code_def AuthCodeTTL_def minute_def)
qed

text \<open>Abandoned authorizations cannot pile up: right after an \<open>Issue\<close> every code in the store is
  within its minute, and codes that are within it are kept.\<close>

theorem Issue_sweeps:
  assumes "Issue s c (Some k) now = (Inr k, s')"
  shows "s' k' = Some c' \<longleftrightarrow>
           now \<le> code_ExpiresAt c' \<and>
           (if k' = k then c' = c\<lparr>code_Code := k, code_IssuedAt := now, code_ExpiresAt := now + AuthCodeTTL\<rparr>
            else s k' = Some c')"
  using assms by (auto simp: Issue_def Let_def)

lemma Issue_sweeps_witness:
  "snd (Issue demo_codes demo_code (Some ''k2'') hour) ''k1'' \<noteq> Some demo_code"
proof -
  have "Issue demo_codes demo_code (Some ''k2'') hour =
      (Inr ''k2'', snd (Issue demo_codes demo_code (Some ''k2'') hour))"
    by (simp add: Issue_def Let_def)
  from Issue_sweeps [OF this, of "''k1''" demo_code] show ?thesis
    by (simp add: demo_code_def hour_def)
qed

text \<open>The redirect rule, read off as a whole. A target is accepted exactly when it parses without a
  fragment and is https with a host, http to a loopback name, or has a scheme with a dot in it;
  so no accepted target is plain http to another machine, scheme-less, \<open>javascript:\<close>, \<open>data:\<close>,
  \<open>vbscript:\<close> or \<open>file:\<close>.\<close>

theorem ValidateRedirectURI_iff:
  "ValidateRedirectURI parse raw = None \<longleftrightarrow>
     trim_space raw \<noteq> [] \<and>
     (\<exists>u. parse raw = Some u \<and> url_Fragment u = [] \<and>
        (let scheme = to_lower (url_Scheme u) in
           scheme = ''https'' \<and> url_Host u \<noteq> [] \<or>
           scheme = ''http'' \<and> url_Hostname u \<in> {''127.0.0.1'', ''::1'', ''localhost''} \<or>
           contains scheme ''.''))"
  by (auto simp: ValidateRedirectURI_def Let_def contains_def has_prefix_def split: option.splits if_splits)

end
