(* ===== verification/Enrollment.thy ===== *)
theory Enrollment
  imports Base64
begin

text \<open>
  The enrollment secret and its lockout: \<open>internal/auth/enrollment.go\<close>. Argon2id (\<open>argon\<close>, a
  function of the password and the salt) and SHA-256 (\<open>sha\<close>) are arguments. \<open>Verify\<close> holds the
  mutex twice, once before and once after the slow hash, so it is modelled as the two sections
  \<open>verify_begin\<close> and \<open>verify_finish\<close> and their composition; the invariant covers every
  interleaving of the sections of concurrent calls. Audit logging is left out.
\<close>

section \<open>Data\<close>

definition LockoutThreshold :: int where "LockoutThreshold = 5"
definition LockoutBase :: duration where "LockoutBase = 2 * second"
definition LockoutMax :: duration where "LockoutMax = 15 * minute"
definition AttemptWindow :: duration where "AttemptWindow = hour"

lemmas lockout_consts = LockoutThreshold_def LockoutBase_def LockoutMax_def AttemptWindow_def time_units

record attempt_state =
  at_failures :: int
  at_lastFail :: time
  at_lockedThru :: time

record enrollment =
  en_salt :: string
  en_hash :: string
  en_sources :: "string \<rightharpoonup> attempt_state"

datatype enroll_error =
    EmptySecret
  | SaltFailed
  | ErrWrongSecret
  | ErrLockedOut duration

section \<open>Operations\<close>

definition NewEnrollment ::
    "(string \<Rightarrow> string \<Rightarrow> string) \<Rightarrow> string \<Rightarrow> string option \<Rightarrow> enroll_error + enrollment" where
  "NewEnrollment argon secret salt =
     (let s = trim_space secret
      in if s = [] then Inl EmptySecret
         else case salt of
           None \<Rightarrow> Inl SaltFailed
         | Some salt \<Rightarrow> Inr \<lparr>en_salt = salt, en_hash = argon s salt, en_sources = Map.empty\<rparr>)"

definition hashSource :: "(string \<Rightarrow> string) \<Rightarrow> string \<Rightarrow> string" where
  "hashSource sha source = b64 (take 8 (sha source))"

text \<open>\<open>SourceFromRequest\<close>: the peer address of the connection, as \<open>net/http\<close> records it, that is
  host and port.\<close>

definition SourceFromRequest :: "string option \<Rightarrow> string" where
  "SourceFromRequest remoteAddr =
     (case remoteAddr of None \<Rightarrow> ''unknown'' | Some a \<Rightarrow> a)"

definition zero_attempt :: attempt_state where
  "zero_attempt = \<lparr>at_failures = 0, at_lastFail = zero_time, at_lockedThru = zero_time\<rparr>"

definition attempt_of :: "enrollment \<Rightarrow> string \<Rightarrow> attempt_state" where
  "attempt_of e key = (case en_sources e key of None \<Rightarrow> zero_attempt | Some st \<Rightarrow> st)"

definition forget_stale :: "attempt_state \<Rightarrow> time \<Rightarrow> attempt_state" where
  "forget_stale st now =
     (if at_lastFail st \<noteq> zero_time \<and> AttemptWindow < now - at_lastFail st
      then st\<lparr>at_failures := 0, at_lockedThru := zero_time\<rparr> else st)"

definition verify_begin ::
    "enrollment \<Rightarrow> string \<Rightarrow> time \<Rightarrow> (enroll_error + unit) \<times> enrollment" where
  "verify_begin e key now =
     (let st = forget_stale (attempt_of e key) now;
          e' = e\<lparr>en_sources := (en_sources e)(key \<mapsto> st)\<rparr>
      in if now < at_lockedThru st then (Inl (ErrLockedOut (at_lockedThru st - now)), e')
         else (Inr (), e'))"

text \<open>\<open>LockoutBase << min(failures - LockoutThreshold, 20)\<close> in 64 bits, then the cap.\<close>

definition lockout_backoff :: "int \<Rightarrow> duration" where
  "lockout_backoff failures =
     (let backoff = wrap64 (LockoutBase * 2 ^ nat (min (failures - LockoutThreshold) 20))
      in if LockoutMax < backoff \<or> backoff \<le> 0 then LockoutMax else backoff)"

definition verify_finish ::
    "enrollment \<Rightarrow> string \<Rightarrow> time \<Rightarrow> bool \<Rightarrow> (enroll_error + unit) \<times> enrollment" where
  "verify_finish e key now ok =
     (let st = attempt_of e key
      in if ok then
           (Inr (), e\<lparr>en_sources := (en_sources e)
              (key \<mapsto> st\<lparr>at_failures := 0, at_lockedThru := zero_time\<rparr>)\<rparr>)
         else
           (let n = at_failures st + 1;
                st' = st\<lparr>at_failures := n, at_lastFail := now\<rparr>;
                st'' = (if LockoutThreshold \<le> n
                        then st'\<lparr>at_lockedThru := now + lockout_backoff n\<rparr> else st')
            in (Inl ErrWrongSecret, e\<lparr>en_sources := (en_sources e)(key \<mapsto> st'')\<rparr>)))"

definition secret_ok :: "(string \<Rightarrow> string \<Rightarrow> string) \<Rightarrow> enrollment \<Rightarrow> string \<Rightarrow> bool" where
  "secret_ok argon e presented \<longleftrightarrow> argon (trim_space presented) (en_salt e) = en_hash e"

definition EnrollVerify ::
    "(string \<Rightarrow> string \<Rightarrow> string) \<Rightarrow> (string \<Rightarrow> string) \<Rightarrow> enrollment \<Rightarrow> string \<Rightarrow> string \<Rightarrow> time \<Rightarrow>
     (enroll_error + unit) \<times> enrollment" where
  "EnrollVerify argon sha e source presented now =
     (let key = hashSource sha source
      in case verify_begin e key now of
           (Inl err, e') \<Rightarrow> (Inl err, e')
         | (Inr _, e') \<Rightarrow> verify_finish e' key now (secret_ok argon e' presented))"

lemmas enroll_defs = EnrollVerify_def verify_begin_def verify_finish_def attempt_of_def
  forget_stale_def zero_attempt_def secret_ok_def Let_def

section \<open>The backoff\<close>

lemma backoff_base: "LockoutBase * 2 ^ nat (min (n - LockoutThreshold) 20) =
    2000000000 * 2 ^ nat (min (n - 5) 20)"
  by (simp add: lockout_consts)

lemma lockout_backoff_eq:
  assumes "LockoutThreshold \<le> n"
  shows "lockout_backoff n = min (LockoutBase * 2 ^ nat (n - LockoutThreshold)) LockoutMax"
proof -
  define k where "k = nat (n - 5)"
  have min: "nat (min (n - 5) 20) = min k 20"
    using assms by (auto simp: k_def lockout_consts min_def)
  have lt: "(2::int) ^ min k 20 \<le> 2 ^ 20" by (rule power_increasing) auto
  have pos: "(0::int) < 2 ^ min k 20" by simp
  have "wrap64 (2000000000 * x) = 2000000000 * x" if "0 < x" "x \<le> 2 ^ 20" for x
    using that by (intro wrap64_id) auto
  from this [OF pos lt] have w: "wrap64 (2000000000 * 2 ^ min k 20) = 2000000000 * 2 ^ min k 20" .
  have eq: "lockout_backoff n = (if LockoutMax < 2000000000 * 2 ^ min k 20 then LockoutMax
      else 2000000000 * 2 ^ min k 20)"
    using pos unfolding lockout_backoff_def backoff_base min w by simp
  have rhs: "LockoutBase * 2 ^ nat (n - LockoutThreshold) = 2000000000 * 2 ^ k"
    by (simp add: k_def lockout_consts)
  show ?thesis
  proof (cases "k \<le> 20")
    case True
    then have "min k 20 = k" by simp
    then show ?thesis unfolding eq rhs by simp
  next
    case False
    then have "(2::int) ^ 20 \<le> 2 ^ k" by (intro power_increasing) auto
    moreover have "min k 20 = 20" using False by simp
    ultimately show ?thesis unfolding eq rhs by (simp add: lockout_consts)
  qed
qed

lemma lockout_backoff_bounds: "0 < lockout_backoff n" "lockout_backoff n \<le> LockoutMax"
  by (auto simp: lockout_backoff_def Let_def lockout_consts)

section \<open>Invariant over interleaved sections\<close>

datatype enroll_op = OpBegin string time | OpFinish string time bool

fun enroll_step :: "enrollment \<Rightarrow> enroll_op \<Rightarrow> enrollment" where
  "enroll_step e (OpBegin key now) = snd (verify_begin e key now)"
| "enroll_step e (OpFinish key now ok) = snd (verify_finish e key now ok)"

text \<open>
  A source with fewer than five failures is not locked; from the fifth on it is locked for the
  backoff of its count, counted from the failure recorded last.
\<close>

definition attempt_inv :: "attempt_state \<Rightarrow> bool" where
  "attempt_inv st \<longleftrightarrow>
     0 \<le> at_failures st \<and>
     at_lockedThru st = (if at_failures st < LockoutThreshold then zero_time
                         else at_lastFail st + lockout_backoff (at_failures st))"

definition enroll_inv :: "enrollment \<Rightarrow> bool" where
  "enroll_inv e \<longleftrightarrow> (\<forall>key. attempt_inv (attempt_of e key))"

lemma attempt_of_upd [simp]:
  "attempt_of (e\<lparr>en_sources := (en_sources e)(key \<mapsto> st)\<rparr>) key' = (if key' = key then st else attempt_of e key')"
  by (simp add: attempt_of_def)

lemma enroll_inv_upd:
  "enroll_inv e \<Longrightarrow> attempt_inv st \<Longrightarrow> enroll_inv (e\<lparr>en_sources := (en_sources e)(key \<mapsto> st)\<rparr>)"
  by (simp add: enroll_inv_def)

lemma forget_stale_inv: "attempt_inv st \<Longrightarrow> attempt_inv (forget_stale st now)"
  by (auto simp: attempt_inv_def forget_stale_def LockoutThreshold_def)

lemma enroll_step_inv: "enroll_inv e \<Longrightarrow> enroll_inv (enroll_step e x)"
proof (cases x)
  case (OpBegin key now)
  assume "enroll_inv e"
  then have "attempt_inv (forget_stale (attempt_of e key) now)"
    by (intro forget_stale_inv) (simp add: enroll_inv_def)
  with OpBegin \<open>enroll_inv e\<close> show ?thesis by (simp add: verify_begin_def Let_def enroll_inv_upd)
next
  case (OpFinish key now ok)
  assume inv: "enroll_inv e"
  then have "attempt_inv (attempt_of e key)" by (simp add: enroll_inv_def)
  with OpFinish inv show ?thesis
    by (auto simp: verify_finish_def Let_def attempt_inv_def LockoutThreshold_def intro!: enroll_inv_upd)
qed

interpretation enroll: op_system enroll_step "\<lambda>e x. True" enroll_inv
  by unfold_locales (rule enroll_step_inv)

lemma NewEnrollment_inv: "NewEnrollment argon secret salt = Inr e \<Longrightarrow> enroll_inv e"
  by (auto simp: NewEnrollment_def Let_def enroll_inv_def attempt_of_def zero_attempt_def
      attempt_inv_def LockoutThreshold_def split: option.splits if_splits)

section \<open>A guesser who waits out every lockout\<close>

definition guess_step ::
    "(string \<Rightarrow> string \<Rightarrow> string) \<Rightarrow> (string \<Rightarrow> string) \<Rightarrow> string \<Rightarrow> enrollment \<Rightarrow> time \<times> string \<Rightarrow> enrollment" where
  "guess_step argon sha source e g = snd (EnrollVerify argon sha e source (snd g) (fst g))"

fun spaced :: "int \<Rightarrow> time \<Rightarrow> time list \<Rightarrow> bool" where
  "spaced n prev [] = True"
| "spaced n prev (t # ts) =
     ((if n < LockoutThreshold then prev else prev + lockout_backoff n) \<le> t \<and>
      t \<le> prev + AttemptWindow \<and> spaced (n + 1) t ts)"

lemma EnrollVerify_wrong:
  assumes inv: "enroll_inv e" and now: "0 \<le> now" and wrong: "\<not> secret_ok argon e g"
    and st: "st = attempt_of e (hashSource sha source)"
    and fresh: "at_lastFail st = zero_time \<or> now \<le> at_lastFail st + AttemptWindow"
    and free: "LockoutThreshold \<le> at_failures st \<Longrightarrow> at_lastFail st + lockout_backoff (at_failures st) \<le> now"
    and e': "EnrollVerify argon sha e source g now = (res, e')"
  shows "res = Inl ErrWrongSecret"
    and "at_failures (attempt_of e' (hashSource sha source)) = at_failures st + 1"
    and "at_lastFail (attempt_of e' (hashSource sha source)) = now"
    and "en_salt e' = en_salt e" and "en_hash e' = en_hash e" and "enroll_inv e'"
proof -
  let ?k = "hashSource sha source"
  let ?e = "e\<lparr>en_sources := (en_sources e)(?k \<mapsto> st)\<rparr>"
  have stale: "forget_stale st now = st" using fresh by (auto simp: forget_stale_def)
  have "attempt_inv st" using inv st by (simp add: enroll_inv_def)
  then have unlocked: "\<not> now < at_lockedThru st"
    using free now by (auto simp: attempt_inv_def zero_time_def split: if_splits)
  have "verify_begin e ?k now = (Inr (), ?e)"
    using stale unlocked st by (simp add: verify_begin_def Let_def)
  then have eq: "(res, e') = verify_finish ?e ?k now False"
    using e' wrong by (simp add: EnrollVerify_def Let_def secret_ok_def)
  then show "res = Inl ErrWrongSecret"
    and "at_failures (attempt_of e' ?k) = at_failures st + 1"
    and "at_lastFail (attempt_of e' ?k) = now"
    and "en_salt e' = en_salt e" and "en_hash e' = en_hash e"
    by (auto simp: verify_finish_def Let_def)
  have "enroll_inv ?e" using enroll_step_inv [OF inv, of "OpBegin ?k now"] stale st
    by (simp add: verify_begin_def Let_def split: if_splits)
  then show "enroll_inv e'" using enroll_step_inv [of ?e "OpFinish ?k now False"] eq
    by (metis enroll_step.simps(2) snd_conv)
qed

lemma guesses_counted:
  assumes "enroll_inv e" and "\<forall>g \<in> set gs. \<not> secret_ok argon e (snd g) \<and> 0 \<le> fst g"
    and "at_failures (attempt_of e (hashSource sha source)) = n"
    and "at_lastFail (attempt_of e (hashSource sha source)) = prev"
    and "spaced n prev (map fst gs)"
  shows "let e' = run (guess_step argon sha source) e gs; st = attempt_of e' (hashSource sha source)
         in enroll_inv e' \<and> at_failures st = n + int (length gs) \<and> at_lastFail st = last (prev # map fst gs)"
  using assms
proof (induction gs arbitrary: e n prev)
  case (Cons g gs)
  obtain t w where g: "g = (t, w)" by force
  obtain res e' where e': "EnrollVerify argon sha e source w t = (res, e')" by force
  have free: "LockoutThreshold \<le> n \<Longrightarrow> prev + lockout_backoff n \<le> t"
    and now: "0 \<le> t" and wrong: "\<not> secret_ok argon e w" and fresh: "t \<le> prev + AttemptWindow"
    using Cons.prems g by auto
  have step: "at_failures (attempt_of e' (hashSource sha source)) = n + 1"
      "at_lastFail (attempt_of e' (hashSource sha source)) = t"
      "en_salt e' = en_salt e" "en_hash e' = en_hash e" "enroll_inv e'"
    using EnrollVerify_wrong [OF Cons.prems(1) now wrong refl _ _ e'] Cons.prems(3,4) free fresh
    by simp_all
  have "spaced (n + 1) t (map fst gs)" "\<forall>g \<in> set gs. \<not> secret_ok argon e' (snd g) \<and> 0 \<le> fst g"
    using Cons.prems g step by (auto simp: secret_ok_def)
  from Cons.IH [OF step(5) this(2) step(1,2) this(1)] show ?case
    using g e' by (auto simp: guess_step_def Let_def)
qed simp

lemma guesses_from_fresh:
  assumes new: "NewEnrollment argon secret salt = Inr e"
    and wrong: "\<forall>g \<in> set ((t0, g0) # gs). \<not> secret_ok argon e (snd g) \<and> 0 \<le> fst g"
    and "spaced 1 t0 (map fst gs)"
  shows "let e' = run (guess_step argon sha source) e ((t0, g0) # gs);
             st = attempt_of e' (hashSource sha source)
         in enroll_inv e' \<and> at_failures st = 1 + int (length gs) \<and> at_lastFail st = last (t0 # map fst gs)"
proof -
  let ?k = "hashSource sha source"
  obtain res e1 where e1: "EnrollVerify argon sha e source g0 t0 = (res, e1)" by force
  have none: "attempt_of e ?k = zero_attempt"
    using new by (auto simp: NewEnrollment_def Let_def attempt_of_def split: option.splits if_splits)
  have "at_failures (attempt_of e1 ?k) = 1" "at_lastFail (attempt_of e1 ?k) = t0"
      "en_salt e1 = en_salt e" "en_hash e1 = en_hash e" "enroll_inv e1"
    using EnrollVerify_wrong [OF NewEnrollment_inv [OF new] _ _ refl _ _ e1] wrong none
    by (simp_all add: zero_attempt_def LockoutThreshold_def)
  then show ?thesis
    using guesses_counted [of e1 gs argon sha source 1 t0] assms(3) wrong e1
    by (auto simp: secret_ok_def guess_step_def Let_def)
qed

lemma locked_out:
  assumes "enroll_inv e" and st: "st = attempt_of e (hashSource sha source)"
    and n: "LockoutThreshold \<le> at_failures st" and "at_lastFail st \<le> now"
    and lock: "now < at_lastFail st + lockout_backoff (at_failures st)"
  shows "fst (EnrollVerify argon sha e source presented now) =
           Inl (ErrLockedOut (at_lastFail st + lockout_backoff (at_failures st) - now))"
proof -
  have "lockout_backoff (at_failures st) \<le> AttemptWindow"
    using lockout_backoff_bounds(2) [of "at_failures st"] by (simp add: lockout_consts)
  then have "forget_stale st now = st" using lock by (simp add: forget_stale_def)
  moreover have "at_lockedThru st = at_lastFail st + lockout_backoff (at_failures st)"
    using assms(1) st n by (simp add: enroll_inv_def attempt_inv_def)
  ultimately show ?thesis
    using lock st by (simp add: EnrollVerify_def verify_begin_def Let_def)
qed

section \<open>Properties\<close>



text \<open>No lockout outlasts its cap. In every interleaving of the two sections of concurrent
  \<open>Verify\<close> calls, a source is refused only after five counted failures and for at most fifteen
  minutes from the failure recorded last; one hour after it the count is forgotten.\<close>

theorem lockout_bounded:
  assumes "NewEnrollment argon secret salt = Inr e0" and "e = run enroll_step e0 ops" and "0 \<le> now"
    and "fst (verify_begin e key now) = Inl err"
  shows "\<exists>st. en_sources e key = Some st \<and> LockoutThreshold \<le> at_failures st \<and>
           err = ErrLockedOut (at_lastFail st + lockout_backoff (at_failures st) - now) \<and>
           now < at_lastFail st + LockoutMax"
proof -
  have inv: "attempt_inv (attempt_of e key)"
    using enroll.run_inv [OF NewEnrollment_inv [OF assms(1)], of ops] assms(2)
    by (simp add: enroll_inv_def)
  obtain st where st: "st = forget_stale (attempt_of e key) now" by blast
  have lock: "now < at_lockedThru st" "err = ErrLockedOut (at_lockedThru st - now)"
    using assms(4) st by (auto simp: verify_begin_def Let_def split: if_splits)
  have "at_lockedThru st \<noteq> zero_time" using lock assms(3) by (auto simp: zero_time_def)
  with st inv have "st = attempt_of e key" "LockoutThreshold \<le> at_failures st"
      "at_lockedThru st = at_lastFail st + lockout_backoff (at_failures st)"
    by (auto simp: forget_stale_def attempt_inv_def split: if_splits)
  moreover have "en_sources e key \<noteq> None"
    using calculation by (auto simp: attempt_of_def zero_attempt_def LockoutThreshold_def split: option.splits)
  ultimately show ?thesis
    using lock lockout_backoff_bounds(2) [of "at_failures st"] by (auto simp: attempt_of_def)
qed

definition demo_enrollment :: enrollment where
  "demo_enrollment = \<lparr>en_salt = [], en_hash = ''secret'', en_sources = Map.empty\<rparr>"

lemma demo_NewEnrollment: "NewEnrollment (\<lambda>p s. p) ''secret'' (Some []) = Inr demo_enrollment"
  by (simp add: NewEnrollment_def trim_space_def trim_right_by_def is_space_def demo_enrollment_def)

definition demo_failures :: "enroll_op list" where
  "demo_failures = [OpFinish ''k'' 0 False, OpFinish ''k'' 0 False, OpFinish ''k'' 0 False,
     OpFinish ''k'' 0 False, OpFinish ''k'' 0 False]"

lemma demo_attempt:
  "attempt_of (run enroll_step demo_enrollment demo_failures) ''k'' =
     \<lparr>at_failures = 5, at_lastFail = 0, at_lockedThru = lockout_backoff 5\<rparr>"
  by (simp add: demo_failures_def demo_enrollment_def verify_finish_def Let_def attempt_of_def
      zero_attempt_def LockoutThreshold_def)

lemma lockout_bounded_witness:
  "\<exists>st. en_sources (run enroll_step demo_enrollment demo_failures) ''k'' = Some st \<and>
     LockoutThreshold \<le> at_failures st"
proof -
  have "lockout_backoff 5 = 2000000000"
    using lockout_backoff_eq [of 5] by (simp add: lockout_consts)
  then have "fst (verify_begin (run enroll_step demo_enrollment demo_failures) ''k'' 1) =
      Inl (ErrLockedOut 1999999999)"
    by (simp add: verify_begin_def demo_attempt forget_stale_def Let_def lockout_consts)
  then show ?thesis using lockout_bounded [OF demo_NewEnrollment, of _ demo_failures 1] by fastforce
qed

text \<open>The sources are the peer addresses of the connections, port included.\<close>

fun guess_results ::
    "(string \<Rightarrow> string \<Rightarrow> string) \<Rightarrow> (string \<Rightarrow> string) \<Rightarrow> enrollment \<Rightarrow> (string \<times> string \<times> time) list \<Rightarrow>
     (enroll_error + unit) list" where
  "guess_results argon sha e [] = []"
| "guess_results argon sha e ((remoteAddr, g, t) # gs) =
     (case EnrollVerify argon sha e (SourceFromRequest (Some remoteAddr)) g t of
        (res, e') \<Rightarrow> res # guess_results argon sha e' gs)"

lemma EnrollVerify_other_source:
  assumes "key \<noteq> hashSource sha source" and "EnrollVerify argon sha e source g t = (res, e')"
  shows "attempt_of e' key = attempt_of e key"
  using assms by (auto simp: EnrollVerify_def verify_begin_def verify_finish_def Let_def split: if_splits)

lemma guess_results_wrong:
  assumes "enroll_inv e" and "\<forall>(a, g, t) \<in> set gs. \<not> secret_ok argon e g \<and> 0 \<le> t"
    and "\<forall>(a, g, t) \<in> set gs. attempt_of e (hashSource sha a) = zero_attempt"
    and "distinct (map (\<lambda>(a, g, t). hashSource sha a) gs)"
  shows "guess_results argon sha e gs = replicate (length gs) (Inl ErrWrongSecret)"
  using assms
proof (induction gs arbitrary: e)
  case (Cons x gs)
  obtain a g t where x: "x = (a, g, t)" by (cases x)
  obtain res e' where e': "EnrollVerify argon sha e a g t = (res, e')" by force
  have st: "attempt_of e (hashSource sha a) = zero_attempt" and w: "\<not> secret_ok argon e g" "0 \<le> t"
    using Cons.prems x by auto
  have step: "res = Inl ErrWrongSecret" "en_salt e' = en_salt e" "en_hash e' = en_hash e" "enroll_inv e'"
    using EnrollVerify_wrong [OF Cons.prems(1) w(2,1) refl _ _ e'] st
    by (simp_all add: zero_attempt_def LockoutThreshold_def)
  have zero: "\<forall>(b, h, u) \<in> set gs. attempt_of e' (hashSource sha b) = zero_attempt"
  proof (clarify)
    fix b h u assume in_gs: "(b, h, u) \<in> set gs"
    then have "hashSource sha b \<noteq> hashSource sha a"
      using Cons.prems(4) x by (auto simp: image_iff)
    then show "attempt_of e' (hashSource sha b) = zero_attempt"
      using EnrollVerify_other_source [OF _ e'] Cons.prems(3) in_gs by auto
  qed
  have "guess_results argon sha e' gs = replicate (length gs) (Inl ErrWrongSecret)"
  proof (rule Cons.IH [OF step(4) _ zero])
    show "\<forall>(a, g, t) \<in> set gs. \<not> secret_ok argon e' g \<and> 0 \<le> t"
      using Cons.prems(2) step(2,3) by (simp add: secret_ok_def)
    show "distinct (map (\<lambda>(a, g, t). hashSource sha a) gs)" using Cons.prems(4)
      by (simp only: list.map distinct.simps)
  qed
  then show ?case using x e' step by (simp add: SourceFromRequest_def)
qed simp

text \<open>The lockout counts connections, not hosts: the key is the digest of \<open>RemoteAddr\<close>, port
  included, so a guesser who opens a new connection for each guess is never locked out. Any
  number of wrong guesses, from one host and any number of ports, all reach the secret check.\<close>

theorem lockout_misses_new_connections:
  assumes "NewEnrollment argon secret salt = Inr e"
    and "\<forall>(port, g, t) \<in> set gs. \<not> secret_ok argon e g \<and> 0 \<le> t"
    and "distinct (map (\<lambda>(port, g, t). hashSource sha (host @ '':'' @ port)) gs)"
  shows "guess_results argon sha e (map (\<lambda>(port, g, t). (host @ '':'' @ port, g, t)) gs) =
           replicate (length gs) (Inl ErrWrongSecret)"
proof -
  have zero: "attempt_of e k = zero_attempt" for k
    using assms(1) by (auto simp: NewEnrollment_def Let_def attempt_of_def split: option.splits if_splits)
  have "guess_results argon sha e (map (\<lambda>(port, g, t). (host @ '':'' @ port, g, t)) gs) =
      replicate (length (map (\<lambda>(port, g, t). (host @ '':'' @ port, g, t)) gs)) (Inl ErrWrongSecret)"
    using assms(2,3) zero
    by (intro guess_results_wrong NewEnrollment_inv [OF assms(1)]) (auto simp: comp_def case_prod_unfold)
  then show ?thesis by simp
qed

lemma lockout_misses_new_connections_witness:
  "guess_results (\<lambda>p s. p) rev demo_enrollment
     (map (\<lambda>(port, g, t). (''10.0.0.1'' @ '':'' @ port, g, t))
        [(''1'', ''a'', 0), (''2'', ''b'', 0), (''3'', ''c'', 0), (''4'', ''d'', 0), (''5'', ''e'', 0),
         (''6'', ''f'', 0)]) =
   replicate (length ''123456'') (Inl ErrWrongSecret)"
  using lockout_misses_new_connections [OF demo_NewEnrollment,
      of "[(''1'', ''a'', 0), (''2'', ''b'', 0), (''3'', ''c'', 0), (''4'', ''d'', 0), (''5'', ''e'', 0),
           (''6'', ''f'', 0)]" rev "''10.0.0.1''"]
  by (simp add: trim_space_def trim_right_by_def is_space_def secret_ok_def hashSource_def
      b64_def enc_digit_def url_alphabet_def demo_enrollment_def del: guess_results.simps)

text \<open>Concurrent calls all pass the first section before any of them counts its failure.\<close>

lemma lockout_misses_concurrent_guesses:
  assumes "fst (verify_begin e key now) = Inr ()"
  shows "fst (verify_begin (run enroll_step e (replicate n (OpBegin key now))) key now) = Inr ()"
proof -
  have idem: "verify_begin (snd (verify_begin e key now)) key now = (Inr (), snd (verify_begin e key now))"
    using assms by (auto simp: verify_begin_def Let_def forget_stale_def split: if_splits)
  have "run enroll_step (snd (verify_begin e key now)) (replicate m (OpBegin key now)) =
      snd (verify_begin e key now)" for m
    by (induction m) (simp_all add: idem)
  then show ?thesis using assms idem by (cases n) simp_all
qed

end
