(* ===== verification/Keyring.thy ===== *)
theory Keyring
  imports Base64
begin

text \<open>
  Signing keys: \<open>internal/auth/keys.go\<close>. The primitives of \<open>crypto/ed25519\<close>, SHA-256 and the
  PEM and PKCS#8 decoders are the fields of \<open>keylib\<close>; key bytes are strings. A private key is
  the 32-byte seed followed by the public key, so \<open>Seed()\<close> is its first 32 bytes.
\<close>

section \<open>Data\<close>

record keypair =
  kp_ID :: string
  kp_Public :: string
  kp_Private :: string

record keylib =
  kl_sha :: "string \<Rightarrow> string"
  kl_from_seed :: "string \<Rightarrow> string"
  kl_public :: "string \<Rightarrow> string"
  kl_pkcs8 :: "string \<Rightarrow> string option"

record keyring =
  kr_active :: keypair
  kr_previous :: "keypair list"

record jwk =
  jwk_Kty :: string
  jwk_Crv :: string
  jwk_X :: string
  jwk_Kid :: string
  jwk_Use :: string
  jwk_Alg :: string

datatype key_error = KeyEmpty | KeyBadPEM | KeyNotBase64 | KeyBadLength nat

section \<open>Naming and parsing keys\<close>

definition quoted :: "string \<Rightarrow> string" where
  "quoted s = [CHR 0x22] @ s @ [CHR 0x22]"

definition Thumbprint :: "(string \<Rightarrow> string) \<Rightarrow> string \<Rightarrow> string" where
  "Thumbprint sha pub =
     b64 (sha (''{'' @ quoted ''crv'' @ '':'' @ quoted ''Ed25519'' @ '','' @ quoted ''kty'' @ '':'' @
               quoted ''OKP'' @ '','' @ quoted ''x'' @ '':'' @ quoted (b64 pub) @ ''}''))"

definition newKeyPair :: "keylib \<Rightarrow> string \<Rightarrow> string \<Rightarrow> keypair" where
  "newKeyPair L pub priv =
     \<lparr>kp_ID = Thumbprint (kl_sha L) pub, kp_Public = pub, kp_Private = priv\<rparr>"

definition key_from_seed :: "keylib \<Rightarrow> string \<Rightarrow> keypair" where
  "key_from_seed L seed =
     (let priv = kl_from_seed L seed in newKeyPair L (kl_public L priv) priv)"

definition seed_of :: "string \<Rightarrow> string" where
  "seed_of priv = take 32 priv"

definition EncodeSeed :: "keypair \<Rightarrow> string" where
  "EncodeSeed kp = b64 (seed_of (kp_Private kp))"

definition parsePEM :: "keylib \<Rightarrow> string \<Rightarrow> key_error + keypair" where
  "parsePEM L s =
     (case kl_pkcs8 L s of
        None \<Rightarrow> Inl KeyBadPEM
      | Some priv \<Rightarrow> Inr (newKeyPair L (kl_public L priv) priv))"

definition ParseKey :: "keylib \<Rightarrow> string \<Rightarrow> key_error + keypair" where
  "ParseKey L s =
     (let trimmed = trim_space s
      in if trimmed = [] then Inl KeyEmpty
         else if contains trimmed ''-----BEGIN'' then parsePEM L trimmed
         else case decodeB64 trimmed of
           None \<Rightarrow> Inl KeyNotBase64
         | Some seed \<Rightarrow>
             if length seed = 32 then Inr (key_from_seed L seed)
             else if length seed = 64 then Inr (key_from_seed L (seed_of seed))
             else Inl (KeyBadLength (length seed)))"

section \<open>The ring\<close>

definition NewKeyring :: "keypair \<Rightarrow> keyring" where
  "NewKeyring k = \<lparr>kr_active = k, kr_previous = []\<rparr>"

definition KeyRotate :: "keyring \<Rightarrow> keypair \<Rightarrow> keyring" where
  "KeyRotate k nxt =
     (let k' = (if kp_ID (kr_active k) \<noteq> [] \<and> kp_ID (kr_active k) \<noteq> kp_ID nxt
                then k\<lparr>kr_previous := kr_previous k @ [kr_active k]\<rparr> else k)
      in k'\<lparr>kr_active := nxt\<rparr>)"

definition KeyRetire :: "keyring \<Rightarrow> string \<Rightarrow> keyring" where
  "KeyRetire k kid = k\<lparr>kr_previous := filter (\<lambda>p. kp_ID p \<noteq> kid) (kr_previous k)\<rparr>"

definition KeyVerifier :: "keyring \<Rightarrow> string \<Rightarrow> string option" where
  "KeyVerifier k kid =
     (if kid = kp_ID (kr_active k) then Some (kp_Public (kr_active k))
      else map_option kp_Public (List.find (\<lambda>p. kp_ID p = kid) (kr_previous k)))"

definition jwkFor :: "keypair \<Rightarrow> jwk" where
  "jwkFor kp = \<lparr>jwk_Kty = ''OKP'', jwk_Crv = ''Ed25519'', jwk_X = b64 (kp_Public kp), jwk_Kid = kp_ID kp,
     jwk_Use = ''sig'', jwk_Alg = ''EdDSA''\<rparr>"

definition JWKS :: "keyring \<Rightarrow> jwk list" where
  "JWKS k = jwkFor (kr_active k) # map jwkFor (kr_previous k)"

section \<open>The ring as a state machine\<close>

datatype key_op = OpKeyRotate keypair | OpKeyRetire string

fun key_step :: "keyring \<Rightarrow> key_op \<Rightarrow> keyring" where
  "key_step k (OpKeyRotate nxt) = KeyRotate k nxt"
| "key_step k (OpKeyRetire kid) = KeyRetire k kid"

definition ring_keys :: "keyring \<Rightarrow> keypair set" where
  "ring_keys k = insert (kr_active k) (set (kr_previous k))"

text \<open>
  Every key carries the thumbprint of its public half as its name, and names determine public
  keys within the ring: the second part is what a collision of the digest would break.
\<close>

definition ring_inv :: "(string \<Rightarrow> string) \<Rightarrow> keyring \<Rightarrow> bool" where
  "ring_inv sha k \<longleftrightarrow>
     (\<forall>p \<in> ring_keys k. kp_ID p = Thumbprint sha (kp_Public p) \<and> kp_ID p \<noteq> []) \<and>
     (\<forall>p \<in> ring_keys k. \<forall>q \<in> ring_keys k. kp_ID p = kp_ID q \<longrightarrow> kp_Public p = kp_Public q)"

fun key_ok :: "(string \<Rightarrow> string) \<Rightarrow> keyring \<Rightarrow> key_op \<Rightarrow> bool" where
  "key_ok sha k (OpKeyRotate nxt) \<longleftrightarrow>
     kp_ID nxt = Thumbprint sha (kp_Public nxt) \<and> kp_ID nxt \<noteq> [] \<and>
     (\<forall>p \<in> ring_keys k. kp_ID p = kp_ID nxt \<longrightarrow> kp_Public p = kp_Public nxt)"
| "key_ok sha k (OpKeyRetire kid) \<longleftrightarrow> True"

lemma ring_keys_Rotate: "ring_keys (KeyRotate k nxt) \<subseteq> insert nxt (ring_keys k)"
  by (auto simp: ring_keys_def KeyRotate_def Let_def)

lemma ring_keys_Retire: "ring_keys (KeyRetire k kid) \<subseteq> ring_keys k"
  by (auto simp: ring_keys_def KeyRetire_def)

lemma ring_inv_mono: "ring_inv sha k \<Longrightarrow> ring_keys k' \<subseteq> ring_keys k \<Longrightarrow> ring_inv sha k'"
  unfolding ring_inv_def by blast

lemma ring_invD:
  assumes "ring_inv sha k" and "p \<in> ring_keys k"
  shows ring_inv_name: "kp_ID p = Thumbprint sha (kp_Public p)"
    and ring_inv_ne: "kp_ID p \<noteq> []"
    and ring_inv_pub: "q \<in> ring_keys k \<Longrightarrow> kp_ID p = kp_ID q \<Longrightarrow> kp_Public p = kp_Public q"
  using assms unfolding ring_inv_def by blast+

lemma ring_inv_insert:
  assumes "ring_inv sha k" and "key_ok sha k (OpKeyRotate nxt)" and "ring_keys k' \<subseteq> insert nxt (ring_keys k)"
  shows "ring_inv sha k'"
  unfolding ring_inv_def
proof (intro conjI ballI impI)
  fix p assume p: "p \<in> ring_keys k'"
  then have in_k: "p = nxt \<or> p \<in> ring_keys k" using assms(3) by blast
  then show "kp_ID p = Thumbprint sha (kp_Public p)" "kp_ID p \<noteq> []"
    using ring_invD(1,2) [OF assms(1)] assms(2) by auto
  fix q assume "q \<in> ring_keys k'" and eq: "kp_ID p = kp_ID q"
  then have "q = nxt \<or> q \<in> ring_keys k" using assms(3) by blast
  moreover have "kp_Public p' = kp_Public nxt" if "p' \<in> ring_keys k" "kp_ID p' = kp_ID nxt" for p'
    using assms(2) that unfolding key_ok.simps by blast
  ultimately show "kp_Public p = kp_Public q"
    using in_k eq ring_inv_pub [OF assms(1)] by metis
qed

lemma key_step_inv: "ring_inv sha k \<Longrightarrow> key_ok sha k x \<Longrightarrow> ring_inv sha (key_step k x)"
  using ring_inv_insert [OF _ _ ring_keys_Rotate] ring_inv_mono [OF _ ring_keys_Retire]
  by (cases x) auto

interpretation ring: op_system key_step "key_ok sha" "ring_inv sha" for sha
  by unfold_locales (rule key_step_inv)

lemma find_Some_iff_ex: "List.find P xs = Some x \<Longrightarrow> x \<in> set xs \<and> P x"
  by (auto simp: find_Some_iff)

lemma KeyVerifier_iff:
  assumes "ring_inv sha k"
  shows "KeyVerifier k kid = Some pub \<longleftrightarrow> (\<exists>p \<in> ring_keys k. kp_ID p = kid \<and> kp_Public p = pub)"
proof
  assume "KeyVerifier k kid = Some pub"
  then show "\<exists>p \<in> ring_keys k. kp_ID p = kid \<and> kp_Public p = pub"
    by (auto simp: KeyVerifier_def ring_keys_def dest: find_Some_iff_ex split: if_splits)
next
  assume "\<exists>p \<in> ring_keys k. kp_ID p = kid \<and> kp_Public p = pub"
  then obtain p where p: "p \<in> ring_keys k" "kp_ID p = kid" "kp_Public p = pub" by blast
  show "KeyVerifier k kid = Some pub"
  proof (cases "kid = kp_ID (kr_active k)")
    case True
    then have "kp_Public (kr_active k) = pub"
      using p ring_inv_pub [OF assms p(1), of "kr_active k"] by (simp add: ring_keys_def)
    then show ?thesis using True by (simp add: KeyVerifier_def)
  next
    case False
    then have "p \<in> set (kr_previous k)" using p by (auto simp: ring_keys_def)
    then obtain q where q: "List.find (\<lambda>q. kp_ID q = kid) (kr_previous k) = Some q"
      using p by (cases "List.find (\<lambda>q. kp_ID q = kid) (kr_previous k)") (auto simp: find_None_iff)
    then have "q \<in> ring_keys k" "kp_ID q = kid" by (auto simp: ring_keys_def dest: find_Some_iff_ex)
    then have "kp_Public q = pub" using p ring_inv_pub [OF assms] by metis
    then show ?thesis using q False by (simp add: KeyVerifier_def)
  qed
qed

lemma key_step_keeps:
  assumes "ring_inv sha k" and "p \<in> ring_keys k" and "x \<noteq> OpKeyRetire (kp_ID p)"
    and "key_ok sha k x"
  shows "\<exists>q \<in> ring_keys (key_step k x). kp_ID q = kp_ID p \<and> kp_Public q = kp_Public p"
proof (cases x)
  case (OpKeyRetire kid)
  with assms(2,3) have "p \<in> ring_keys (KeyRetire k kid)" by (auto simp: ring_keys_def KeyRetire_def)
  then show ?thesis using OpKeyRetire by auto
next
  case (OpKeyRotate nxt)
  consider "p = kr_active k" "kp_ID p = kp_ID nxt" | "p \<in> ring_keys (KeyRotate k nxt)"
    using ring_inv_ne [OF assms(1,2)] assms(2)
    by (cases "kp_ID (kr_active k) = kp_ID nxt") (auto simp: ring_keys_def KeyRotate_def Let_def)
  then show ?thesis
  proof cases
    case 1
    then have "kp_Public nxt = kp_Public p" using assms(2,4) OpKeyRotate by auto
    moreover have "nxt \<in> ring_keys (KeyRotate k nxt)" by (simp add: ring_keys_def KeyRotate_def Let_def)
    ultimately show ?thesis using 1 OpKeyRotate by force
  qed (use OpKeyRotate in auto)
qed

lemma ring_run_keeps:
  assumes "ring_inv sha k" and "KeyVerifier k kid = Some pub" and "OpKeyRetire kid \<notin> set ops"
    and "run_ok key_step (key_ok sha) k ops"
  shows "KeyVerifier (run key_step k ops) kid = Some pub"
  using assms
proof (induction ops arbitrary: k)
  case (Cons x ops)
  have inv: "ring_inv sha (key_step k x)" using Cons.prems by (simp add: key_step_inv)
  obtain p where p: "p \<in> ring_keys k" "kp_ID p = kid" "kp_Public p = pub"
    using Cons.prems KeyVerifier_iff by blast
  have "KeyVerifier (key_step k x) kid = Some pub"
    using key_step_keeps [OF Cons.prems(1) p(1)] Cons.prems p KeyVerifier_iff [OF inv] by auto
  then show ?case using Cons inv by simp
qed simp

lemma NewKeyring_inv:
  "kp_ID k = Thumbprint sha (kp_Public k) \<Longrightarrow> kp_ID k \<noteq> [] \<Longrightarrow> ring_inv sha (NewKeyring k)"
  by (simp add: ring_inv_def ring_keys_def NewKeyring_def)

section \<open>Properties\<close>

definition demo_keylib :: keylib where
  "demo_keylib = \<lparr>kl_sha = id, kl_from_seed = (\<lambda>s. s @ s), kl_public = drop 32, kl_pkcs8 = (\<lambda>s. None)\<rparr>"

definition demo_key1 :: keypair where "demo_key1 = newKeyPair demo_keylib ''pub1'' ''priv1''"
definition demo_key2 :: keypair where "demo_key2 = newKeyPair demo_keylib ''pub2'' ''priv2''"

lemma demo_keys:
  "kp_Public demo_key1 = ''pub1''" "kp_Public demo_key2 = ''pub2''"
  "kp_ID demo_key1 = Thumbprint id ''pub1''" "kp_ID demo_key2 = Thumbprint id ''pub2''"
  "Thumbprint id ''pub1'' \<noteq> []" "Thumbprint id ''pub2'' \<noteq> []"
  "Thumbprint id ''pub1'' \<noteq> Thumbprint id ''pub2''"
  by (simp_all add: demo_key1_def demo_key2_def newKeyPair_def demo_keylib_def Thumbprint_def)
    (simp add: quoted_def b64_def enc_digit_def url_alphabet_def)

text \<open>Publish, then retire. A key that verifies keeps verifying, with the same public key, through
  any sequence of rotations and retirements that does not retire it by name, including rotations
  back to it; the names are thumbprints and no two keys of the ring collide.\<close>

theorem key_verifies_until_retired:
  assumes "kp_ID k0 = Thumbprint sha (kp_Public k0)" and "kp_ID k0 \<noteq> []"
    and "run_ok key_step (key_ok sha) (NewKeyring k0) (before @ after)"
    and "KeyVerifier (run key_step (NewKeyring k0) before) kid = Some pub"
    and "OpKeyRetire kid \<notin> set after"
  shows "KeyVerifier (run key_step (NewKeyring k0) (before @ after)) kid = Some pub"
  using ring_run_keeps [OF ring.run_inv [OF NewKeyring_inv [OF assms(1,2)]] assms(4,5)] assms(3) by simp

theorem key_verifies_until_retired_witness:
  "KeyVerifier (run key_step (NewKeyring demo_key1) ([] @ [OpKeyRotate demo_key2, OpKeyRetire (kp_ID demo_key2)]))
     (kp_ID demo_key1) = Some ''pub1''"
  by (rule key_verifies_until_retired [of _ id])
    (auto simp: demo_keys ring_keys_def NewKeyring_def KeyVerifier_def)

text \<open>The published key set and the verifier agree: \<open>jwks.json\<close> lists a kid with a public key
  exactly when a token signed under that kid would be checked with that key, in every reachable
  ring.\<close>

theorem JWKS_is_verification_set:
  assumes "kp_ID k0 = Thumbprint sha (kp_Public k0)" and "kp_ID k0 \<noteq> []"
    and "run_ok key_step (key_ok sha) (NewKeyring k0) ops" and "k = run key_step (NewKeyring k0) ops"
  shows "(\<lambda>j. (jwk_Kid j, jwk_X j)) ` set (JWKS k) = {(kid, b64 pub) | kid pub. KeyVerifier k kid = Some pub}"
proof -
  have inv: "ring_inv sha k" using ring.run_inv [OF NewKeyring_inv [OF assms(1,2)] assms(3)] assms(4) by simp
  have "(\<lambda>j. (jwk_Kid j, jwk_X j)) ` set (JWKS k) = (\<lambda>p. (kp_ID p, b64 (kp_Public p))) ` ring_keys k"
    by (simp add: JWKS_def ring_keys_def jwkFor_def image_image)
  also have "\<dots> = {(kid, b64 pub) | kid pub. KeyVerifier k kid = Some pub}"
    unfolding KeyVerifier_iff [OF inv] by auto
  finally show ?thesis .
qed

theorem JWKS_is_verification_set_witness:
  "(\<lambda>j. (jwk_Kid j, jwk_X j)) ` set (JWKS (NewKeyring demo_key1)) =
     {(kid, b64 pub) | kid pub. KeyVerifier (NewKeyring demo_key1) kid = Some pub}"
  by (rule JWKS_is_verification_set [of _ id "[]"]) (simp_all add: demo_keys)

text \<open>Keys survive the operator's hands. The seed that \<open>EncodeSeed\<close> prints parses back to the same
  key, and so does the full 64-byte private key, both under the same kid. The one exception the
  code has is an encoding that happens to contain the PEM marker.\<close>

theorem ParseKey_round_trip:
  assumes "length seed = 32" and "take 32 (kl_from_seed L seed) = seed"
    and "length (kl_from_seed L seed) = 64"
    and "\<not> contains (b64 seed) ''-----BEGIN''" and "\<not> contains (b64 (kl_from_seed L seed)) ''-----BEGIN''"
  defines "kp \<equiv> key_from_seed L seed"
  shows "ParseKey L (EncodeSeed kp) = Inr kp \<and> ParseKey L (b64 (kp_Private kp)) = Inr kp"
proof -
  have "kp_Private kp = kl_from_seed L seed"
    by (simp add: kp_def key_from_seed_def newKeyPair_def Let_def)
  moreover have "seed \<noteq> []" "kl_from_seed L seed \<noteq> []" using assms(1,3) by auto
  ultimately show ?thesis
    using assms by (simp add: ParseKey_def EncodeSeed_def seed_of_def trim_space_b64 decodeB64_b64)
qed

lemma demo_b64_A:
  "b64 (replicate 32 (CHR 0x00)) = replicate 43 CHR ''A''"
  "b64 (replicate 64 (CHR 0x00)) = replicate 86 CHR ''A''"
  by code_simp+

lemma no_marker_in_As: "\<not> contains (replicate n CHR ''A'') ''-----BEGIN''"
proof -
  have "index_of (replicate n CHR ''A'') ''-----BEGIN'' = None"
    by (induction n) (simp_all add: has_prefix_def)
  then show ?thesis by (simp add: contains_def)
qed

theorem ParseKey_round_trip_witness:
  "ParseKey demo_keylib (EncodeSeed (key_from_seed demo_keylib (replicate 32 (CHR 0x00)))) =
     Inr (key_from_seed demo_keylib (replicate 32 (CHR 0x00)))"
proof -
  have twice: "replicate 32 (CHR 0x00) @ replicate 32 (CHR 0x00) = replicate 64 (CHR 0x00)"
    by (simp flip: replicate_add)
  show ?thesis
    using ParseKey_round_trip [of "replicate 32 (CHR 0x00)" demo_keylib]
    by (simp add: demo_keylib_def twice demo_b64_A no_marker_in_As)
qed

end
