(* ===== verification/Denylist.thy ===== *)
theory Denylist
  imports Go_Prelude
begin

text \<open>
  The revocation denylist: \<open>internal/auth/denylist.go\<close>. \<open>Denied\<close> takes two locked sections, a
  read and, for an entry it found expired, a delete; they are \<open>denied_read\<close> and
  \<open>denied_delete\<close>, and \<open>Denied\<close> runs one after the other. The properties characterise what a
  sequence of calls answers by the \<open>Add\<close> calls alone; the last one shows what happens when an
  \<open>Add\<close> falls between the two sections.
\<close>

section \<open>Data and operations\<close>

definition AccessTokenTTL :: duration where
  "AccessTokenTTL = 10 * minute"

lemma AccessTokenTTL_pos: "0 < AccessTokenTTL"
  by (simp add: AccessTokenTTL_def minute_def)

record denylist =
  dl_ttl :: duration
  dl_revoked :: "string \<rightharpoonup> time"

definition NewDenylist :: denylist where
  "NewDenylist = \<lparr>dl_ttl = AccessTokenTTL, dl_revoked = Map.empty\<rparr>"

definition DenyAdd :: "denylist \<Rightarrow> string \<Rightarrow> time \<Rightarrow> denylist" where
  "DenyAdd d sid now =
     (if sid = [] then d
      else d\<lparr>dl_revoked := (dl_revoked d)(sid \<mapsto> now + dl_ttl d)\<rparr>)"

text \<open>The read section: the entry found, compared with the clock; \<open>Expired\<close> asks for the delete.\<close>

datatype deny_read = NotListed | Listed | Expired

definition denied_read :: "denylist \<Rightarrow> string \<Rightarrow> time \<Rightarrow> deny_read" where
  "denied_read d sid now =
     (if sid = [] then NotListed
      else case dl_revoked d sid of
        None \<Rightarrow> NotListed
      | Some until \<Rightarrow> if until < now then Expired else Listed)"

definition denied_delete :: "denylist \<Rightarrow> string \<Rightarrow> denylist" where
  "denied_delete d sid = d\<lparr>dl_revoked := (dl_revoked d)(sid := None)\<rparr>"

definition Denied :: "denylist \<Rightarrow> string \<Rightarrow> time \<Rightarrow> bool \<times> denylist" where
  "Denied d sid now =
     (case denied_read d sid now of
        NotListed \<Rightarrow> (False, d)
      | Listed \<Rightarrow> (True, d)
      | Expired \<Rightarrow> (False, denied_delete d sid))"

lemmas deny_defs = DenyAdd_def Denied_def denied_read_def denied_delete_def

section \<open>Runs with a clock that does not go back\<close>

datatype deny_op = OpAdd string time | OpDenied string time

fun deny_time :: "deny_op \<Rightarrow> time" where
  "deny_time (OpAdd sid t) = t"
| "deny_time (OpDenied sid t) = t"

type_synonym deny_state = "denylist \<times> time"

fun deny_step :: "deny_state \<Rightarrow> deny_op \<Rightarrow> deny_state" where
  "deny_step (d, lst) (OpAdd sid t) = (DenyAdd d sid t, t)"
| "deny_step (d, lst) (OpDenied sid t) = (snd (Denied d sid t), t)"

definition clock_ok :: "deny_state \<Rightarrow> deny_op \<Rightarrow> bool" where
  "clock_ok s x \<longleftrightarrow> snd s \<le> deny_time x"

text \<open>No entry reaches further than one lifetime past the latest clock reading.\<close>

fun deny_inv :: "deny_state \<Rightarrow> bool" where
  "deny_inv (d, lst) \<longleftrightarrow>
     dl_ttl d = AccessTokenTTL \<and> (\<forall>sid u. dl_revoked d sid = Some u \<longrightarrow> u \<le> lst + AccessTokenTTL)"

lemma deny_step_inv: "deny_inv s \<Longrightarrow> clock_ok s x \<Longrightarrow> deny_inv (deny_step s x)"
  by (cases s; cases x) (fastforce simp: deny_defs clock_ok_def split: deny_read.splits)+

interpretation deny: op_system deny_step clock_ok deny_inv
  by unfold_locales (rule deny_step_inv)

abbreviation deny_run :: "deny_state \<Rightarrow> deny_op list \<Rightarrow> deny_state" where
  "deny_run \<equiv> run deny_step"

abbreviation deny_clock :: "deny_state \<Rightarrow> deny_op list \<Rightarrow> bool" where
  "deny_clock \<equiv> run_ok deny_step clock_ok"

definition covers :: "deny_state \<Rightarrow> string \<Rightarrow> time \<Rightarrow> bool" where
  "covers s sid t \<longleftrightarrow> t < snd s \<or> (\<exists>u. dl_revoked (fst s) sid = Some u \<and> t \<le> u)"

lemma covers_step:
  assumes "deny_inv s" and "clock_ok s x" and "covers s sid t" and "t \<le> snd s + AccessTokenTTL"
  shows "covers (deny_step s x) sid t"
  using assms by (cases s; cases x)
    (auto simp: covers_def deny_defs clock_ok_def split: deny_read.splits option.splits)

lemma deny_step_clock: "clock_ok s x \<Longrightarrow> snd s \<le> snd (deny_step s x)"
  by (cases s; cases x) (auto simp: clock_ok_def)

lemma covers_run:
  assumes "deny_inv s" and "deny_clock s ops" and "covers s sid t" and "t \<le> snd s + AccessTokenTTL"
  shows "covers (deny_run s ops) sid t"
proof -
  have "covers (deny_run s ops) sid t \<and> t \<le> snd (deny_run s ops) + AccessTokenTTL"
  proof (rule deny.run_stable [where P = "\<lambda>s. covers s sid t \<and> t \<le> snd s + AccessTokenTTL"])
    fix s x assume "deny_inv s" "clock_ok s x" "covers s sid t \<and> t \<le> snd s + AccessTokenTTL"
    then show "covers (deny_step s x) sid t \<and> t \<le> snd (deny_step s x) + AccessTokenTTL"
      using covers_step deny_step_clock by fastforce
  qed (use assms in auto)
  then show ?thesis by simp
qed

lemma run_entry_has_add:
  assumes "deny_inv s" and "deny_clock s ops" and "dl_revoked (fst (deny_run s ops)) sid = Some u"
    and "dl_revoked (fst s) = Map.empty"
  shows "sid \<noteq> [] \<and> (\<exists>t. OpAdd sid t \<in> set ops \<and> u = t + AccessTokenTTL)"
  using assms(2,3)
proof (induction ops arbitrary: u rule: rev_induct)
  case (snoc x ops)
  obtain d lst where s: "deny_run s ops = (d, lst)" by force
  have inv: "deny_inv (d, lst)" using deny.run_inv [OF assms(1), of ops] snoc.prems s by simp
  then show ?case
    using snoc.IH snoc.prems s
    by (cases x) (auto simp: deny_defs split: if_splits deny_read.splits option.splits)
qed (use assms(4) in auto)

lemma run_add_covers:
  assumes "deny_inv s" and "deny_clock s ops" and "OpAdd sid t \<in> set ops" and "sid \<noteq> []"
  shows "covers (deny_run s ops) sid (t + AccessTokenTTL)"
proof -
  obtain xs ys where ops: "ops = xs @ OpAdd sid t # ys" using assms(3) by (meson split_list)
  obtain d lst where s: "deny_run s xs = (d, lst)" by force
  have inv: "deny_inv (d, lst)" using deny.run_inv [OF assms(1), of xs] assms(2) ops s by simp
  have "covers (deny_step (d, lst) (OpAdd sid t)) sid (t + AccessTokenTTL)"
    using inv assms(4) by (simp add: covers_def DenyAdd_def)
  moreover have "deny_inv (deny_step (d, lst) (OpAdd sid t))"
    using assms(2) ops s by (intro deny_step_inv [OF inv]) simp
  ultimately show ?thesis
    using covers_run assms(2) ops s by simp
qed

lemma Denied_history:
  assumes "deny_clock (NewDenylist, t0) ops" and "deny_run (NewDenylist, t0) ops = (d, lst)"
    and "lst \<le> now"
  shows "fst (Denied d sid now) \<longleftrightarrow>
           sid \<noteq> [] \<and> (\<exists>t. OpAdd sid t \<in> set ops \<and> now \<le> t + AccessTokenTTL)"
proof -
  have inv: "deny_inv (NewDenylist, t0)" by (simp add: NewDenylist_def)
  have eq: "fst (Denied d sid now) \<longleftrightarrow> sid \<noteq> [] \<and> (\<exists>u. dl_revoked d sid = Some u \<and> now \<le> u)"
    by (auto simp: deny_defs split: option.splits)
  have "\<exists>t. OpAdd sid t \<in> set ops \<and> u = t + AccessTokenTTL" if "dl_revoked d sid = Some u" for u
    using run_entry_has_add [OF inv assms(1)] that assms(2) by (auto simp: NewDenylist_def)
  moreover have "t + AccessTokenTTL < lst \<or> (\<exists>u. dl_revoked d sid = Some u \<and> t + AccessTokenTTL \<le> u)"
    if "OpAdd sid t \<in> set ops" "sid \<noteq> []" for t
    using run_add_covers [OF inv assms(1) that] assms(2) by (simp add: covers_def)
  ultimately show ?thesis unfolding eq using assms(3) by force
qed

section \<open>Properties\<close>

text \<open>C19. The denylist answers by its history alone. After any sequence of calls with a clock that
  does not go back, \<open>Denied\<close> says yes exactly when the session was added and the latest addition
  lies at most one access-token lifetime back; expiry and lazy deletion never change an answer.\<close>

theorem Denied_by_history:
  assumes "deny_clock (NewDenylist, t0) ops" and "deny_run (NewDenylist, t0) ops = (d, lst)"
    and "lst \<le> now"
  shows "fst (Denied d sid now) \<longleftrightarrow>
           sid \<noteq> [] \<and> (\<exists>t. OpAdd sid t \<in> set ops \<and> now \<le> t + AccessTokenTTL)"
  using assms by (rule Denied_history)

theorem Denied_by_history_witness:
  "fst (Denied (fst (deny_run (NewDenylist, 0) [OpAdd ''s1'' 5, OpDenied ''s1'' 7])) ''s1'' (9 * minute))"
  using Denied_by_history [of 0 "[OpAdd ''s1'' 5, OpDenied ''s1'' 7]" _ _ "9 * minute" "''s1''"]
  by (simp add: clock_ok_def deny_defs NewDenylist_def AccessTokenTTL_def minute_def)

text \<open>The two sections of \<open>Denied\<close> are not atomic together. A reader that found an expired entry
  deletes whatever entry is there when it gets the write lock: if the session is added again in
  between, the new entry is lost, and the session is not denied although it was just added.\<close>

theorem Denied_delete_can_lose_add:
  assumes "denied_read d sid now = Expired" and "now \<le> t"
  shows "\<not> fst (Denied (denied_delete (DenyAdd d sid t) sid) sid t) \<and>
         fst (Denied (DenyAdd (denied_delete d sid) sid t) sid t) = (0 \<le> dl_ttl d)"
  using assms by (auto simp: deny_defs split: if_splits option.splits)

theorem Denied_delete_can_lose_add_witness:
  "\<not> fst (Denied (denied_delete (DenyAdd (DenyAdd NewDenylist ''s1'' 0) ''s1'' hour) ''s1'') ''s1'' hour)"
  using Denied_delete_can_lose_add [of "DenyAdd NewDenylist ''s1'' 0" "''s1''" hour hour]
  by (simp add: deny_defs NewDenylist_def AccessTokenTTL_def minute_def hour_def)

end
