(* ===== verification/Access_Token.thy ===== *)
theory Access_Token
  imports Keyring Denylist
begin

text \<open>
  Access tokens and their checks: \<open>internal/auth/token.go\<close>, \<open>verifier.go\<close> and \<open>scopegate.go\<close>.
  Ed25519 signing and verification and the JSON codec are the fields of \<open>jose\<close>; base64url and
  the splitting at dots are concrete. \<open>Mint\<close> and \<open>IssuerVerify\<close> are the issuer, \<open>TokenVerifier\<close>
  the callback on the hot path with its denylist lookup, \<open>ScopeGate\<close> the HTTP middleware.
\<close>

section \<open>Data\<close>

record jwt_header =
  jh_Alg :: string
  jh_Typ :: string
  jh_Kid :: string

record claims =
  cl_Issuer :: string
  cl_Subject :: string
  cl_Audience :: string
  cl_SID :: string
  cl_Scope :: string
  cl_Expires :: int
  cl_IssuedAt :: int
  cl_JTI :: string
  cl_Label :: string

record jose =
  jo_sign :: "string \<Rightarrow> string \<Rightarrow> string"
  jo_verify :: "string \<Rightarrow> string \<Rightarrow> string \<Rightarrow> bool"
  jo_header :: "jwt_header \<Rightarrow> string"
  jo_parse_header :: "string \<Rightarrow> jwt_header option"
  jo_claims :: "claims \<Rightarrow> string"
  jo_parse_claims :: "string \<Rightarrow> claims option"

datatype token_error =
    TokenRandomFailed
  | MalformedSegments nat
  | MalformedHeader
  | BadAlgorithm string
  | BadTyp string
  | ErrNoSuchKey string
  | MalformedSignature
  | ErrBadSignature
  | MalformedPayload
  | ErrWrongAudience string
  | ErrWrongIssuer string
  | NoExpClaim
  | ErrExpiredToken int
  | NoSidClaim
  | SessionIsRevoked string

record issuer =
  is_keys :: keyring
  is_issuer :: string
  is_audience :: string

section \<open>Minting\<close>

definition ClaimsScopes :: "claims \<Rightarrow> string list" where
  "ClaimsScopes c = str_fields (cl_Scope c)"

definition ClaimsExpiresAt :: "claims \<Rightarrow> time" where
  "ClaimsExpiresAt c = of_unix (cl_Expires c)"

definition randomID :: "string option \<Rightarrow> string option" where
  "randomID bytes = map_option b64 bytes"

definition token_sign :: "jose \<Rightarrow> keypair \<Rightarrow> claims \<Rightarrow> string" where
  "token_sign J kp c =
     (let h = jo_header J \<lparr>jh_Alg = ''EdDSA'', jh_Typ = ''JWT'', jh_Kid = kp_ID kp\<rparr>;
          p = jo_claims J c;
          signing = b64 h @ ''.'' @ b64 p;
          sig = jo_sign J (kp_Private kp) signing
      in signing @ ''.'' @ b64 sig)"

definition mint_claims :: "issuer \<Rightarrow> string \<Rightarrow> string \<Rightarrow> string list \<Rightarrow> time \<Rightarrow> string \<Rightarrow> claims" where
  "mint_claims i sid label scopes now jti =
     \<lparr>cl_Issuer = is_issuer i, cl_Subject = sid, cl_Audience = is_audience i, cl_SID = sid,
      cl_Scope = join scopes '' '', cl_Expires = unix_of (now + AccessTokenTTL),
      cl_IssuedAt = unix_of now, cl_JTI = jti, cl_Label = label\<rparr>"

definition Mint ::
    "jose \<Rightarrow> issuer \<Rightarrow> string \<Rightarrow> string \<Rightarrow> string list \<Rightarrow> time \<Rightarrow> string option \<Rightarrow>
     token_error + string \<times> claims" where
  "Mint J i sid label scopes now rnd =
     (case randomID rnd of
        None \<Rightarrow> Inl TokenRandomFailed
      | Some jti \<Rightarrow>
          (let c = mint_claims i sid label scopes now jti
           in Inr (token_sign J (kr_active (is_keys i)) c, c)))"

section \<open>Verification\<close>

definition check_claims :: "issuer \<Rightarrow> claims \<Rightarrow> time \<Rightarrow> token_error + claims" where
  "check_claims i c now =
     (if cl_Audience c \<noteq> is_audience i then Inl (ErrWrongAudience (cl_Audience c))
      else if cl_Issuer c \<noteq> is_issuer i then Inl (ErrWrongIssuer (cl_Issuer c))
      else if cl_Expires c = 0 then Inl NoExpClaim
      else if ClaimsExpiresAt c < now then Inl (ErrExpiredToken (ClaimsExpiresAt c))
      else if cl_SID c = [] then Inl NoSidClaim
      else Inr c)"

definition check_signed ::
    "jose \<Rightarrow> issuer \<Rightarrow> string \<Rightarrow> string \<Rightarrow> string \<Rightarrow> string \<Rightarrow> time \<Rightarrow> token_error + claims" where
  "check_signed J i pub seg0 seg1 seg2 now =
     (case unb64 seg2 of
        None \<Rightarrow> Inl MalformedSignature
      | Some sig \<Rightarrow>
          if \<not> jo_verify J pub (seg0 @ ''.'' @ seg1) sig then Inl ErrBadSignature
          else
            (case unb64 seg1 of
               None \<Rightarrow> Inl MalformedPayload
             | Some raw \<Rightarrow>
                 (case jo_parse_claims J raw of
                    None \<Rightarrow> Inl MalformedPayload
                  | Some c \<Rightarrow> check_claims i c now)))"

definition IssuerVerify :: "jose \<Rightarrow> issuer \<Rightarrow> string \<Rightarrow> time \<Rightarrow> token_error + claims" where
  "IssuerVerify J i token now =
     (case split_at (CHR ''.'') token of
        [seg0, seg1, seg2] \<Rightarrow>
          (case unb64 seg0 of
             None \<Rightarrow> Inl MalformedHeader
           | Some raw \<Rightarrow>
               (case jo_parse_header J raw of
                  None \<Rightarrow> Inl MalformedHeader
                | Some h \<Rightarrow>
                    if jh_Alg h \<noteq> ''EdDSA'' then Inl (BadAlgorithm (jh_Alg h))
                    else if jh_Typ h \<noteq> [] \<and> jh_Typ h \<noteq> ''JWT'' then Inl (BadTyp (jh_Typ h))
                    else
                      (case KeyVerifier (is_keys i) (jh_Kid h) of
                         None \<Rightarrow> Inl (ErrNoSuchKey (jh_Kid h))
                       | Some pub \<Rightarrow> check_signed J i pub seg0 seg1 seg2 now)))
      | parts \<Rightarrow> Inl (MalformedSegments (length parts)))"

section \<open>The resource-server callback\<close>

record token_info =
  ti_Scopes :: "string list"
  ti_Expiration :: time
  ti_UserID :: string
  ti_label :: string
  ti_jti :: string

definition info_of :: "claims \<Rightarrow> token_info" where
  "info_of c = \<lparr>ti_Scopes = ClaimsScopes c, ti_Expiration = ClaimsExpiresAt c, ti_UserID = cl_SID c,
     ti_label = cl_Label c, ti_jti = cl_JTI c\<rparr>"

definition TokenVerifier ::
    "jose \<Rightarrow> issuer \<Rightarrow> denylist option \<Rightarrow> string \<Rightarrow> time \<Rightarrow>
     (token_error + token_info) \<times> denylist option" where
  "TokenVerifier J i deny token now =
     (case IssuerVerify J i token now of
        Inl e \<Rightarrow> (Inl e, deny)
      | Inr c \<Rightarrow>
          (case deny of
             None \<Rightarrow> (Inr (info_of c), None)
           | Some d \<Rightarrow>
               (case Denied d (cl_SID c) now of
                  (True, d') \<Rightarrow> (Inl (SessionIsRevoked (cl_SID c)), Some d')
                | (False, d') \<Rightarrow> (Inr (info_of c), Some d'))))"

section \<open>Scopes\<close>

definition ScopeRead :: string where "ScopeRead = ''whois:read''"
definition ScopeRaw :: string where "ScopeRaw = ''whois:raw''"
definition ScopeAdmin :: string where "ScopeAdmin = ''whois:admin''"

definition AllScopes :: "string list" where
  "AllScopes = [ScopeRead, ScopeRaw, ScopeAdmin]"

definition MinimumScopes :: "string list" where
  "MinimumScopes = [ScopeRead]"

definition HasScope :: "token_info option \<Rightarrow> string \<Rightarrow> bool" where
  "HasScope info want =
     (case info of None \<Rightarrow> False | Some i \<Rightarrow> list_ex (\<lambda>s. s = want) (ti_Scopes i))"

definition RequireScope :: "token_info option \<Rightarrow> string \<Rightarrow> string + unit" where
  "RequireScope info want = (if HasScope info want then Inr () else Inl want)"

definition SessionID :: "token_info option \<Rightarrow> string" where
  "SessionID info = (case info of None \<Rightarrow> [] | Some i \<Rightarrow> ti_UserID i)"

section \<open>The scope gate\<close>

definition maxGateBody :: nat where "maxGateBody = 1048576"

text \<open>\<open>json\<close> stands for \<open>json.Unmarshal\<close> into the method and the tool name of a call.\<close>

definition toolNameFromBody :: "(string \<Rightarrow> (string \<times> string) option) \<Rightarrow> string \<Rightarrow> string" where
  "toolNameFromBody json body =
     (let trimmed = trim_left body ([CHR 0x20, CHR 0x09, CHR 0x0D, CHR 0x0A])
      in if trimmed = [] \<or> hd trimmed \<noteq> CHR 0x7B then []
         else case json trimmed of
           None \<Rightarrow> []
         | Some (meth, name) \<Rightarrow> if meth \<noteq> ''tools/call'' then [] else trim_space name)"

datatype gate_result =
    GateNext string
  | GateUnreadable
  | GateForbidden string string

text \<open>The body is what arrives on the connection, \<open>None\<close> when reading it fails.\<close>

definition ScopeGate ::
    "(string \<Rightarrow> (string \<times> string) option) \<Rightarrow> (string \<times> string) list \<Rightarrow> string \<Rightarrow> string option \<Rightarrow>
     token_info option \<Rightarrow> gate_result" where
  "ScopeGate json scopes meth body info =
     (if meth \<noteq> ''POST'' \<or> scopes = [] then GateNext (case body of None \<Rightarrow> [] | Some b \<Rightarrow> b)
      else case body of
        None \<Rightarrow> GateUnreadable
      | Some b \<Rightarrow>
          (let b' = take maxGateBody b;
               name = toolNameFromBody json b'
           in if name = [] then GateNext b'
              else case map_of scopes name of
                None \<Rightarrow> GateNext b'
              | Some required \<Rightarrow>
                  if HasScope info required then GateNext b'
                  else GateForbidden name required))"

section \<open>Tokens as strings\<close>

lemma split_at_no: "x \<notin> set a \<Longrightarrow> split_at x a = [a]"
  by (induction a) auto

lemma split_at_append: "x \<notin> set a \<Longrightarrow> split_at x (a @ x # r) = a # split_at x r"
  by (induction a) auto

lemma split_token: "split_at (CHR ''.'') (b64 h @ ''.'' @ b64 p @ ''.'' @ b64 s) = [b64 h, b64 p, b64 s]"
  by (simp add: split_at_append split_at_no b64_no_dot)

text \<open>
  What the issuer relies on from the crypto and JSON packages: a signature verifies under the
  matching public key, and encoding then decoding returns the value (for the two values at hand).
\<close>

definition jose_ok :: "jose \<Rightarrow> keypair \<Rightarrow> claims \<Rightarrow> bool" where
  "jose_ok J kp c \<longleftrightarrow>
     (\<forall>m. jo_verify J (kp_Public kp) m (jo_sign J (kp_Private kp) m)) \<and>
     (let h = \<lparr>jh_Alg = ''EdDSA'', jh_Typ = ''JWT'', jh_Kid = kp_ID kp\<rparr>
      in jo_parse_header J (jo_header J h) = Some h) \<and>
     jo_parse_claims J (jo_claims J c) = Some c"

lemma IssuerVerify_token_sign:
  assumes "jose_ok J kp c" and "KeyVerifier (is_keys i) (kp_ID kp) = Some (kp_Public kp)"
  shows "IssuerVerify J i (token_sign J kp c) now = check_claims i c now"
  using assms split_token
  by (simp add: IssuerVerify_def token_sign_def Let_def check_signed_def jose_ok_def)

lemma expiry_within: "AccessTokenTTL - second < of_unix (unix_of (t + AccessTokenTTL)) - t"
    "of_unix (unix_of (t + AccessTokenTTL)) \<le> t + AccessTokenTTL"
  using of_unix_unix_of_gt [of "t + AccessTokenTTL"] of_unix_unix_of_le [of "t + AccessTokenTTL"] by auto

lemma MintD:
  assumes "Mint J i sid label scopes now rnd = Inr (tok, c)"
  shows "tok = token_sign J (kr_active (is_keys i)) c"
    and "cl_SID c = sid" and "cl_Audience c = is_audience i" and "cl_Issuer c = is_issuer i"
    and "cl_Expires c = unix_of (now + AccessTokenTTL)" and "cl_Label c = label"
    and "cl_Scope c = join scopes '' ''"
  using assms by (auto simp: Mint_def mint_claims_def Let_def split: option.splits)

lemma Mint_verifies:
  assumes mint: "Mint J i sid label scopes now rnd = Inr (tok, c)"
    and "jose_ok J (kr_active (is_keys i)) c"
    and "KeyVerifier (is_keys i') (kp_ID (kr_active (is_keys i))) = Some (kp_Public (kr_active (is_keys i)))"
    and "is_issuer i' = is_issuer i" and "is_audience i' = is_audience i"
    and "sid \<noteq> []" and "0 \<le> now"
  shows "IssuerVerify J i' tok t =
     (if of_unix (unix_of (now + AccessTokenTTL)) < t
      then Inl (ErrExpiredToken (of_unix (unix_of (now + AccessTokenTTL)))) else Inr c)"
proof -
  have "unix_of (now + AccessTokenTTL) \<noteq> 0"
    using assms(7) expiry_within(1) [of now] by (auto simp: of_unix_def AccessTokenTTL_def time_units)
  then show ?thesis
    using MintD [OF mint] assms IssuerVerify_token_sign [OF assms(2), of i' t]
    by (simp add: check_claims_def ClaimsExpiresAt_def)
qed

section \<open>Scope lists in a claim\<close>

lemma str_fields_word:
  "\<forall>c \<in> set w. \<not> is_space c \<Longrightarrow> str_fields_acc acc (w @ cs) = str_fields_acc (rev w @ acc) cs"
  by (induction w arbitrary: acc) auto

lemma str_fields_join:
  "\<forall>w \<in> set ws. w \<noteq> [] \<and> (\<forall>c \<in> set w. \<not> is_space c) \<Longrightarrow> str_fields (join ws '' '') = ws"
proof (induction ws rule: induct_list012)
  case (2 w)
  then show ?case using str_fields_word [of w "[]" "[]"] by (simp add: str_fields_def)
next
  case (3 w v ws)
  have "str_fields (join (w # v # ws) '' '') = w # str_fields (join (v # ws) '' '')"
    using 3 str_fields_word [of w "[]" "CHR '' '' # join (v # ws) '' ''"]
    by (simp add: str_fields_def is_space_def)
  with 3 show ?case by simp
qed (simp add: str_fields_def)

section \<open>A concrete codec\<close>

definition nl :: string where "nl = [CHR 0x0A]"

definition demo_jose :: jose where
  "demo_jose = \<lparr>
     jo_sign = (\<lambda>k m. k @ m),
     jo_verify = (\<lambda>k m s. s = k @ m),
     jo_header = (\<lambda>h. join [jh_Alg h, jh_Typ h, jh_Kid h] nl),
     jo_parse_header = (\<lambda>s. case split_at (CHR 0x0A) s of
        [a, t, k] \<Rightarrow> Some \<lparr>jh_Alg = a, jh_Typ = t, jh_Kid = k\<rparr> | _ \<Rightarrow> None),
     jo_claims = (\<lambda>c. join [cl_Issuer c, cl_Subject c, cl_Audience c, cl_SID c, cl_Scope c,
        format_uint (nat (cl_Expires c)), format_uint (nat (cl_IssuedAt c)), cl_JTI c, cl_Label c] nl),
     jo_parse_claims = (\<lambda>s. case split_at (CHR 0x0A) s of
        [iss, sub, aud, sid, scope, ex, iat, jti, label] \<Rightarrow>
          Some \<lparr>cl_Issuer = iss, cl_Subject = sub, cl_Audience = aud, cl_SID = sid, cl_Scope = scope,
            cl_Expires = int (digits_value ex), cl_IssuedAt = int (digits_value iat), cl_JTI = jti,
            cl_Label = label\<rparr>
      | _ \<Rightarrow> None)\<rparr>"

definition demo_pair :: keypair where
  "demo_pair = \<lparr>kp_ID = Thumbprint id ''k'', kp_Public = ''k'', kp_Private = ''k''\<rparr>"

definition demo_issuer :: issuer where
  "demo_issuer = \<lparr>is_keys = NewKeyring demo_pair, is_issuer = ''https://w'', is_audience = ''https://w/mcp''\<rparr>"

definition demo_claims :: claims where
  "demo_claims = mint_claims demo_issuer ''s1'' ''laptop'' [ScopeRead] 0 (b64 ''j'')"

definition demo_token :: string where
  "demo_token = token_sign demo_jose demo_pair demo_claims"

lemma demo_mint: "Mint demo_jose demo_issuer ''s1'' ''laptop'' [ScopeRead] 0 (Some ''j'') = Inr (demo_token, demo_claims)"
  by (simp add: Mint_def randomID_def demo_token_def demo_claims_def demo_issuer_def NewKeyring_def Let_def)

lemma demo_jose_ok: "jose_ok demo_jose demo_pair demo_claims"
  by (simp add: jose_ok_def demo_jose_def demo_pair_def demo_claims_def mint_claims_def demo_issuer_def
      nl_def Thumbprint_def quoted_def b64_def enc_digit_def url_alphabet_def ScopeRead_def
      format_uint.simps digits_value_def unix_of_def AccessTokenTTL_def minute_def char_of_def bit_0)

section \<open>Properties\<close>

text \<open>C18. A minted token is good for its lifetime and no longer, on any instance that shares the
  identity of the issuer and whatever key rotations it has gone through, as long as the signing key
  was not retired: \<open>Verify\<close> returns exactly the minted claims up to the expiry, which lies between
  599 and 600 seconds after minting, and \<open>ErrExpiredToken\<close> after it.\<close>

theorem minted_token_verifies:
  assumes "Mint J i sid label scopes now rnd = Inr (tok, c)"
    and "jose_ok J (kr_active (is_keys i)) c" and "sid \<noteq> []" and "0 \<le> now"
    and "ring_inv sha (is_keys i)" and "run_ok key_step (key_ok sha) (is_keys i) ops"
    and "OpKeyRetire (kp_ID (kr_active (is_keys i))) \<notin> set ops"
    and "i' = i\<lparr>is_keys := run key_step (is_keys i) ops\<rparr>"
    and "e = of_unix (cl_Expires c)"
  shows "IssuerVerify J i' tok t = (if e < t then Inl (ErrExpiredToken e) else Inr c) \<and>
         now + 599 * second < e \<and> e \<le> now + 600 * second"
proof -
  let ?kp = "kr_active (is_keys i)"
  have "KeyVerifier (is_keys i) (kp_ID ?kp) = Some (kp_Public ?kp)" by (simp add: KeyVerifier_def)
  from ring_run_keeps [OF assms(5) this assms(7,6)] show ?thesis
    using Mint_verifies [OF assms(1,2), of i' t] assms(3,4,8,9) MintD(5) [OF assms(1)]
      expiry_within [of now] by (simp add: AccessTokenTTL_def time_units)
qed

theorem minted_token_verifies_witness:
  "IssuerVerify demo_jose demo_issuer demo_token (5 * minute) = Inr demo_claims"
  using minted_token_verifies [OF demo_mint, of id "[]" demo_issuer _ "5 * minute"] demo_jose_ok
  by (simp add: demo_issuer_def NewKeyring_def ring_inv_def ring_keys_def demo_pair_def demo_claims_def
      mint_claims_def of_unix_def unix_of_def AccessTokenTTL_def minute_def Thumbprint_def)

text \<open>Nothing is accepted on its own word. When \<open>Verify\<close> returns claims, the token is three segments
  of which the last is a signature over exactly the first two under a key of the ring, the
  header names EdDSA and that key, the claims are the decoding of the signed payload, they name
  this audience and this issuer, they carry a session, and they have not expired.\<close>

theorem IssuerVerify_sound:
  assumes "IssuerVerify J i token now = Inr c"
  shows "\<exists>seg0 seg1 seg2 h pub sig.
     split_at (CHR ''.'') token = [seg0, seg1, seg2] \<and>
     (\<exists>raw. unb64 seg0 = Some raw \<and> jo_parse_header J raw = Some h) \<and>
     jh_Alg h = ''EdDSA'' \<and> KeyVerifier (is_keys i) (jh_Kid h) = Some pub \<and>
     unb64 seg2 = Some sig \<and> jo_verify J pub (seg0 @ ''.'' @ seg1) sig \<and>
     (\<exists>raw. unb64 seg1 = Some raw \<and> jo_parse_claims J raw = Some c) \<and>
     cl_Audience c = is_audience i \<and> cl_Issuer c = is_issuer i \<and> cl_SID c \<noteq> [] \<and>
     now \<le> of_unix (cl_Expires c)"
proof -
  obtain seg0 seg1 seg2 where segs: "split_at (CHR ''.'') token = [seg0, seg1, seg2]"
    using assms by (auto simp: IssuerVerify_def split: list.splits)
  obtain raw h pub where h: "unb64 seg0 = Some raw" "jo_parse_header J raw = Some h" "jh_Alg h = ''EdDSA''"
      "KeyVerifier (is_keys i) (jh_Kid h) = Some pub" "check_signed J i pub seg0 seg1 seg2 now = Inr c"
    using assms segs by (auto simp: IssuerVerify_def split: option.splits if_splits)
  then show ?thesis
    using segs by (auto simp: check_signed_def check_claims_def ClaimsExpiresAt_def
        split: option.splits if_splits)
qed

theorem IssuerVerify_sound_witness:
  "\<exists>seg0 seg1 seg2. split_at (CHR ''.'') demo_token = [seg0, seg1, seg2]"
proof -
  have "IssuerVerify demo_jose demo_issuer demo_token 1 = Inr demo_claims"
    using Mint_verifies [OF demo_mint, of demo_issuer 1] demo_jose_ok
    by (simp add: demo_issuer_def NewKeyring_def KeyVerifier_def of_unix_def unix_of_def
        AccessTokenTTL_def minute_def)
  from IssuerVerify_sound [OF this] show ?thesis by blast
qed

text \<open>C10. Revocation is bounded by one access-token lifetime. Once a session is on the denylist, no
  token that was minted for it up to that moment is accepted again: while the entry lasts it is
  reported revoked, and when the entry lapses the token has expired by itself. This is what ties the
  denylist lifetime to the token lifetime.\<close>

theorem revoked_session_tokens_die:
  assumes "Mint J i sid label scopes tm rnd = Inr (tok, c)"
    and "jose_ok J (kr_active (is_keys i)) c" and "sid \<noteq> []" and "0 \<le> tm"
    and "deny_clock (NewDenylist, t0) ops" and "deny_run (NewDenylist, t0) ops = (d, lst)"
    and "OpAdd sid tr \<in> set ops" and "tm \<le> tr" and "lst \<le> now"
  shows "fst (TokenVerifier J i (Some d) tok now) =
     (if of_unix (cl_Expires c) < now then Inl (ErrExpiredToken (of_unix (cl_Expires c)))
      else Inl (SessionIsRevoked sid))"
proof -
  have "KeyVerifier (is_keys i) (kp_ID (kr_active (is_keys i))) = Some (kp_Public (kr_active (is_keys i)))"
    by (simp add: KeyVerifier_def)
  from Mint_verifies [OF assms(1,2) this refl refl assms(3,4), of now]
  have v: "IssuerVerify J i tok now =
      (if of_unix (cl_Expires c) < now then Inl (ErrExpiredToken (of_unix (cl_Expires c))) else Inr c)"
    using MintD(5) [OF assms(1)] by simp
  show ?thesis
  proof (cases "of_unix (cl_Expires c) < now")
    case False
    then have "now \<le> tr + AccessTokenTTL"
      using assms(8) expiry_within(2) [of tm] MintD(5) [OF assms(1)] by simp
    then have "fst (Denied d sid now)"
      using Denied_history [OF assms(5,6,9), of sid] assms(3,7) by blast
    then show ?thesis
      using v False MintD(2) [OF assms(1)]
      by (cases "Denied d sid now") (simp add: TokenVerifier_def)
  qed (simp add: v TokenVerifier_def)
qed

theorem revoked_session_tokens_die_witness:
  "fst (TokenVerifier demo_jose demo_issuer (Some (fst (deny_run (NewDenylist, 0) [OpAdd ''s1'' minute])))
      demo_token (2 * minute)) = Inl (SessionIsRevoked ''s1'')"
  using revoked_session_tokens_die [OF demo_mint, of 0 "[OpAdd ''s1'' minute]" _ minute minute "2 * minute"]
    demo_jose_ok
  by (simp add: demo_issuer_def NewKeyring_def demo_claims_def mint_claims_def of_unix_def unix_of_def
      AccessTokenTTL_def minute_def clock_ok_def)

text \<open>The scopes a session was granted are the scopes its tokens carry: joining them into the claim
  and splitting them again on the hot path loses and adds nothing, for scopes without white space.\<close>

theorem minted_scopes_round_trip:
  assumes "Mint J i sid label scopes now rnd = Inr (tok, c)"
    and "\<forall>w \<in> set scopes. w \<noteq> [] \<and> (\<forall>x \<in> set w. \<not> is_space x)"
  shows "ti_Scopes (info_of c) = scopes \<and> (HasScope (Some (info_of c)) s \<longleftrightarrow> s \<in> set scopes)"
  using MintD(7) [OF assms(1)] str_fields_join [OF assms(2)]
  by (auto simp: info_of_def ClaimsScopes_def HasScope_def list_ex_iff)

theorem minted_scopes_round_trip_witness: "ti_Scopes (info_of demo_claims) = [ScopeRead]"
  using minted_scopes_round_trip [OF demo_mint] by (simp add: ScopeRead_def is_space_def)

text \<open>The scope gate lets a call to a privileged tool through only with the scope that tool needs, and
  answers every other such call with a challenge naming the tool and the scope. What it hands on is
  the first mebibyte of the body, not more.\<close>

theorem ScopeGate_protects:
  assumes "scopes \<noteq> []" and "toolNameFromBody json (take maxGateBody b) = tool" and "tool \<noteq> []"
    and "map_of scopes tool = Some required"
  shows "ScopeGate json scopes ''POST'' (Some b) info =
     (if HasScope info required then GateNext (take maxGateBody b) else GateForbidden tool required)"
  using assms by (simp add: ScopeGate_def Let_def)

theorem ScopeGate_protects_witness:
  "ScopeGate (\<lambda>s. Some (''tools/call'', ''whois_raw'')) [(''whois_raw'', ScopeRaw)] ''POST'' (Some [CHR 0x7B])
     (Some (info_of demo_claims)) = GateForbidden ''whois_raw'' ScopeRaw"
  using ScopeGate_protects [of "[(''whois_raw'', ScopeRaw)]" "\<lambda>s. Some (''tools/call'', ''whois_raw'')"
      "[CHR 0x7B]" "''whois_raw''" ScopeRaw "Some (info_of demo_claims)"]
  by (simp add: toolNameFromBody_def maxGateBody_def trim_left_def trim_space_def trim_right_by_def
      is_space_def HasScope_def info_of_def ClaimsScopes_def demo_claims_def mint_claims_def
      str_fields_def ScopeRaw_def ScopeRead_def)

end
