(* ===== verification/OAuth_Server.thy ===== *)
theory OAuth_Server
  imports Session_Store Code_Store Enrollment Access_Token
begin

text \<open>
  The authorization server: \<open>internal/auth/oauthsrv.go\<close>. The state is what the handlers share (the
  session store, the code store, the enrollment lockout, the denylist); a handler is a function
  from the configuration, the state, the request and the values it draws (clock readings, random
  identifiers) to the response and the state it leaves. Form values are a function from names to
  the first value, as \<open>url.Values.Get\<close> reads them. \<open>net/url\<close>, the \<open>%q\<close> verb, JSON and the crypto
  packages are fields of \<open>auth_lib\<close>. Cache headers and log lines are left out.
\<close>

section \<open>Data\<close>

record auth_lib =
  al_jose :: jose
  al_sha :: "string \<Rightarrow> string"
  al_argon :: "string \<Rightarrow> string \<Rightarrow> string"
  al_parse :: "string \<Rightarrow> url option"
  al_quote :: "string \<Rightarrow> string"

record server_cfg =
  cf_lib :: auth_lib
  cf_issuer :: issuer
  cf_form :: bool

record server_state =
  sv_sessions :: memory_store
  sv_codes :: code_store
  sv_enroll :: enrollment
  sv_deny :: "denylist option"

type_synonym form = "string \<Rightarrow> string"

record auth_request =
  ar_ClientID :: string
  ar_RedirectURI :: string
  ar_State :: string
  ar_Challenge :: string
  ar_Resource :: string
  ar_Scopes :: "string list"

record token_response =
  tr_AccessToken :: string
  tr_TokenType :: string
  tr_ExpiresIn :: int
  tr_RefreshToken :: string
  tr_Scope :: string

record registration_response =
  rg_ClientID :: string
  rg_ClientIDIssuedAt :: int
  rg_RedirectURIs :: "string list"
  rg_AuthMethod :: string
  rg_GrantTypes :: "string list"
  rg_ResponseTypes :: "string list"
  rg_ClientName :: string

record as_metadata =
  md_Issuer :: string
  md_AuthorizationEndpoint :: string
  md_TokenEndpoint :: string
  md_RevocationEndpoint :: string
  md_RegistrationEndpoint :: string
  md_JWKSURI :: string
  md_ScopesSupported :: "string list"
  md_ResponseTypes :: "string list"
  md_GrantTypes :: "string list"
  md_ChallengeMethods :: "string list"
  md_AuthMethods :: "string list"
  md_ISSParameter :: bool
  md_ResourceIndicators :: bool

record prm =
  pr_Resource :: string
  pr_AuthorizationServers :: "string list"
  pr_JWKSURI :: string
  pr_ScopesSupported :: "string list"
  pr_BearerMethods :: "string list"

text \<open>
  A redirect names the target as the client wrote it and the parameters set on its query; a text
  reply is \<open>http.Error\<close>.
\<close>

datatype response =
    RespText int string
  | RespForm int string
  | RespRedirect string "(string \<times> string) list"
  | RespOAuthError int string string
  | RespToken token_response
  | RespRegistered registration_response
  | RespMetadata as_metadata
  | RespPRM prm
  | RespJWKS "jwk list"
  | RespOK
  | RespMethodNotAllowed "string list"

section \<open>Helpers\<close>

definition PathAuthorize :: string where "PathAuthorize = ''/oauth/authorize''"
definition PathToken :: string where "PathToken = ''/oauth/token''"
definition PathRevoke :: string where "PathRevoke = ''/oauth/revoke''"
definition PathRegister :: string where "PathRegister = ''/oauth/register''"
definition PathJWKS :: string where "PathJWKS = ''/.well-known/jwks.json''"

definition knownScope :: "string \<Rightarrow> bool" where
  "knownScope s = list_ex (\<lambda>k. s = k) AllScopes"

definition sameResource :: "string \<Rightarrow> string \<Rightarrow> bool" where
  "sameResource a b \<longleftrightarrow> trim_right a ''/'' = trim_right b ''/''"

definition splitOAuthError :: "string \<Rightarrow> string \<times> string" where
  "splitOAuthError msg =
     (case index_of msg '': '' of
        None \<Rightarrow> (''invalid_request'', msg)
      | Some i \<Rightarrow>
          if 0 < i \<and> \<not> contains (take i msg) '' '' then (take i msg, drop (i + 2) msg)
          else (''invalid_request'', msg))"

definition base_url :: "server_cfg \<Rightarrow> string" where
  "base_url cf = trim_right (is_issuer (cf_issuer cf)) ''/''"

text \<open>The message of each redirect error; that of \<open>url.Parse\<close>, which the code appends, is left out.\<close>

definition redirect_msg :: "auth_lib \<Rightarrow> redirect_error \<Rightarrow> string" where
  "redirect_msg L e =
     (case e of
        RedirectRequired \<Rightarrow> ''redirect_uri is required''
      | RedirectNotURI \<Rightarrow> ''redirect_uri is not a URI''
      | RedirectFragment \<Rightarrow> ''redirect_uri must not contain a fragment''
      | RedirectNoHost \<Rightarrow> ''https redirect_uri has no host''
      | RedirectNotLoopback \<Rightarrow> ''http redirect_uri is only allowed for loopback''
      | RedirectNotAbsolute \<Rightarrow> ''redirect_uri must be absolute''
      | RedirectBadScheme s \<Rightarrow> ''redirect_uri scheme '' @ al_quote L s @ '' is not allowed''
      | RedirectNotPrivate s \<Rightarrow> ''redirect_uri scheme '' @ al_quote L s @ '' is not a private-use scheme'')"

section \<open>Metadata\<close>

definition metadata :: "server_cfg \<Rightarrow> as_metadata" where
  "metadata cf =
     (let base = base_url cf
      in \<lparr>md_Issuer = base, md_AuthorizationEndpoint = base @ PathAuthorize,
          md_TokenEndpoint = base @ PathToken, md_RevocationEndpoint = base @ PathRevoke,
          md_RegistrationEndpoint = base @ PathRegister, md_JWKSURI = base @ PathJWKS,
          md_ScopesSupported = AllScopes, md_ResponseTypes = [''code''],
          md_GrantTypes = [''authorization_code'', ''refresh_token''],
          md_ChallengeMethods = [''S256''], md_AuthMethods = [''none''],
          md_ISSParameter = True, md_ResourceIndicators = True\<rparr>)"

definition handleASMetadata :: "server_cfg \<Rightarrow> string \<Rightarrow> response" where
  "handleASMetadata cf meth =
     (if meth \<noteq> ''GET'' then RespMethodNotAllowed [''GET''] else RespMetadata (metadata cf))"

definition handlePRM :: "server_cfg \<Rightarrow> string \<Rightarrow> response" where
  "handlePRM cf meth =
     (if meth \<noteq> ''GET'' then RespMethodNotAllowed [''GET'']
      else RespPRM \<lparr>pr_Resource = is_audience (cf_issuer cf), pr_AuthorizationServers = [base_url cf],
             pr_JWKSURI = base_url cf @ PathJWKS, pr_ScopesSupported = MinimumScopes,
             pr_BearerMethods = [''header'']\<rparr>)"

definition handleJWKS :: "server_cfg \<Rightarrow> string \<Rightarrow> response" where
  "handleJWKS cf meth =
     (if meth \<noteq> ''GET'' then RespMethodNotAllowed [''GET'']
      else RespJWKS (JWKS (is_keys (cf_issuer cf))))"

section \<open>Authorize\<close>

text \<open>The error side carries the request parsed so far, whether it may be reported by redirect, and
  the message.\<close>

definition parseAuthRequest ::
    "server_cfg \<Rightarrow> form \<Rightarrow> (auth_request option \<times> bool \<times> string) + auth_request" where
  "parseAuthRequest cf q =
     (let L = cf_lib cf
      in case ValidateRedirectURI (al_parse L) (q ''redirect_uri'') of
           Some e \<Rightarrow> Inl (None, False, redirect_msg L e)
         | None \<Rightarrow>
             (let req = \<lparr>ar_ClientID = q ''client_id'', ar_RedirectURI = q ''redirect_uri'',
                    ar_State = q ''state'', ar_Challenge = q ''code_challenge'',
                    ar_Resource = q ''resource'', ar_Scopes = []\<rparr>;
                  aud = is_audience (cf_issuer cf)
              in if q ''response_type'' \<noteq> ''code'' then
                   Inl (Some req, True, ''unsupported_response_type: '' @ al_quote L (q ''response_type''))
                 else if q ''code_challenge_method'' \<noteq> ''S256'' then
                   Inl (Some req, True, ''invalid_request: code_challenge_method must be S256, got '' @
                     al_quote L (q ''code_challenge_method''))
                 else if ar_Challenge req = [] then
                   Inl (Some req, True, ''invalid_request: code_challenge is required'')
                 else if ar_Resource req \<noteq> [] \<and> \<not> sameResource (ar_Resource req) aud then
                   Inl (Some req, True, ''invalid_target: this server only issues tokens for '' @ aud)
                 else
                   (let scopes = NormalizeScopes (str_fields (q ''scope''));
                        req' = req\<lparr>ar_Scopes := (if scopes = [] then MinimumScopes else scopes)\<rparr>
                    in case List.find (\<lambda>sc. \<not> knownScope sc) (ar_Scopes req') of
                         Some sc \<Rightarrow> Inl (Some req', True, ''invalid_scope: '' @ al_quote L sc)
                       | None \<Rightarrow> Inr req')))"

definition authorizeError ::
    "server_cfg \<Rightarrow> auth_request option \<times> bool \<times> string \<Rightarrow> response" where
  "authorizeError cf err =
     (case err of (req, canRedirect, msg) \<Rightarrow>
        (case splitOAuthError msg of (code, desc) \<Rightarrow>
           (case req of
              None \<Rightarrow> RespText 400 (''authorization request rejected: '' @ desc)
            | Some req \<Rightarrow>
                if \<not> canRedirect \<or> ar_RedirectURI req = [] \<or> al_parse (cf_lib cf) (ar_RedirectURI req) = None
                then RespText 400 (''authorization request rejected: '' @ desc)
                else RespRedirect (ar_RedirectURI req)
                  ([(''error'', code), (''error_description'', desc)] @
                   (if ar_State req \<noteq> [] then [(''state'', ar_State req)] else []) @
                   [(''iss'', base_url cf)]))))"

definition authorizeGET :: "server_cfg \<Rightarrow> form \<Rightarrow> response" where
  "authorizeGET cf q =
     (case parseAuthRequest cf q of
        Inl err \<Rightarrow> authorizeError cf err
      | Inr req \<Rightarrow>
          if \<not> cf_form cf then RespText 500 ''enrollment form is not configured'' else RespForm 200 [])"

record authorize_draws =
  ad_enroll :: time
  ad_now :: time
  ad_sid :: "string option"
  ad_code :: "string option"
  ad_issue :: time

definition session_label :: "string \<Rightarrow> string" where
  "session_label raw =
     (let label = trim_space raw;
          label = (if label = [] then ''unnamed session'' else label)
      in if 64 < length label then take 64 label else label)"

definition enrolled_session :: "string \<Rightarrow> string \<Rightarrow> auth_request \<Rightarrow> time \<Rightarrow> session" where
  "enrolled_session sid label req now =
     \<lparr>sess_ID = sid, sess_Label = label, sess_Scopes = ar_Scopes req, sess_CreatedAt = now,
      sess_LastSeen = now, sess_ExpiresAt = now + RefreshTTL, sess_Revoked = False,
      sess_RevokedAt = zero_time, sess_Rotations = 0, sess_ClientHint = ar_ClientID req\<rparr>"

definition authorization_code :: "string \<Rightarrow> string \<Rightarrow> auth_request \<Rightarrow> code" where
  "authorization_code sid label req =
     \<lparr>code_Code = [], code_SessionID = sid, code_Label = label, code_Scopes = ar_Scopes req,
      code_ClientID = ar_ClientID req, code_RedirectURI = ar_RedirectURI req,
      code_Challenge = ar_Challenge req, code_Resource = ar_Resource req,
      code_IssuedAt = zero_time, code_ExpiresAt = zero_time\<rparr>"

text \<open>The wait in the lockout message is the duration itself; its decimal rendering is left out.\<close>

definition enroll_msg :: "enroll_error \<Rightarrow> string" where
  "enroll_msg e =
     (case e of ErrLockedOut w \<Rightarrow> ''Too many failed attempts. ''
      | _ \<Rightarrow> ''That enrollment token was not accepted.'')"

text \<open>Everything after the secret was accepted.\<close>

definition authorize_enrolled ::
    "server_cfg \<Rightarrow> server_state \<Rightarrow> auth_request \<Rightarrow> string \<Rightarrow> authorize_draws \<Rightarrow> response \<times> server_state" where
  "authorize_enrolled cf s req label dr =
     (case NewSessionID (ad_sid dr) of
        None \<Rightarrow> (RespText 500 ''could not create a session'', s)
      | Some sid \<Rightarrow>
          (case Create (sv_sessions s) (Some (enrolled_session sid label req (ad_now dr))) of
             (Inl e, _) \<Rightarrow> (RespText 500 ''could not create a session'', s)
           | (Inr _, m) \<Rightarrow>
               (let s = s\<lparr>sv_sessions := m\<rparr>
                in case Issue (sv_codes s) (authorization_code sid label req) (ad_code dr) (ad_issue dr) of
                     (Inl e, _) \<Rightarrow> (RespText 500 ''could not issue an authorization code'', s)
                   | (Inr code, cs) \<Rightarrow>
                       (let s = s\<lparr>sv_codes := cs\<rparr>
                        in if al_parse (cf_lib cf) (ar_RedirectURI req) = None
                           then (RespText 400 ''invalid redirect_uri'', s)
                           else (RespRedirect (ar_RedirectURI req)
                                   ([(''code'', code)] @
                                    (if ar_State req \<noteq> [] then [(''state'', ar_State req)] else []) @
                                    [(''iss'', base_url cf)]), s)))))"

text \<open>\<open>f\<close> is \<open>None\<close> when the form cannot be parsed.\<close>

definition authorizePOST ::
    "server_cfg \<Rightarrow> server_state \<Rightarrow> string \<Rightarrow> form option \<Rightarrow> authorize_draws \<Rightarrow> response \<times> server_state" where
  "authorizePOST cf s remoteAddr f dr =
     (case f of
        None \<Rightarrow> (RespText 400 ''invalid form submission'', s)
      | Some q \<Rightarrow>
          (case parseAuthRequest cf q of
             Inl err \<Rightarrow> (authorizeError cf err, s)
           | Inr req \<Rightarrow>
               (case EnrollVerify (al_argon (cf_lib cf)) (al_sha (cf_lib cf)) (sv_enroll s)
                       (SourceFromRequest (Some remoteAddr)) (q ''enrollment_token'') (ad_enroll dr) of
                  (Inl e, en) \<Rightarrow>
                    ((if cf_form cf then RespForm 401 (enroll_msg e) else RespText 401 []),
                     s\<lparr>sv_enroll := en\<rparr>)
                | (Inr _, en) \<Rightarrow>
                    authorize_enrolled cf (s\<lparr>sv_enroll := en\<rparr>) req (session_label (q ''label'')) dr)))"

definition handleAuthorize ::
    "server_cfg \<Rightarrow> server_state \<Rightarrow> string \<Rightarrow> string \<Rightarrow> form option \<Rightarrow> authorize_draws \<Rightarrow> response \<times> server_state" where
  "handleAuthorize cf s meth remoteAddr f dr =
     (if meth = ''GET'' then (authorizeGET cf (case f of None \<Rightarrow> (\<lambda>_. []) | Some q \<Rightarrow> q), s)
      else if meth = ''POST'' then authorizePOST cf s remoteAddr f dr
      else (RespMethodNotAllowed [''GET'', ''POST''], s))"

section \<open>Token\<close>

record token_draws =
  td_consume :: time
  td_active :: time
  td_mint :: time
  td_jti :: "string option"
  td_refresh :: "string option"
  td_now :: time
  td_deny :: time
  td_until :: time

definition expires_in :: "time \<Rightarrow> time \<Rightarrow> int" where
  "expires_in e now = (if now \<le> e then (e - now) div second else - ((now - e) div second))"

definition token_reply :: "claims \<Rightarrow> string \<Rightarrow> string \<Rightarrow> session \<Rightarrow> time \<Rightarrow> response" where
  "token_reply c access refresh sess now =
     RespToken \<lparr>tr_AccessToken = access, tr_TokenType = ''Bearer'',
       tr_ExpiresIn = expires_in (ClaimsExpiresAt c) now, tr_RefreshToken = refresh,
       tr_Scope = join (sess_Scopes sess) '' ''\<rparr>"

definition other_resource :: "server_cfg \<Rightarrow> form \<Rightarrow> bool" where
  "other_resource cf f \<longleftrightarrow>
     f ''resource'' \<noteq> [] \<and> \<not> sameResource (f ''resource'') (is_audience (cf_issuer cf))"

definition invalid_target :: "server_cfg \<Rightarrow> response" where
  "invalid_target cf = RespOAuthError 400 ''invalid_target''
     (''this server only issues tokens for '' @ is_audience (cf_issuer cf))"

definition firstRefresh ::
    "memory_store \<Rightarrow> string \<Rightarrow> string option \<Rightarrow> time \<Rightarrow> string option \<times> memory_store" where
  "firstRefresh m sid rnd now =
     (case rnd of
        None \<Rightarrow> (None, m)
      | Some tok \<Rightarrow>
          (case IssueRefresh m sid tok now of
             (Inl e, m') \<Rightarrow> (None, m')
           | (Inr _, m') \<Rightarrow> (Some tok, m')))"

definition code_failure :: "code_error \<Rightarrow> response" where
  "code_failure e =
     RespOAuthError 400 ''invalid_grant''
       (if e = ErrPKCEFailed then ''PKCE verification failed''
        else if e = ErrRedirectMismatch then ''redirect_uri mismatch''
        else ''authorization code is not valid'')"

definition grant_from_session ::
    "server_cfg \<Rightarrow> server_state \<Rightarrow> session \<Rightarrow> token_draws \<Rightarrow> response \<times> server_state" where
  "grant_from_session cf s sess dr =
     (case Mint (al_jose (cf_lib cf)) (cf_issuer cf) (sess_ID sess) (sess_Label sess) (sess_Scopes sess)
             (td_mint dr) (td_jti dr) of
        Inl e \<Rightarrow> (RespOAuthError 500 ''server_error'' ''could not mint a token'', s)
      | Inr (access, c) \<Rightarrow>
          (case firstRefresh (sv_sessions s) (sess_ID sess) (td_refresh dr) (td_now dr) of
             (None, m) \<Rightarrow>
               (RespOAuthError 500 ''server_error'' ''could not issue a refresh token'', s\<lparr>sv_sessions := m\<rparr>)
           | (Some refresh, m) \<Rightarrow>
               (token_reply c access refresh sess (td_until dr), s\<lparr>sv_sessions := m\<rparr>)))"

definition tokenFromCode ::
    "server_cfg \<Rightarrow> server_state \<Rightarrow> form \<Rightarrow> token_draws \<Rightarrow> response \<times> server_state" where
  "tokenFromCode cf s f dr =
     (if other_resource cf f then (invalid_target cf, s)
      else case Consume (al_sha (cf_lib cf)) (sv_codes s) (f ''code'') (f ''code_verifier'')
                  (f ''redirect_uri'') (f ''client_id'') (td_consume dr) of
        (Inl e, cs) \<Rightarrow> (code_failure e, s\<lparr>sv_codes := cs\<rparr>)
      | (Inr code, cs) \<Rightarrow>
          (let s = s\<lparr>sv_codes := cs\<rparr>
           in case Get (sv_sessions s) (code_SessionID code) of
                Inl e \<Rightarrow> (RespOAuthError 400 ''invalid_grant'' ''session is no longer active'', s)
              | Inr sess \<Rightarrow>
                  if \<not> Active (Some sess) (td_active dr)
                  then (RespOAuthError 400 ''invalid_grant'' ''session is no longer active'', s)
                  else grant_from_session cf s sess dr))"

definition deny_add :: "denylist option \<Rightarrow> string \<Rightarrow> time \<Rightarrow> denylist option" where
  "deny_add d sid now = map_option (\<lambda>d. DenyAdd d sid now) d"

definition tokenFromRefresh ::
    "server_cfg \<Rightarrow> server_state \<Rightarrow> form \<Rightarrow> token_draws \<Rightarrow> response \<times> server_state" where
  "tokenFromRefresh cf s f dr =
     (if f ''refresh_token'' = [] then
        (RespOAuthError 400 ''invalid_request'' ''refresh_token is required'', s)
      else if other_resource cf f then (invalid_target cf, s)
      else case td_refresh dr of
        None \<Rightarrow> (RespOAuthError 500 ''server_error'' ''could not issue a refresh token'', s)
      | Some nxt \<Rightarrow>
          (case Rotate (sv_sessions s) (f ''refresh_token'') nxt (td_now dr) of
             (Inl e, m) \<Rightarrow>
               (RespOAuthError 400 ''invalid_grant'' ''refresh token is not valid'',
                s\<lparr>sv_sessions := m,
                  sv_deny := (case e of ReuseError sid \<Rightarrow> deny_add (sv_deny s) sid (td_deny dr)
                              | _ \<Rightarrow> sv_deny s)\<rparr>)
           | (Inr sess, m) \<Rightarrow>
               (let s = s\<lparr>sv_sessions := m\<rparr>
                in case Mint (al_jose (cf_lib cf)) (cf_issuer cf) (sess_ID sess) (sess_Label sess)
                          (sess_Scopes sess) (td_mint dr) (td_jti dr) of
                     Inl e \<Rightarrow> (RespOAuthError 500 ''server_error'' ''could not mint a token'', s)
                   | Inr (access, c) \<Rightarrow> (token_reply c access nxt sess (td_until dr), s))))"

definition handleToken ::
    "server_cfg \<Rightarrow> server_state \<Rightarrow> string \<Rightarrow> form option \<Rightarrow> token_draws \<Rightarrow> response \<times> server_state" where
  "handleToken cf s meth f dr =
     (if meth \<noteq> ''POST'' then (RespMethodNotAllowed [''POST''], s)
      else case f of
        None \<Rightarrow> (RespOAuthError 400 ''invalid_request'' ''form could not be parsed'', s)
      | Some q \<Rightarrow>
          (let g = q ''grant_type''
           in if g = ''authorization_code'' then tokenFromCode cf s q dr
              else if g = ''refresh_token'' then tokenFromRefresh cf s q dr
              else if g = [] then (RespOAuthError 400 ''invalid_request'' ''grant_type is required'', s)
              else (RespOAuthError 400 ''unsupported_grant_type''
                      ''only authorization_code and refresh_token are supported'', s)))"

section \<open>Revoke\<close>

text \<open>\<open>denied_at\<close> is the denylist's own clock reading.\<close>

definition revokeSession :: "server_state \<Rightarrow> string \<Rightarrow> time \<Rightarrow> time \<Rightarrow> server_state" where
  "revokeSession s sid now denied_at =
     (if sid = [] then s
      else case Revoke (sv_sessions s) sid now of
        (Inl e, m) \<Rightarrow> s\<lparr>sv_sessions := m\<rparr>
      | (Inr _, m) \<Rightarrow> s\<lparr>sv_sessions := m, sv_deny := deny_add (sv_deny s) sid denied_at\<rparr>)"

record revoke_draws =
  rv_now :: time
  rv_verify :: time
  rv_rnd :: "string option"
  rv_deny :: time

definition handleRevoke ::
    "server_cfg \<Rightarrow> server_state \<Rightarrow> string \<Rightarrow> form option \<Rightarrow> revoke_draws \<Rightarrow> response \<times> server_state" where
  "handleRevoke cf s meth f dr =
     (if meth \<noteq> ''POST'' then (RespMethodNotAllowed [''POST''], s)
      else case f of
        None \<Rightarrow> (RespOAuthError 400 ''invalid_request'' ''form could not be parsed'', s)
      | Some q \<Rightarrow>
          if q ''token'' = [] then (RespOAuthError 400 ''invalid_request'' ''token is required'', s)
          else
            (case IssuerVerify (al_jose (cf_lib cf)) (cf_issuer cf) (q ''token'') (rv_verify dr) of
               Inr c \<Rightarrow> (RespOK, revokeSession s (cl_SID c) (rv_now dr) (rv_deny dr))
             | Inl _ \<Rightarrow>
                 (case rv_rnd dr of
                    None \<Rightarrow> (RespOK, s)
                  | Some throwaway \<Rightarrow>
                      (case Rotate (sv_sessions s) (q ''token'') throwaway (rv_now dr) of
                         (Inr sess, m) \<Rightarrow>
                           (RespOK, revokeSession (s\<lparr>sv_sessions := m\<rparr>) (sess_ID sess) (rv_now dr) (rv_deny dr))
                       | (Inl _, m) \<Rightarrow> (RespOK, s\<lparr>sv_sessions := m\<rparr>)))))"

section \<open>Register\<close>

text \<open>\<open>body\<close> is the decoded request, \<open>None\<close> when it is not valid JSON or longer than 32 KiB.\<close>

definition handleRegister ::
    "server_cfg \<Rightarrow> string \<Rightarrow> (string list \<times> string) option \<Rightarrow> time \<Rightarrow> string option \<Rightarrow> response" where
  "handleRegister cf meth body now rnd =
     (if meth \<noteq> ''POST'' then RespMethodNotAllowed [''POST'']
      else case body of
        None \<Rightarrow> RespOAuthError 400 ''invalid_client_metadata'' ''body is not valid JSON''
      | Some (uris, name) \<Rightarrow>
          (case List.map_filter (ValidateRedirectURI (al_parse (cf_lib cf))) uris of
             e # _ \<Rightarrow> RespOAuthError 400 ''invalid_redirect_uri'' (redirect_msg (cf_lib cf) e)
           | [] \<Rightarrow>
               (case rnd of
                  None \<Rightarrow> RespOAuthError 500 ''server_error'' ''could not issue a client id''
                | Some rid \<Rightarrow>
                    RespRegistered \<lparr>rg_ClientID = ''client_'' @ rid, rg_ClientIDIssuedAt = unix_of now,
                      rg_RedirectURIs = uris, rg_AuthMethod = ''none'',
                      rg_GrantTypes = [''authorization_code'', ''refresh_token''],
                      rg_ResponseTypes = [''code''], rg_ClientName = name\<rparr>)))"

end
