(* ===== verification/OAuth_Flow.thy ===== *)
theory OAuth_Flow
  imports OAuth_Server
begin

text \<open>
  The authorization server as a whole: its requests as the operations of a state machine, the
  invariant they keep, and the properties of the flow. A request runs to completion before the
  next; the interleavings that matter (the two sections of \<open>Enrollment.Verify\<close> and of
  \<open>Denylist.Denied\<close>) are treated in their own theories.
\<close>

section \<open>Requests\<close>

datatype server_op =
    ReqAuthorize string string "form option" authorize_draws
  | ReqToken string "form option" token_draws
  | ReqRevoke string "form option" revoke_draws
  | ReqMCP string time

fun server_step :: "server_cfg \<Rightarrow> server_state \<Rightarrow> server_op \<Rightarrow> server_state" where
  "server_step cf s (ReqAuthorize meth addr f dr) = snd (handleAuthorize cf s meth addr f dr)"
| "server_step cf s (ReqToken meth f dr) = snd (handleToken cf s meth f dr)"
| "server_step cf s (ReqRevoke meth f dr) = snd (handleRevoke cf s meth f dr)"
| "server_step cf s (ReqMCP token now) =
     s\<lparr>sv_deny := snd (TokenVerifier (al_jose (cf_lib cf)) (cf_issuer cf) (sv_deny s) token now)\<rparr>"

definition new_server :: "enrollment \<Rightarrow> server_state" where
  "new_server en = \<lparr>sv_sessions = NewMemoryStore, sv_codes = NewCodeStore, sv_enroll = en,
     sv_deny = Some NewDenylist\<rparr>"

text \<open>
  What a client of a session can redeem: an outstanding code, or a live refresh token.
\<close>

definition creds :: "memory_store \<Rightarrow> code_store \<Rightarrow> string \<Rightarrow> (string + string) set" where
  "creds m cs sid =
     {Inl k | k c. cs k = Some c \<and> code_SessionID c = sid} \<union> {Inr t | t. live_token m sid t}"

definition one_cred :: "memory_store \<Rightarrow> code_store \<Rightarrow> bool" where
  "one_cred m cs \<longleftrightarrow> (\<forall>sid x y. x \<in> creds m cs sid \<longrightarrow> y \<in> creds m cs sid \<longrightarrow> x = y)"

definition codes_ok :: "memory_store \<Rightarrow> code_store \<Rightarrow> bool" where
  "codes_ok m cs \<longleftrightarrow> (\<forall>k c. cs k = Some c \<longrightarrow> st_sessions m (code_SessionID c) \<noteq> None)"

definition server_inv :: "server_state \<Rightarrow> bool" where
  "server_inv s \<longleftrightarrow>
     store_inv (sv_sessions s) \<and> codes_ok (sv_sessions s) (sv_codes s) \<and>
     one_cred (sv_sessions s) (sv_codes s)"

lemma one_cred_shrink:
  "one_cred m cs \<Longrightarrow> (\<And>sid. creds m' cs' sid \<subseteq> creds m cs sid) \<Longrightarrow> one_cred m' cs'"
  unfolding one_cred_def by blast

lemma one_cred_replace:
  assumes "one_cred m cs" and "creds m' cs' sid \<subseteq> {x}"
    and "\<And>sid'. sid' \<noteq> sid \<Longrightarrow> creds m' cs' sid' \<subseteq> creds m cs sid'"
  shows "one_cred m' cs'"
  unfolding one_cred_def
proof (intro allI impI)
  fix sid' y z assume "y \<in> creds m' cs' sid'" "z \<in> creds m' cs' sid'"
  then show "y = z"
    using assms by (cases "sid' = sid") (blast, unfold one_cred_def, blast)
qed

lemma creds_mono:
  "(\<And>k c. cs' k = Some c \<Longrightarrow> cs k = Some c) \<Longrightarrow>
   (\<And>t. live_token m' sid t \<Longrightarrow> live_token m sid t) \<Longrightarrow> creds m' cs' sid \<subseteq> creds m cs sid"
  unfolding creds_def by blast

section \<open>What the store does to live tokens\<close>

definition keeps_sessions :: "memory_store \<Rightarrow> memory_store \<Rightarrow> bool" where
  "keeps_sessions m m' \<longleftrightarrow> (\<forall>k. st_sessions m k \<noteq> None \<longrightarrow> st_sessions m' k \<noteq> None)"

lemma Create_effect:
  assumes "Create m (Some x) = (Inr (), m')"
  shows "st_sessions m (sess_ID x) = None" and "live_token m' sid t = live_token m sid t"
    and "keeps_sessions m m'" and "st_sessions m' (sess_ID x) = Some x"
  using assms by (auto simp: Create_def live_token_def keeps_sessions_def split: if_splits)

lemma IssueRefresh_effect:
  assumes "IssueRefresh m sid tok now = (res, m')"
  shows "keeps_sessions m m'"
    and "live_token m' sid' t \<Longrightarrow> live_token m sid' t \<or> (sid' = sid \<and> t = tok)"
  using assms by (auto simp: IssueRefresh_def live_token_def keeps_sessions_def split: if_splits option.splits)

lemma live_token_revokeFamily:
  "live_token (revokeFamilyLocked m sid now) sid' t \<Longrightarrow> live_token m sid' t"
  by (cases "st_refresh m t") (auto simp: live_token_def split: if_splits)

lemma live_token_sessions [simp]: "live_token (m\<lparr>st_sessions := f\<rparr>) sid t = live_token m sid t"
  by (simp add: live_token_def)

lemma Rotate_err_effect:
  assumes "Rotate m old new now = (Inl e, m')"
  shows "keeps_sessions m m'" and "live_token m' sid t \<Longrightarrow> live_token m sid t"
proof -
  show "keeps_sessions m m'"
    using assms by (auto simp: Rotate_def Let_def keeps_sessions_def split: option.splits if_splits)
  show "live_token m sid t" if "live_token m' sid t"
    using assms that
    by (auto simp: Rotate_def Let_def split: option.splits if_splits dest!: live_token_revokeFamily)
qed

lemma Revoke_effect:
  assumes "Revoke m sid now = (res, m')"
  shows "keeps_sessions m m'" and "live_token m' sid' t \<Longrightarrow> live_token m sid' t"
proof -
  show "keeps_sessions m m'"
    using assms by (auto simp: Revoke_def keeps_sessions_def split: option.splits)
  show "live_token m sid' t" if "live_token m' sid' t"
    using assms that by (auto simp: Revoke_def split: option.splits dest!: live_token_revokeFamily)
qed

lemma Rotate_ok_effect:
  assumes inv: "store_inv m" and rot: "Rotate m old new now = (Inr s, m')"
  shows "keeps_sessions m m'" and "live_token m (sess_ID s) old"
    and "live_token m' sid t \<Longrightarrow> live_token m sid t \<and> t \<noteq> old \<or> sid = sess_ID s \<and> t = new"
proof -
  obtain r s0 where r: "st_refresh m old = Some r" "st_sessions m (rec_sid r) = Some s0" "\<not> rec_used r"
      "sess_ID s = sess_ID s0"
      "m' = m\<lparr>st_sessions := (st_sessions m)(rec_sid r \<mapsto> s),
              st_refresh := (st_refresh m)
                (old \<mapsto> (spend now r)\<lparr>rec_replaced := new\<rparr>,
                 new \<mapsto> new_record (sess_ID s0) (sess_ExpiresAt s))\<rparr>"
    using rot by (rule Rotate_okD) simp
  have sid: "sess_ID s0 = rec_sid r" using store_inv_sid [OF inv r(2)] .
  show "keeps_sessions m m'" using r by (simp add: keeps_sessions_def)
  show "live_token m (sess_ID s) old" using r sid by (simp add: live_token_def)
  show "live_token m sid t \<and> t \<noteq> old \<or> sid = sess_ID s \<and> t = new" if "live_token m' sid t"
    using that r sid by (auto simp: live_token_def split: if_splits)
qed

section \<open>Every request keeps the invariant\<close>

definition auth_inv :: "memory_store \<Rightarrow> code_store \<Rightarrow> bool" where
  "auth_inv m cs \<longleftrightarrow> store_inv m \<and> codes_ok m cs \<and> one_cred m cs"

lemma server_inv_auth: "server_inv s \<longleftrightarrow> auth_inv (sv_sessions s) (sv_codes s)"
  by (simp add: server_inv_def auth_inv_def)

lemma codes_ok_keeps:
  "codes_ok m cs \<Longrightarrow> keeps_sessions m m' \<Longrightarrow> (\<And>k c. cs' k = Some c \<Longrightarrow> cs k = Some c) \<Longrightarrow> codes_ok m' cs'"
  unfolding codes_ok_def keeps_sessions_def by blast

lemma auth_inv_shrink:
  assumes "auth_inv m cs" and "store_inv m'" and "keeps_sessions m m'"
    and "\<And>k c. cs' k = Some c \<Longrightarrow> cs k = Some c" and "\<And>sid t. live_token m' sid t \<Longrightarrow> live_token m sid t"
  shows "auth_inv m' cs'"
  using assms codes_ok_keeps [of m cs m' cs'] one_cred_shrink [of m cs m' cs'] creds_mono [of cs' cs m' _ m]
  by (simp add: auth_inv_def)

lemma keeps_sessions_refl [simp]: "keeps_sessions m m"
  by (simp add: keeps_sessions_def)

lemma auth_inv_Create:
  assumes "auth_inv m cs" and "Create m (Some x) = (res, m')"
  shows "auth_inv m' cs"
proof (cases res)
  case (Inr u)
  with assms(2) have c: "Create m (Some x) = (Inr (), m')" by simp
  show ?thesis
    by (rule auth_inv_shrink [OF assms(1)])
      (use Create_effect [OF c] Create_inv [of m "Some x"] assms in \<open>auto simp: auth_inv_def\<close>)
next
  case (Inl e)
  then have "m' = m" using assms(2) by (auto simp: Create_def split: if_splits)
  then show ?thesis using assms(1) by simp
qed

lemma auth_inv_enroll:
  assumes inv: "auth_inv m cs" and c: "Create m (Some x) = (Inr (), m')"
    and i: "Issue cs cd rnd now = (res, cs')" and sid: "code_SessionID cd = sess_ID x"
  shows "auth_inv m' cs'"
proof (cases rnd)
  case None
  then show ?thesis using i auth_inv_Create [OF inv c] by (simp add: Issue_def)
next
  case (Some k)
  have inv': "auth_inv m' cs" by (rule auth_inv_Create [OF inv c])
  note eff = Create_effect [OF c]
  have new: "cs' k' = Some c' \<Longrightarrow> cs k' = Some c' \<or> k' = k \<and> code_SessionID c' = sess_ID x" for k' c'
    using i sid Some by (auto simp: Issue_def Let_def split: if_splits)
  have none: "\<not> live_token m' (sess_ID x) t" "cs k' = Some c' \<Longrightarrow> code_SessionID c' \<noteq> sess_ID x" for t k' c'
    using inv eff(1,2) no_session_not_live unfolding auth_inv_def codes_ok_def by metis+
  have "codes_ok m' cs'" using inv' new eff(4) unfolding auth_inv_def codes_ok_def by fastforce
  moreover have "one_cred m' cs'"
  proof (rule one_cred_replace [of m' cs _ _ "sess_ID x" "Inl k"])
    show "one_cred m' cs" using inv' by (simp add: auth_inv_def)
    show "creds m' cs' (sess_ID x) \<subseteq> {Inl k}" using new none unfolding creds_def by blast
    show "creds m' cs' sid' \<subseteq> creds m' cs sid'" if "sid' \<noteq> sess_ID x" for sid'
      using that new by (auto simp: creds_def)
  qed
  ultimately show ?thesis using inv' by (simp add: auth_inv_def)
qed

lemma auth_inv_Consume:
  assumes "auth_inv m cs" and "Consume sha cs k v r cl now = (res, cs')"
  shows "auth_inv m cs'"
  using assms by (intro auth_inv_shrink [OF assms(1)])
    (auto simp: Consume_def auth_inv_def split: option.splits if_splits)

lemma auth_inv_exchange:
  assumes inv: "auth_inv m cs" and c: "Consume sha cs k v r cl now = (Inr cd, cs')"
    and i: "IssueRefresh m (code_SessionID cd) tok now' = (res, m')"
  shows "auth_inv m' cs'"
proof -
  let ?sid = "code_SessionID cd"
  have cs: "cs k = Some cd" "cs' = cs(k := None)" using Consume_okD [OF c] by auto
  have inv': "auth_inv m cs'" by (rule auth_inv_Consume [OF inv c])
  have "Inl k \<in> creds m cs ?sid" using cs by (auto simp: creds_def)
  then have only: "x \<in> creds m cs ?sid \<Longrightarrow> x = Inl k" for x
    using inv unfolding auth_inv_def one_cred_def by blast
  have none: "\<not> live_token m ?sid t" "cs' k' = Some c' \<Longrightarrow> code_SessionID c' \<noteq> ?sid" for t k' c'
    using only [of "Inr t"] only [of "Inl k'"] cs by (auto simp: creds_def split: if_splits)
  have "store_inv m'" using IssueRefresh_inv [of m ?sid tok now'] inv i by (simp add: auth_inv_def)
  moreover have "codes_ok m' cs'"
    using inv' IssueRefresh_effect(1) [OF i] by (auto simp: auth_inv_def intro: codes_ok_keeps)
  moreover have "one_cred m' cs'"
  proof (rule one_cred_replace [of m cs' _ _ ?sid "Inr tok"])
    show "one_cred m cs'" using inv' by (simp add: auth_inv_def)
    show "creds m' cs' ?sid \<subseteq> {Inr tok}"
      using none IssueRefresh_effect(2) [OF i] unfolding creds_def by blast
    show "creds m' cs' sid' \<subseteq> creds m cs' sid'" if "sid' \<noteq> ?sid" for sid'
      using that IssueRefresh_effect(2) [OF i] unfolding creds_def by blast
  qed
  ultimately show ?thesis by (simp add: auth_inv_def)
qed

lemma auth_inv_Rotate:
  assumes inv: "auth_inv m cs" and rot: "Rotate m old new now = (res, m')"
  shows "auth_inv m' cs"
proof (cases res)
  case (Inl e)
  with rot show ?thesis
    using Rotate_err_effect [of m old new now e m'] Rotate_inv [of m old new now] inv
    by (intro auth_inv_shrink [OF inv]) (auto simp: auth_inv_def)
next
  case (Inr s)
  with rot have rot': "Rotate m old new now = (Inr s, m')" by simp
  have si: "store_inv m" "one_cred m cs" using inv by (simp_all add: auth_inv_def)
  note eff = Rotate_ok_effect [OF si(1) rot']
  have "Inr old \<in> creds m cs (sess_ID s)" using eff(2) by (simp add: creds_def)
  then have only: "x \<in> creds m cs (sess_ID s) \<Longrightarrow> x = Inr old" for x
    using si(2) unfolding one_cred_def by blast
  have none: "live_token m (sess_ID s) t \<Longrightarrow> t = old" "cs k' = Some c' \<Longrightarrow> code_SessionID c' \<noteq> sess_ID s" for t k' c'
    using only [of "Inr t"] only [of "Inl k'"] by (auto simp: creds_def)
  have "store_inv m'" using Rotate_inv [OF si(1), of old new now] rot by simp
  moreover have "codes_ok m' cs"
    using inv eff(1) by (auto simp: auth_inv_def intro: codes_ok_keeps)
  moreover have "one_cred m' cs"
  proof (rule one_cred_replace [OF si(2), of _ _ "sess_ID s" "Inr new"])
    show "creds m' cs (sess_ID s) \<subseteq> {Inr new}" using none eff(3) unfolding creds_def by blast
    show "creds m' cs sid' \<subseteq> creds m cs sid'" if "sid' \<noteq> sess_ID s" for sid'
      using that eff(3) unfolding creds_def by blast
  qed
  ultimately show ?thesis by (simp add: auth_inv_def)
qed

lemma auth_inv_Revoke:
  assumes "auth_inv m cs" and "Revoke m sid now = (res, m')"
  shows "auth_inv m' cs"
  using assms Revoke_effect [OF assms(2)] Revoke_inv [of m sid now]
  by (intro auth_inv_shrink [OF assms(1)]) (auto simp: auth_inv_def)

lemma auth_inv_revokeSession:
  "server_inv s \<Longrightarrow> server_inv (revokeSession s sid now da)"
  by (auto simp: server_inv_auth revokeSession_def intro: auth_inv_Revoke split: prod.splits sum.splits)

lemma authorize_enrolled_inv:
  assumes "server_inv s" shows "server_inv (snd (authorize_enrolled cf s req label dr))"
proof (cases "NewSessionID (ad_sid dr)")
  case (Some sid)
  let ?x = "enrolled_session sid label req (ad_now dr)"
  obtain res m where c: "Create (sv_sessions s) (Some ?x) = (res, m)" by force
  obtain ires cs where i: "Issue (sv_codes s) (authorization_code sid label req) (ad_code dr) (ad_issue dr) = (ires, cs)"
    by force
  show ?thesis
  proof (cases res)
    case (Inr u)
    then have "auth_inv m (sv_codes s)" "auth_inv m cs"
      using auth_inv_Create [OF _ c] auth_inv_enroll [OF _ _ i, of "sv_sessions s" ?x m] assms c
      by (simp_all add: server_inv_auth authorization_code_def enrolled_session_def)
    then show ?thesis using Some c i Inr
      by (cases ires) (simp_all add: authorize_enrolled_def server_inv_auth Let_def)
  qed (use Some c assms in \<open>simp add: authorize_enrolled_def\<close>)
qed (use assms in \<open>simp add: authorize_enrolled_def\<close>)

lemma handleAuthorize_inv:
  assumes "server_inv s" shows "server_inv (snd (handleAuthorize cf s meth addr f dr))"
proof -
  have "server_inv (s\<lparr>sv_enroll := en\<rparr>)" for en using assms by (simp add: server_inv_auth)
  then show ?thesis
    using assms authorize_enrolled_inv
    by (auto simp: handleAuthorize_def authorizePOST_def split: option.splits sum.splits prod.splits)
qed

lemma GetD: "Get m sid = Inr x \<Longrightarrow> st_sessions m sid = Some x"
  by (auto simp: Get_def split: option.splits)

lemma tokenFromCode_inv:
  assumes inv: "server_inv s" shows "server_inv (snd (tokenFromCode cf s f dr))"
proof -
  obtain res cs where c: "Consume (al_sha (cf_lib cf)) (sv_codes s) (f ''code'') (f ''code_verifier'')
      (f ''redirect_uri'') (f ''client_id'') (td_consume dr) = (res, cs)" by force
  have cs: "auth_inv (sv_sessions s) cs" using auth_inv_Consume [OF _ c] inv by (simp add: server_inv_auth)
  show ?thesis
  proof (cases res)
    case (Inl e) then show ?thesis using c cs inv by (simp add: tokenFromCode_def server_inv_auth)
  next
    case (Inr cd)
    show ?thesis
    proof (cases "Get (sv_sessions s) (code_SessionID cd)")
      case (Inl e)
      then show ?thesis using c cs inv Inr by (simp add: tokenFromCode_def server_inv_auth)
    next
      case get: (Inr sess)
      then have "sess_ID sess = code_SessionID cd"
        using inv GetD store_inv_sid by (auto simp: server_inv_def)
      then have "auth_inv m cs" if "IssueRefresh (sv_sessions s) (sess_ID sess) tok now = (r, m)" for tok now r m
        using auth_inv_exchange [OF _ _ that [simplified \<open>sess_ID sess = code_SessionID cd\<close>]] c Inr inv
        by (auto simp: server_inv_auth)
      then have "auth_inv (snd (firstRefresh (sv_sessions s) (sess_ID sess) rnd now)) cs" for rnd now
        using cs by (auto simp: firstRefresh_def split: option.splits prod.splits sum.splits)
      then have "server_inv (snd (grant_from_session cf (s\<lparr>sv_codes := cs\<rparr>) sess dr))"
        using cs by (auto simp: grant_from_session_def server_inv_auth split: sum.splits prod.splits option.splits)
          (metis snd_conv)+
      then show ?thesis using c cs inv Inr get by (simp add: tokenFromCode_def server_inv_auth Let_def)
    qed
  qed
qed

lemma tokenFromRefresh_inv:
  assumes inv: "server_inv s" shows "server_inv (snd (tokenFromRefresh cf s f dr))"
  using inv by (auto simp: tokenFromRefresh_def server_inv_auth Let_def intro: auth_inv_Rotate
      split: option.splits prod.splits sum.splits)

lemma server_step_inv: "server_inv s \<Longrightarrow> server_inv (server_step cf s x)"
proof (cases x)
  case (ReqRevoke meth f dr)
  assume inv: "server_inv s"
  have "server_inv (s\<lparr>sv_sessions := m\<rparr>)" if "Rotate (sv_sessions s) old new now = (r, m)" for old new now r m
    using auth_inv_Rotate [OF _ that] inv by (simp add: server_inv_auth)
  then show ?thesis using inv ReqRevoke auth_inv_revokeSession
    by (auto simp: handleRevoke_def split: option.splits prod.splits sum.splits)
next
  case (ReqMCP token now)
  assume "server_inv s"
  then show ?thesis using ReqMCP by (simp add: server_inv_auth)
qed (auto simp: handleAuthorize_inv handleToken_def tokenFromCode_inv tokenFromRefresh_inv Let_def
    split: option.splits)

interpretation server: op_system "server_step cf" "\<lambda>s x. True" server_inv for cf
  by unfold_locales (rule server_step_inv)

lemma new_server_inv: "server_inv (new_server en)"
  using NewMemoryStore_inv
  by (simp add: server_inv_def new_server_def codes_ok_def NewCodeStore_def one_cred_def
      creds_def live_token_def NewMemoryStore_def)

section \<open>Sessions come from enrollment\<close>

lemma parseAuthRequest_okD:
  assumes "parseAuthRequest cf q = Inr req"
  shows "ValidateRedirectURI (al_parse (cf_lib cf)) (ar_RedirectURI req) = None"
    and "ar_RedirectURI req = q ''redirect_uri''" and "ar_Challenge req \<noteq> []"
    and "ar_Challenge req = q ''code_challenge''" and "ar_ClientID req = q ''client_id''"
    and "set (ar_Scopes req) \<subseteq> set AllScopes"
  using assms by (auto simp: parseAuthRequest_def Let_def knownScope_def list_ex_iff find_None_iff
      split: option.splits if_splits)

lemma ValidateRedirectURI_parses: "ValidateRedirectURI parse u = None \<Longrightarrow> parse u \<noteq> None"
  by (auto simp: ValidateRedirectURI_def split: option.splits if_splits)

lemma store_same_dom:
  "Rotate m old new now = (r, m') \<Longrightarrow> st_sessions m' k = None \<longleftrightarrow> st_sessions m k = None"
  "Revoke m sid now = (u, m') \<Longrightarrow> st_sessions m' k = None \<longleftrightarrow> st_sessions m k = None"
  "IssueRefresh m sid tok now = (u, m') \<Longrightarrow> st_sessions m' k = None \<longleftrightarrow> st_sessions m k = None"
  by (auto simp: Rotate_def Revoke_def IssueRefresh_def Let_def split: option.splits if_splits)

lemma revokeSession_same_dom:
  "st_sessions (sv_sessions (revokeSession s sid now da)) k = None \<longleftrightarrow> st_sessions (sv_sessions s) k = None"
  by (auto simp: revokeSession_def store_same_dom split: prod.splits sum.splits)

definition same_dom :: "server_state \<Rightarrow> server_state \<Rightarrow> bool" where
  "same_dom s s' \<longleftrightarrow> (\<forall>k. st_sessions (sv_sessions s') k = None \<longleftrightarrow> st_sessions (sv_sessions s) k = None)"

lemma firstRefresh_same_dom:
  "st_sessions (snd (firstRefresh m sid rnd now)) k = None \<longleftrightarrow> st_sessions m k = None"
  by (auto simp: firstRefresh_def store_same_dom(3) split: option.splits prod.splits sum.splits)

lemma grant_same_dom: "same_dom s (snd (grant_from_session cf s sess dr))"
  using firstRefresh_same_dom [of "sv_sessions s" "sess_ID sess" "td_refresh dr" "td_now dr"]
  by (auto simp: grant_from_session_def same_dom_def split: sum.splits prod.splits option.splits)

lemma tokenFromCode_same_dom: "same_dom s (snd (tokenFromCode cf s f dr))"
  using grant_same_dom
  by (auto simp: tokenFromCode_def same_dom_def Let_def split: prod.split sum.split)

lemma tokenFromRefresh_same_dom: "same_dom s (snd (tokenFromRefresh cf s f dr))"
  using store_same_dom(1)
  by (auto simp: tokenFromRefresh_def same_dom_def Let_def split: option.split prod.split sum.split)

lemma token_same_dom:
  "st_sessions (sv_sessions (snd (handleToken cf s meth f dr))) k = None \<longleftrightarrow> st_sessions (sv_sessions s) k = None"
  using tokenFromCode_same_dom [of s cf "the f" dr] tokenFromRefresh_same_dom [of s cf "the f" dr]
  by (cases f) (simp_all add: handleToken_def same_dom_def Let_def)

lemma revoke_same_dom:
  "st_sessions (sv_sessions (snd (handleRevoke cf s meth f dr))) k = None \<longleftrightarrow> st_sessions (sv_sessions s) k = None"
  by (auto simp: handleRevoke_def revokeSession_same_dom store_same_dom
      split: option.splits prod.splits sum.splits if_splits)

lemma EnrollVerify_okD:
  assumes "EnrollVerify argon sha e source g now = (Inr u, e')"
  shows "secret_ok argon e g" and "fst (verify_begin e (hashSource sha source) now) = Inr ()"
  using assms by (auto simp: EnrollVerify_def verify_begin_def verify_finish_def secret_ok_def Let_def
      split: if_splits)

lemma authorize_new_session:
  assumes "st_sessions (sv_sessions (snd (handleAuthorize cf s meth addr f dr))) k \<noteq> None"
    and "st_sessions (sv_sessions s) k = None"
  shows "\<exists>q req e. meth = ''POST'' \<and> f = Some q \<and> parseAuthRequest cf q = Inr req \<and>
     EnrollVerify (al_argon (cf_lib cf)) (al_sha (cf_lib cf)) (sv_enroll s) addr (q ''enrollment_token'')
       (ad_enroll dr) = (Inr (), e)"
  using assms by (auto simp: handleAuthorize_def authorizePOST_def SourceFromRequest_def
      split: option.splits prod.splits sum.splits if_splits)

section \<open>A concrete configuration\<close>

definition form_of :: "(string \<times> string) list \<Rightarrow> form" where
  "form_of kvs k = (case map_of kvs k of None \<Rightarrow> [] | Some v \<Rightarrow> v)"

definition demo_lib :: auth_lib where
  "demo_lib = \<lparr>al_jose = demo_jose, al_sha = id, al_argon = (\<lambda>p s. p),
     al_parse = (\<lambda>u. Some \<lparr>url_Scheme = ''https'', url_Host = u, url_Hostname = u, url_Fragment = []\<rparr>),
     al_quote = id\<rparr>"

definition demo_cfg :: server_cfg where
  "demo_cfg = \<lparr>cf_lib = demo_lib, cf_issuer = demo_issuer, cf_form = True\<rparr>"

definition demo_request :: form where
  "demo_request = form_of [(''redirect_uri'', ''https://c/cb''), (''client_id'', ''c''),
     (''response_type'', ''code''), (''code_challenge_method'', ''S256''),
     (''code_challenge'', b64 (replicate 43 CHR ''v'')), (''enrollment_token'', ''secret'')]"

definition demo_draws :: authorize_draws where
  "demo_draws = \<lparr>ad_enroll = 0, ad_now = 0, ad_sid = Some ''1'', ad_code = Some ''k1'', ad_issue = 0\<rparr>"

definition demo_req :: auth_request where
  "demo_req = \<lparr>ar_ClientID = ''c'', ar_RedirectURI = ''https://c/cb'', ar_State = [],
     ar_Challenge = b64 (replicate 43 CHR ''v''), ar_Resource = [], ar_Scopes = MinimumScopes\<rparr>"

lemma demo_parse: "parseAuthRequest demo_cfg demo_request = Inr demo_req"
  by (simp add: parseAuthRequest_def demo_cfg_def demo_lib_def demo_request_def demo_req_def form_of_def
      ValidateRedirectURI_def trim_space_def trim_right_by_def is_space_def to_lower_def to_lower_char_def
      NormalizeScopes_def str_fields_def MinimumScopes_def AllScopes_def knownScope_def)

definition demo_enrolled :: server_state where
  "demo_enrolled = snd (authorizePOST demo_cfg (new_server demo_enrollment) ''peer'' (Some demo_request) demo_draws)"

lemma demo_EnrollVerify:
  "\<exists>en. EnrollVerify (al_argon demo_lib) (al_sha demo_lib) demo_enrollment (SourceFromRequest (Some ''peer''))
     (demo_request ''enrollment_token'') 0 = (Inr (), en)"
  by (simp add: enroll_defs demo_enrollment_def demo_lib_def demo_request_def form_of_def zero_time_def
      trim_space_def trim_right_by_def is_space_def)

lemma authorize_enrolled_ok:
  assumes "ad_sid dr = Some rid" and "ad_code dr = Some k"
    and "st_sessions (sv_sessions s) (''sess_'' @ rid) = None"
    and "al_parse (cf_lib cf) (ar_RedirectURI req) \<noteq> None"
    and "x = enrolled_session (''sess_'' @ rid) label req (ad_now dr)"
  shows "authorize_enrolled cf s req label dr =
     (RespRedirect (ar_RedirectURI req)
        ([(''code'', k)] @ (if ar_State req \<noteq> [] then [(''state'', ar_State req)] else []) @
         [(''iss'', base_url cf)]),
      s\<lparr>sv_sessions := (sv_sessions s)\<lparr>st_sessions := (st_sessions (sv_sessions s))(''sess_'' @ rid \<mapsto> x)\<rparr>,
        sv_codes := snd (Issue (sv_codes s) (authorization_code (''sess_'' @ rid) label req) (Some k) (ad_issue dr))\<rparr>)"
  using assms by (simp add: authorize_enrolled_def NewSessionID_def Create_def enrolled_session_def Issue_def Let_def)

lemma demo_authorize:
  "fst (authorizePOST demo_cfg (new_server demo_enrollment) ''peer'' (Some demo_request) demo_draws) =
     RespRedirect ''https://c/cb'' [(''code'', ''k1''), (''iss'', ''https://w'')]"
  "st_sessions (sv_sessions demo_enrolled) ''sess_1'' \<noteq> None"
proof -
  obtain en where en: "EnrollVerify (al_argon demo_lib) (al_sha demo_lib) demo_enrollment
      (SourceFromRequest (Some ''peer'')) (demo_request ''enrollment_token'') 0 = (Inr (), en)"
    using demo_EnrollVerify by blast
  let ?s = "(new_server demo_enrollment)\<lparr>sv_enroll := en\<rparr>"
  have "authorizePOST demo_cfg (new_server demo_enrollment) ''peer'' (Some demo_request) demo_draws =
      authorize_enrolled demo_cfg ?s demo_req (session_label (demo_request ''label'')) demo_draws"
    using demo_parse en
    by (simp add: authorizePOST_def demo_cfg_def new_server_def demo_draws_def)
  then have eq: "authorizePOST demo_cfg (new_server demo_enrollment) ''peer'' (Some demo_request) demo_draws =
     (RespRedirect ''https://c/cb'' [(''code'', ''k1''), (''iss'', ''https://w'')],
      ?s\<lparr>sv_sessions := (sv_sessions ?s)\<lparr>st_sessions := (st_sessions (sv_sessions ?s))(''sess_1'' \<mapsto>
            enrolled_session ''sess_1'' (session_label (demo_request ''label'')) demo_req 0)\<rparr>,
        sv_codes := snd (Issue (sv_codes ?s) (authorization_code ''sess_1''
            (session_label (demo_request ''label'')) demo_req) (Some ''k1'') 0)\<rparr>)"
    using authorize_enrolled_ok [of demo_draws "''1''" "''k1''" ?s demo_cfg demo_req _ "session_label (demo_request ''label'')", OF _ _ _ _ refl]
    by (simp add: demo_draws_def new_server_def NewMemoryStore_def demo_cfg_def demo_lib_def demo_req_def base_url_def
        demo_issuer_def trim_right_def trim_right_by_def)
  then show "fst (authorizePOST demo_cfg (new_server demo_enrollment) ''peer'' (Some demo_request) demo_draws) =
     RespRedirect ''https://c/cb'' [(''code'', ''k1''), (''iss'', ''https://w'')]" by simp
  show "st_sessions (sv_sessions demo_enrolled) ''sess_1'' \<noteq> None" unfolding demo_enrolled_def eq by simp
qed

section \<open>Properties\<close>

text \<open>C13. One credential per session, always. In every state the server can reach, by any requests with
  any clock readings and any random draws, a session has at most one thing that can be redeemed
  for tokens: one outstanding authorization code, or one live refresh token, and never both.\<close>

theorem one_credential_per_session:
  "let s = run (server_step cf) (new_server en) ops in
     \<nexists>sid x y. x \<in> creds (sv_sessions s) (sv_codes s) sid \<and> y \<in> creds (sv_sessions s) (sv_codes s) sid \<and> x \<noteq> y"
  using server.run_inv [OF new_server_inv, of cf en ops]
  unfolding Let_def server_inv_def one_cred_def by auto

text \<open>C14. Only the enrollment secret creates sessions. Whatever request is handled, a session that was
  not there before comes from a POST to the authorization endpoint with a valid authorization
  request, from a source that was not locked out, presenting the operator's secret.\<close>

theorem sessions_need_the_secret:
  assumes "st_sessions (sv_sessions (server_step cf s x)) sid \<noteq> None"
    and "st_sessions (sv_sessions s) sid = None"
  shows "\<exists>addr q dr. x = ReqAuthorize ''POST'' addr (Some q) dr \<and>
     (\<exists>req. parseAuthRequest cf q = Inr req) \<and>
     secret_ok (al_argon (cf_lib cf)) (sv_enroll s) (q ''enrollment_token'') \<and>
     fst (verify_begin (sv_enroll s) (hashSource (al_sha (cf_lib cf)) addr) (ad_enroll dr)) = Inr ()"
proof (cases x)
  case (ReqAuthorize meth addr f dr)
  then have "st_sessions (sv_sessions (snd (handleAuthorize cf s meth addr f dr))) sid \<noteq> None"
    using assms(1) by simp
  from authorize_new_session [OF this assms(2)] obtain q req e where
      q: "meth = ''POST''" "f = Some q" "parseAuthRequest cf q = Inr req"
      and v: "EnrollVerify (al_argon (cf_lib cf)) (al_sha (cf_lib cf)) (sv_enroll s) addr (q ''enrollment_token'')
        (ad_enroll dr) = (Inr (), e)"
    by (elim exE conjE)
  show ?thesis using ReqAuthorize q EnrollVerify_okD [OF v] by simp
qed (use assms token_same_dom revoke_same_dom in simp_all)

theorem sessions_need_the_secret_witness:
  "\<exists>addr q dr. ReqAuthorize ''POST'' ''peer'' (Some demo_request) demo_draws = ReqAuthorize ''POST'' addr (Some q) dr \<and>
     secret_ok (al_argon (cf_lib demo_cfg)) demo_enrollment (q ''enrollment_token'')"
  using sessions_need_the_secret [of demo_cfg "new_server demo_enrollment"
      "ReqAuthorize ''POST'' ''peer'' (Some demo_request) demo_draws" "''sess_1''"] demo_authorize
  by (simp add: handleAuthorize_def new_server_def NewMemoryStore_def demo_enrolled_def)

text \<open>C15. No open redirect. Whenever the authorization endpoint answers with a redirect, for success or
  to report an error, its target is the \<open>redirect_uri\<close> of the request and that target passes the
  structural rule; a request whose target fails the rule is answered in place.\<close>

theorem no_open_redirect:
  assumes "fst (handleAuthorize cf s meth addr (Some q) dr) = RespRedirect target params"
  shows "target = q ''redirect_uri'' \<and> ValidateRedirectURI (al_parse (cf_lib cf)) target = None"
proof -
  have err: "parseAuthRequest cf q = Inl e \<Longrightarrow> authorizeError cf e = RespRedirect t p \<Longrightarrow>
      t = q ''redirect_uri'' \<and> ValidateRedirectURI (al_parse (cf_lib cf)) t = None" for e t p
    by (auto simp: parseAuthRequest_def authorizeError_def Let_def
        split: option.splits if_splits prod.splits)
  have enr: "fst (authorize_enrolled cf s' req l dr) = RespRedirect t p \<Longrightarrow> t = ar_RedirectURI req" for s' req l t p
    by (auto simp: authorize_enrolled_def Let_def split: option.splits sum.splits prod.splits if_splits)
  consider (get) "meth = ''GET''" | (post) "meth = ''POST''"
    using assms by (auto simp: handleAuthorize_def split: if_splits)
  then show ?thesis
  proof cases
    case get
    then show ?thesis using assms err
      by (auto simp: handleAuthorize_def authorizeGET_def split: sum.splits if_splits)
  next
    case post
    show ?thesis
    proof (cases "parseAuthRequest cf q")
      case (Inl e) then show ?thesis using assms post err by (simp add: handleAuthorize_def authorizePOST_def)
    next
      case (Inr req)
      then have "target = ar_RedirectURI req" using assms post enr
        by (auto simp: handleAuthorize_def authorizePOST_def split: sum.splits prod.splits if_splits)
      then show ?thesis using parseAuthRequest_okD(1,2) [OF Inr] by simp
    qed
  qed
qed

theorem no_open_redirect_witness:
  "ValidateRedirectURI (al_parse (cf_lib demo_cfg)) ''https://c/cb'' = None"
proof -
  have "fst (handleAuthorize demo_cfg (new_server demo_enrollment) ''POST'' ''peer'' (Some demo_request) demo_draws) =
      RespRedirect ''https://c/cb'' [(''code'', ''k1''), (''iss'', ''https://w'')]"
    using demo_authorize(1) by (simp add: handleAuthorize_def)
  from no_open_redirect [OF this] show ?thesis by (rule conjunct2)
qed

end
