(* ===== verification/OAuth_Grants.thy ===== *)
theory OAuth_Grants
  imports OAuth_Flow
begin

text \<open>
  What the token and revocation endpoints promise: the whole authorization-code flow from the
  enrollment form to a working access token, the detection of a replayed refresh token, and
  revocation.
\<close>

section \<open>Helpers\<close>

lemma known_scopes_are_words:
  "set scopes \<subseteq> set AllScopes \<Longrightarrow> \<forall>w \<in> set scopes. w \<noteq> [] \<and> (\<forall>c \<in> set w. \<not> is_space c)"
  by (auto simp: AllScopes_def ScopeRead_def ScopeRaw_def ScopeAdmin_def is_space_def)

lemma denied_after_add:
  "sid \<noteq> [] \<Longrightarrow> t \<le> now + dl_ttl d \<Longrightarrow> fst (Denied (DenyAdd d sid now) sid t)"
  by (simp add: deny_defs)

lemma dead_family: "store_inv m \<Longrightarrow> dead m sid \<Longrightarrow> \<nexists>t. live_token m sid t"
  using dead_not_live by blast

lemma dead_ne: "store_inv m \<Longrightarrow> dead m sid \<Longrightarrow> sid \<noteq> []"
  using store_inv_id by (auto simp: dead_def)

text \<open>The server with one session whose first refresh token was exchanged once.\<close>

definition demo_rotated :: server_state where
  "demo_rotated = (new_server demo_enrollment)\<lparr>sv_sessions := store_run demo_store [OpRotate ''r1'' ''r2'' 5]\<rparr>"

lemma demo_rotated_store:
  "sv_sessions demo_rotated = store_run NewMemoryStore [OpCreate (Some demo_session),
     OpIssueRefresh ''s1'' ''r1'' 1, OpRotate ''r1'' ''r2'' 5]"
  by (simp add: demo_rotated_def demo_store_def)

lemma demo_rotated_tokens:
  "live_token (sv_sessions demo_rotated) sid t \<longleftrightarrow> sid = ''s1'' \<and> t = ''r2''"
  "spent_token (sv_sessions demo_rotated) ''s1'' ''r1''"
  by (auto simp: demo_rotated_store demo_session_def NewMemoryStore_def store_defs token_defs RefreshTTL_def
      hour_def)

lemma demo_rotated_inv: "server_inv demo_rotated"
proof -
  have "store_inv (sv_sessions demo_rotated)"
    unfolding demo_rotated_store by (rule store_inv_runs [OF NewMemoryStore_inv])
  moreover have "sv_codes demo_rotated = Map.empty"
    by (simp add: demo_rotated_def new_server_def NewCodeStore_def)
  ultimately show ?thesis
    by (auto simp: server_inv_def codes_ok_def one_cred_def creds_def demo_rotated_tokens)
qed

definition demo_token_draws :: token_draws where
  "demo_token_draws = \<lparr>td_consume = 9, td_active = 9, td_mint = 9, td_jti = Some ''j'', td_refresh = Some ''r9'',
     td_now = 9, td_deny = 9, td_until = 9\<rparr>"

section \<open>Properties\<close>

text \<open>C17. Theft is detected at the token endpoint. Presenting a refresh token that was already exchanged
  is answered with \<open>invalid_grant\<close>, like every other bad token, and afterwards the session is
  revoked, none of its refresh tokens is live, and the denylist refuses its access tokens for a
  whole access-token lifetime.\<close>

theorem refresh_replay_at_endpoint:
  assumes "server_inv s" and "spent_token (sv_sessions s) sid (q ''refresh_token'')"
    and "q ''grant_type'' = ''refresh_token''" and "q ''refresh_token'' \<noteq> []" and "\<not> other_resource cf q"
    and "td_refresh dr = Some nxt" and "sv_deny s = Some d"
    and "handleToken cf s ''POST'' (Some q) dr = (resp, s')"
  shows "resp = RespOAuthError 400 ''invalid_grant'' ''refresh token is not valid'' \<and>
     dead (sv_sessions s') sid \<and> (\<nexists>t. live_token (sv_sessions s') sid t) \<and>
     (\<exists>d'. sv_deny s' = Some d' \<and> (\<forall>t. td_deny dr < t \<and> t \<le> td_deny dr + dl_ttl d \<longrightarrow> fst (Denied d' sid t)))"
proof -
  have inv: "store_inv (sv_sessions s)" using assms(1) by (simp add: server_inv_def)
  obtain m where m: "Rotate (sv_sessions s) (q ''refresh_token'') nxt (td_now dr) = (Inl (ReuseError sid), m)"
      "dead m sid"
    using Rotate_replay [OF inv assms(2)] by blast
  have "store_inv m" using Rotate_inv [OF inv] m(1) by (metis snd_conv)
  then have "\<nexists>t. live_token m sid t" "sid \<noteq> []" using dead_family dead_ne m(2) by blast+
  moreover have "resp = RespOAuthError 400 ''invalid_grant'' ''refresh token is not valid''"
      "sv_sessions s' = m" "sv_deny s' = Some (DenyAdd d sid (td_deny dr))"
    using assms(3-8) m(1) by (auto simp: handleToken_def tokenFromRefresh_def Let_def deny_add_def)
  ultimately show ?thesis using m(2) denied_after_add by auto
qed

theorem refresh_replay_at_endpoint_witness:
  "dead (sv_sessions (snd (handleToken demo_cfg demo_rotated ''POST''
      (Some (form_of [(''grant_type'', ''refresh_token''), (''refresh_token'', ''r1'')])) demo_token_draws))) ''s1''"
  using refresh_replay_at_endpoint [OF demo_rotated_inv, of "''s1''"
      "form_of [(''grant_type'', ''refresh_token''), (''refresh_token'', ''r1'')]" demo_cfg demo_token_draws "''r9''" NewDenylist]
    demo_rotated_tokens(2)
  by (simp add: form_of_def other_resource_def demo_token_draws_def) 
    (simp add: demo_rotated_def new_server_def prod_eq_iff)

text \<open>The revocation endpoint is no oracle: a POST that carries any token at all, valid, expired,
  spent or invented, gets the same empty 200 in every state of the server.\<close>

theorem revoke_is_no_oracle:
  assumes "q ''token'' \<noteq> []"
  shows "fst (handleRevoke cf s ''POST'' (Some q) dr) = RespOK"
  using assms by (auto simp: handleRevoke_def split: sum.split option.split prod.split)

theorem revoke_is_no_oracle_witness:
  "fst (handleRevoke demo_cfg demo_rotated ''POST'' (Some (form_of [(''token'', ''nonsense'')]))
     \<lparr>rv_now = 9, rv_verify = 9, rv_rnd = None, rv_deny = 9\<rparr>) = RespOK"
  by (rule revoke_is_no_oracle) (simp add: form_of_def)

text \<open>Revoking a valid access token ends its session: the session is revoked with its whole family of
  refresh tokens and denied for an access-token lifetime.\<close>

theorem revoke_access_token:
  assumes "server_inv s" and "q ''token'' \<noteq> []"
    and "IssuerVerify (al_jose (cf_lib cf)) (cf_issuer cf) (q ''token'') (rv_verify dr) = Inr c"
    and "st_sessions (sv_sessions s) (cl_SID c) \<noteq> None" and "sv_deny s = Some d"
    and "handleRevoke cf s ''POST'' (Some q) dr = (resp, s')"
  shows "resp = RespOK \<and> dead (sv_sessions s') (cl_SID c) \<and> (\<nexists>t. live_token (sv_sessions s') (cl_SID c) t) \<and>
     (\<exists>d'. sv_deny s' = Some d' \<and> (\<forall>t. rv_deny dr < t \<and> t \<le> rv_deny dr + dl_ttl d \<longrightarrow> fst (Denied d' (cl_SID c) t)))"
proof -
  have inv: "store_inv (sv_sessions s)" using assms(1) by (simp add: server_inv_def)
  obtain x where x: "st_sessions (sv_sessions s) (cl_SID c) = Some x" using assms(4) by auto
  then obtain m where m: "Revoke (sv_sessions s) (cl_SID c) (rv_now dr) = (Inr (), m)" "dead m (cl_SID c)"
    by (simp add: Revoke_def dead_def)
  have "store_inv m" using Revoke_inv [OF inv] m(1) by (metis snd_conv)
  then have "\<nexists>t. live_token m (cl_SID c) t" "cl_SID c \<noteq> []" using dead_family dead_ne m(2) by blast+
  moreover from this have "resp = RespOK" "sv_sessions s' = m" "sv_deny s' = Some (DenyAdd d (cl_SID c) (rv_deny dr))"
    using assms(2,3,5,6) m(1) by (auto simp: handleRevoke_def revokeSession_def deny_add_def)
  ultimately show ?thesis using m(2) denied_after_add by auto
qed

lemma demo_verifies: "IssuerVerify demo_jose demo_issuer demo_token 9 = Inr demo_claims"
  using Mint_verifies [OF demo_mint, of demo_issuer 9] demo_jose_ok
  by (simp add: demo_issuer_def NewKeyring_def KeyVerifier_def of_unix_def unix_of_def AccessTokenTTL_def
      minute_def)

definition demo_revoke_draws :: revoke_draws where
  "demo_revoke_draws = \<lparr>rv_now = 9, rv_verify = 9, rv_rnd = Some ''r9'', rv_deny = 9\<rparr>"

theorem revoke_access_token_witness:
  "dead (sv_sessions (snd (handleRevoke demo_cfg demo_rotated ''POST'' (Some (form_of [(''token'', demo_token)]))
     demo_revoke_draws))) ''s1''"
proof -
  have sid: "cl_SID demo_claims = ''s1''" by (simp add: demo_claims_def mint_claims_def)
  have "st_sessions (sv_sessions demo_rotated) ''s1'' \<noteq> None"
    using demo_rotated_tokens(2) store_inv_tok [of "sv_sessions demo_rotated"] demo_rotated_inv
    by (fastforce simp: spent_token_def server_inv_def)
  moreover have "demo_token \<noteq> []" by (simp add: demo_token_def token_sign_def Let_def)
  ultimately show ?thesis
    using revoke_access_token [OF demo_rotated_inv, of "form_of [(''token'', demo_token)]" demo_cfg
        demo_revoke_draws demo_claims NewDenylist] demo_verifies sid
    by (simp add: form_of_def demo_revoke_draws_def demo_cfg_def demo_lib_def)
      (simp add: demo_rotated_def new_server_def prod_eq_iff)
qed

text \<open>Revoking with the current refresh token ends its session in the same way; the successor the
  handler draws to identify the session dies with the family.\<close>

theorem revoke_refresh_token:
  assumes "server_inv s" and "q ''token'' \<noteq> []"
    and "IssuerVerify (al_jose (cf_lib cf)) (cf_issuer cf) (q ''token'') (rv_verify dr) = Inl e"
    and "good_token (sv_sessions s) sid (q ''token'') ex n" and "rv_now dr \<le> ex"
    and "rv_rnd dr = Some throwaway" and "sv_deny s = Some d"
    and "handleRevoke cf s ''POST'' (Some q) dr = (resp, s')"
  shows "dead (sv_sessions s') sid \<and> (\<nexists>t. live_token (sv_sessions s') sid t) \<and>
     (\<exists>d'. sv_deny s' = Some d' \<and> (\<forall>t. rv_deny dr < t \<and> t \<le> rv_deny dr + dl_ttl d \<longrightarrow> fst (Denied d' sid t)))"
proof -
  have inv: "store_inv (sv_sessions s)" using assms(1) by (simp add: server_inv_def)
  obtain x m where m: "Rotate (sv_sessions s) (q ''token'') throwaway (rv_now dr) = (Inr x, m)" "sess_ID x = sid"
    using assms(4,5) store_inv_sid [OF inv] by (auto simp: good_token_def Rotate_def Let_def)
  have im: "store_inv m" using Rotate_inv [OF inv] m(1) by (metis snd_conv)
  have "st_sessions m sid \<noteq> None"
    using store_same_dom(1) [OF m(1), of sid] assms(4) by (auto simp: good_token_def)
  then obtain m' where m': "Revoke m sid (rv_now dr) = (Inr (), m')" "dead m' sid"
    by (auto simp: Revoke_def dead_def)
  have "store_inv m'" using Revoke_inv [OF im] m'(1) by (metis snd_conv)
  then have "\<nexists>t. live_token m' sid t" "sid \<noteq> []" using dead_family dead_ne m'(2) by blast+
  moreover from this have "sv_sessions s' = m'" "sv_deny s' = Some (DenyAdd d sid (rv_deny dr))"
    using assms(2,3,6-8) m m' by (auto simp: handleRevoke_def revokeSession_def deny_add_def)
  ultimately show ?thesis using m'(2) denied_after_add by auto
qed

lemma demo_not_access: "IssuerVerify J i ''r1'' t = Inl (MalformedSegments 1)"
    "IssuerVerify J i ''r2'' t = Inl (MalformedSegments 1)"
  by (simp_all add: IssuerVerify_def)

theorem revoke_refresh_token_witness:
  "dead (sv_sessions (snd (handleRevoke demo_cfg demo_rotated ''POST'' (Some (form_of [(''token'', ''r2'')]))
     demo_revoke_draws))) ''s1''"
proof -
  have "good_token (sv_sessions demo_rotated) ''s1'' ''r2'' (5 + RefreshTTL) 1"
    by (simp add: demo_rotated_store good_token_def demo_session_def NewMemoryStore_def store_defs
        RefreshTTL_def hour_def)
  then show ?thesis
    using revoke_refresh_token [OF demo_rotated_inv, of "form_of [(''token'', ''r2'')]" demo_cfg
        demo_revoke_draws "MalformedSegments 1" "''s1''" "5 + RefreshTTL" 1 "''r9''" NewDenylist]
    by (simp add: form_of_def demo_revoke_draws_def demo_not_access RefreshTTL_def hour_def)
      (simp add: demo_rotated_def new_server_def prod_eq_iff)
qed

text \<open>Revoking with a token that was already exchanged revokes the session in the store but leaves the
  denylist as it was, so access tokens already minted for the session keep working until they
  expire; the token endpoint denies them in the same situation.\<close>

theorem revoke_spent_token_not_denied:
  assumes "server_inv s" and "q ''token'' \<noteq> []"
    and "IssuerVerify (al_jose (cf_lib cf)) (cf_issuer cf) (q ''token'') (rv_verify dr) = Inl e"
    and "spent_token (sv_sessions s) sid (q ''token'')" and "rv_rnd dr = Some throwaway"
    and "handleRevoke cf s ''POST'' (Some q) dr = (resp, s')"
  shows "dead (sv_sessions s') sid \<and> sv_deny s' = sv_deny s"
proof -
  have "store_inv (sv_sessions s)" using assms(1) by (simp add: server_inv_def)
  from Rotate_replay [OF this assms(4), of throwaway "rv_now dr"] obtain m where
    "Rotate (sv_sessions s) (q ''token'') throwaway (rv_now dr) = (Inl (ReuseError sid), m)" "dead m sid"
    by blast
  then show ?thesis using assms by (auto simp: handleRevoke_def)
qed

theorem revoke_spent_token_not_denied_witness:
  "sv_deny (snd (handleRevoke demo_cfg demo_rotated ''POST'' (Some (form_of [(''token'', ''r1'')]))
     demo_revoke_draws)) = sv_deny demo_rotated"
  using revoke_spent_token_not_denied [OF demo_rotated_inv, of "form_of [(''token'', ''r1'')]" demo_cfg
      demo_revoke_draws "MalformedSegments 1" "''s1''" "''r9''"] demo_rotated_tokens(2)
  by (simp add: form_of_def demo_revoke_draws_def demo_not_access prod_eq_iff)

section \<open>The whole flow\<close>

lemma tokenFromCode_ok:
  assumes "\<not> other_resource cf f"
    and "Consume (al_sha (cf_lib cf)) (sv_codes s) (f ''code'') (f ''code_verifier'') (f ''redirect_uri'')
           (f ''client_id'') (td_consume dr) = (Inr cd, cs)"
    and "st_sessions (sv_sessions s) (code_SessionID cd) = Some x" and "sess_ID x = code_SessionID cd"
    and "\<not> sess_Revoked x" and "td_active dr < sess_ExpiresAt x"
    and "td_jti dr = Some jti" and "td_refresh dr = Some tok" and "tok \<noteq> []"
    and "st_refresh (sv_sessions s) tok = None"
  shows "\<exists>access c s'.
     Mint (al_jose (cf_lib cf)) (cf_issuer cf) (sess_ID x) (sess_Label x) (sess_Scopes x) (td_mint dr) (Some jti)
       = Inr (access, c) \<and>
     tokenFromCode cf s f dr = (token_reply c access tok x (td_until dr), s') \<and>
     live_token (sv_sessions s') (sess_ID x) tok"
proof -
  obtain access c where m: "Mint (al_jose (cf_lib cf)) (cf_issuer cf) (sess_ID x) (sess_Label x) (sess_Scopes x)
      (td_mint dr) (Some jti) = Inr (access, c)"
    by (simp add: Mint_def randomID_def Let_def)
  obtain m' where i: "IssueRefresh (sv_sessions s) (sess_ID x) tok (td_now dr) = (Inr (), m')"
      "live_token m' (sess_ID x) tok"
    using assms by (simp add: IssueRefresh_def live_token_def)
  then have "firstRefresh (sv_sessions s) (sess_ID x) (Some tok) (td_now dr) = (Some tok, m')"
    by (simp add: firstRefresh_def)
  then show ?thesis using assms m i
    by (simp add: tokenFromCode_def Let_def Get_def Active_def grant_from_session_def)
qed

lemma Consume_issued:
  assumes "cs = snd (Issue cs0 cd (Some k) now)" and "now' \<le> now + AuthCodeTTL"
    and "code_RedirectURI cd = r" and "code_ClientID cd = cl" and "VerifyPKCE sha (code_Challenge cd) v"
  shows "\<exists>cd' cs'. Consume sha cs k v r cl now' = (Inr cd', cs') \<and> code_SessionID cd' = code_SessionID cd"
  using assms by (simp add: Consume_def Issue_def Let_def sweepLocked_def AuthCodeTTL_def minute_def)

lemma authorizePOST_ok:
  assumes "parseAuthRequest cf q = Inr req"
    and "EnrollVerify (al_argon (cf_lib cf)) (al_sha (cf_lib cf)) (sv_enroll s) (SourceFromRequest (Some addr))
           (q ''enrollment_token'') (ad_enroll dr) = (Inr (), en)"
    and "ad_sid dr = Some rid" and "ad_code dr = Some k"
    and "st_sessions (sv_sessions s) (''sess_'' @ rid) = None"
    and "authorizePOST cf s addr (Some q) dr = (resp, s')"
  shows "\<exists>ps. resp = RespRedirect (q ''redirect_uri'') ((''code'', k) # ps)"
    and "st_sessions (sv_sessions s') (''sess_'' @ rid) =
           Some (enrolled_session (''sess_'' @ rid) (session_label (q ''label'')) req (ad_now dr))"
    and "st_refresh (sv_sessions s') = st_refresh (sv_sessions s)"
    and "sv_codes s' = snd (Issue (sv_codes s) (authorization_code (''sess_'' @ rid) (session_label (q ''label'')) req)
           (Some k) (ad_issue dr))"
proof -
  have "al_parse (cf_lib cf) (ar_RedirectURI req) \<noteq> None"
    using ValidateRedirectURI_parses parseAuthRequest_okD(1) [OF assms(1)] by blast
  from authorize_enrolled_ok [OF assms(3,4) _ this refl, of "s\<lparr>sv_enroll := en\<rparr>" "session_label (q ''label'')"]
  have eq: "authorizePOST cf s addr (Some q) dr =
     (RespRedirect (ar_RedirectURI req)
        ([(''code'', k)] @ (if ar_State req \<noteq> [] then [(''state'', ar_State req)] else []) @
         [(''iss'', base_url cf)]),
      s\<lparr>sv_enroll := en, sv_sessions := (sv_sessions s)\<lparr>st_sessions := (st_sessions (sv_sessions s))
          (''sess_'' @ rid \<mapsto> enrolled_session (''sess_'' @ rid) (session_label (q ''label'')) req (ad_now dr))\<rparr>,
        sv_codes := snd (Issue (sv_codes s) (authorization_code (''sess_'' @ rid) (session_label (q ''label'')) req)
          (Some k) (ad_issue dr))\<rparr>)"
    using assms(1,2,5) by (simp add: authorizePOST_def)
  note out = assms(6) [unfolded eq, symmetric]
  show "\<exists>ps. resp = RespRedirect (q ''redirect_uri'') ((''code'', k) # ps)"
    using out parseAuthRequest_okD(2) [OF assms(1)] by simp
  show "st_sessions (sv_sessions s') (''sess_'' @ rid) =
      Some (enrolled_session (''sess_'' @ rid) (session_label (q ''label'')) req (ad_now dr))"
    and "st_refresh (sv_sessions s') = st_refresh (sv_sessions s)"
    and "sv_codes s' = snd (Issue (sv_codes s) (authorization_code (''sess_'' @ rid) (session_label (q ''label'')) req)
           (Some k) (ad_issue dr))"
    using out by simp_all
qed

text \<open>C16. The authorization-code flow works end to end. A valid request with the right secret redirects to
  the client with a code; exchanging it within a minute with the PKCE verifier yields a refresh token
  that is live and an access token that verifies until its expiry, names the new session, and carries
  exactly the scopes that were requested.\<close>

theorem authorization_code_flow:
  assumes "parseAuthRequest cf q = Inr req"
    and "EnrollVerify (al_argon (cf_lib cf)) (al_sha (cf_lib cf)) (sv_enroll s) (SourceFromRequest (Some addr))
           (q ''enrollment_token'') (ad_enroll dr) = (Inr (), en)"
    and "ad_sid dr = Some rid" and "ad_code dr = Some k"
    and "st_sessions (sv_sessions s) (''sess_'' @ rid) = None"
    and "authorizePOST cf s addr (Some q) dr = (resp1, s1)"
    and "\<not> other_resource cf f" and "f ''code'' = k" and "f ''redirect_uri'' = q ''redirect_uri''"
    and "f ''client_id'' = q ''client_id''"
    and "VerifyPKCE (al_sha (cf_lib cf)) (q ''code_challenge'') (f ''code_verifier'')"
    and "td_consume td \<le> ad_issue dr + AuthCodeTTL" and "td_active td < ad_now dr + RefreshTTL"
    and "td_jti td = Some jti" and "td_refresh td = Some tok" and "tok \<noteq> []"
    and "st_refresh (sv_sessions s) tok = None" and "0 \<le> td_mint td"
    and "c = mint_claims (cf_issuer cf) (''sess_'' @ rid) (session_label (q ''label'')) (ar_Scopes req) (td_mint td) (b64 jti)"
    and "jose_ok (al_jose (cf_lib cf)) (kr_active (is_keys (cf_issuer cf))) c"
    and "tokenFromCode cf s1 f td = (resp2, s2)"
  shows "\<exists>ps r. resp1 = RespRedirect (q ''redirect_uri'') ((''code'', k) # ps) \<and> resp2 = RespToken r \<and>
     tr_RefreshToken r = tok \<and> live_token (sv_sessions s2) (''sess_'' @ rid) tok \<and>
     (t \<le> of_unix (cl_Expires c) \<longrightarrow>
        IssuerVerify (al_jose (cf_lib cf)) (cf_issuer cf) (tr_AccessToken r) t = Inr c) \<and>
     cl_SID c = ''sess_'' @ rid \<and> ti_Scopes (info_of c) = ar_Scopes req"
proof -
  let ?x = "enrolled_session (''sess_'' @ rid) (session_label (q ''label'')) req (ad_now dr)"
  let ?cd = "authorization_code (''sess_'' @ rid) (session_label (q ''label'')) req"
  note post = authorizePOST_ok [OF assms(1-6)] and req = parseAuthRequest_okD [OF assms(1)]
  obtain cd cs where cd: "Consume (al_sha (cf_lib cf)) (sv_codes s1) (f ''code'') (f ''code_verifier'')
      (f ''redirect_uri'') (f ''client_id'') (td_consume td) = (Inr cd, cs)" "code_SessionID cd = ''sess_'' @ rid"
    using Consume_issued [OF post(4) assms(12), of "q ''redirect_uri''" "q ''client_id''"
        "al_sha (cf_lib cf)" "f ''code_verifier''"] assms(8-11) req
    by (auto simp: authorization_code_def)
  have sess: "st_sessions (sv_sessions s1) (code_SessionID cd) = Some ?x" "sess_ID ?x = code_SessionID cd"
      "\<not> sess_Revoked ?x" "td_active td < sess_ExpiresAt ?x" "st_refresh (sv_sessions s1) tok = None"
    using post(2,3) cd(2) assms(13,17) by (simp_all add: enrolled_session_def)
  obtain access c' where out: "Mint (al_jose (cf_lib cf)) (cf_issuer cf) (sess_ID ?x) (sess_Label ?x) (sess_Scopes ?x)
        (td_mint td) (Some jti) = Inr (access, c')"
      "resp2 = token_reply c' access tok ?x (td_until td)" "live_token (sv_sessions s2) (sess_ID ?x) tok"
    using tokenFromCode_ok [OF assms(7) cd(1) sess(1-4) assms(14-16) sess(5)] assms(21) by auto
  have c': "c' = c" using out(1) assms(19)
    by (simp add: Mint_def randomID_def Let_def enrolled_session_def)
  have "KeyVerifier (is_keys (cf_issuer cf)) (kp_ID (kr_active (is_keys (cf_issuer cf)))) =
      Some (kp_Public (kr_active (is_keys (cf_issuer cf))))" by (simp add: KeyVerifier_def)
  from Mint_verifies [OF out(1) _ this refl refl _ assms(18), of t] MintD(5) [OF out(1)] assms(20)
  have "t \<le> of_unix (cl_Expires c) \<longrightarrow> IssuerVerify (al_jose (cf_lib cf)) (cf_issuer cf) access t = Inr c"
    by (simp add: c' enrolled_session_def)
  moreover have "ti_Scopes (info_of c) = ar_Scopes req"
    using str_fields_join [OF known_scopes_are_words [OF req(6)]] assms(19)
    by (simp add: info_of_def ClaimsScopes_def mint_claims_def)
  ultimately show ?thesis
    using post(1) out(2,3) assms(19) by (auto simp: token_reply_def mint_claims_def enrolled_session_def)
qed

definition demo_exchange :: form where
  "demo_exchange = form_of [(''code'', ''k1''), (''redirect_uri'', ''https://c/cb''), (''client_id'', ''c''),
     (''code_verifier'', replicate 43 CHR ''v'')]"

definition flow_claims :: claims where
  "flow_claims = mint_claims demo_issuer ''sess_1'' ''unnamed session'' MinimumScopes 9 (b64 ''j'')"

lemma flow_jose_ok: "jose_ok demo_jose demo_pair flow_claims"
  by (simp add: jose_ok_def demo_jose_def demo_pair_def flow_claims_def mint_claims_def demo_issuer_def
      nl_def Thumbprint_def quoted_def b64_def enc_digit_def url_alphabet_def MinimumScopes_def ScopeRead_def
      format_uint.simps digits_value_def unix_of_def AccessTokenTTL_def minute_def char_of_def bit_0)

lemma demo_request_simps:
  "demo_request ''redirect_uri'' = ''https://c/cb''" "demo_request ''client_id'' = ''c''"
  "demo_request ''code_challenge'' = b64 (replicate 43 CHR ''v'')"
  "session_label (demo_request ''label'') = ''unnamed session''"
  by (simp_all add: demo_request_def form_of_def session_label_def Let_def trim_space_def trim_right_by_def)

theorem authorization_code_flow_witness:
  "\<exists>r. fst (tokenFromCode demo_cfg demo_enrolled demo_exchange demo_token_draws) = RespToken r \<and>
     ti_Scopes (info_of flow_claims) = MinimumScopes"
proof -
  obtain en where en: "EnrollVerify (al_argon (cf_lib demo_cfg)) (al_sha (cf_lib demo_cfg))
      (sv_enroll (new_server demo_enrollment)) (SourceFromRequest (Some ''peer''))
      (demo_request ''enrollment_token'') (ad_enroll demo_draws) = (Inr (), en)"
    using demo_EnrollVerify by (auto simp: demo_cfg_def new_server_def demo_draws_def)
  obtain resp1 where r1: "authorizePOST demo_cfg (new_server demo_enrollment) ''peer'' (Some demo_request) demo_draws
      = (resp1, demo_enrolled)" by (simp add: demo_enrolled_def prod_eq_iff)
  obtain resp2 s2 where r2: "tokenFromCode demo_cfg demo_enrolled demo_exchange demo_token_draws = (resp2, s2)"
    by force
  have x: "VerifyPKCE (al_sha (cf_lib demo_cfg)) (demo_request ''code_challenge'') (demo_exchange ''code_verifier'')"
    by (simp add: demo_cfg_def demo_lib_def demo_request_simps demo_exchange_def form_of_def VerifyPKCE_iff)
  have j: "jose_ok (al_jose (cf_lib demo_cfg)) (kr_active (is_keys (cf_issuer demo_cfg))) flow_claims"
    using flow_jose_ok by (simp add: demo_cfg_def demo_lib_def demo_issuer_def NewKeyring_def)
  show ?thesis
    using authorization_code_flow [OF demo_parse en, of "''1''" "''k1''" resp1 demo_enrolled demo_exchange
        demo_token_draws "''j''" "''r9''" flow_claims resp2 s2 0, OF _ _ _ r1 _ _ _ _ x _ _ _ _ _ _ _ _ j r2] r2
    by (simp add: demo_draws_def new_server_def NewMemoryStore_def other_resource_def demo_exchange_def form_of_def
        demo_request_simps demo_token_draws_def AuthCodeTTL_def RefreshTTL_def minute_def hour_def flow_claims_def
        demo_cfg_def demo_req_def) blast
qed

end
