(* ===== verification/Netguard.thy ===== *)
theory Netguard
  imports Go_Prelude
begin

text \<open>
  The SSRF guard: \<open>internal/netguard/netguard.go\<close>. A \<open>net.IP\<close> is its list of bytes (4 or 16 of
  them), \<open>None\<close> when nil; the predicates of package \<open>net\<close> that the code calls are modelled byte
  for byte. Splitting and parsing the dialled address are arguments.
\<close>

type_synonym ip = "nat list"

section \<open>Package net\<close>

definition v4_prefix :: "nat list" where
  "v4_prefix = [0, 0, 0, 0, 0, 0, 0, 0, 0, 0, 255, 255]"

definition To4 :: "ip \<Rightarrow> ip option" where
  "To4 x = (if length x = 4 then Some x
            else if length x = 16 \<and> take 12 x = v4_prefix then Some (drop 12 x) else None)"

definition byte :: "ip \<Rightarrow> nat \<Rightarrow> nat" where
  "byte x i = (if i < length x then x ! i else 0)"

definition IsUnspecified :: "ip \<Rightarrow> bool" where
  "IsUnspecified x \<longleftrightarrow> To4 x = Some [0, 0, 0, 0] \<or> x = replicate 16 0"

definition IsLoopback :: "ip \<Rightarrow> bool" where
  "IsLoopback x \<longleftrightarrow>
     (case To4 x of Some v \<Rightarrow> byte v 0 = 127 | None \<Rightarrow> x = replicate 15 0 @ [1])"

definition IsLinkLocalUnicast :: "ip \<Rightarrow> bool" where
  "IsLinkLocalUnicast x \<longleftrightarrow>
     (case To4 x of Some v \<Rightarrow> byte v 0 = 169 \<and> byte v 1 = 254
      | None \<Rightarrow> length x = 16 \<and> byte x 0 = 254 \<and> byte x 1 div 64 = 2)"

definition IsLinkLocalMulticast :: "ip \<Rightarrow> bool" where
  "IsLinkLocalMulticast x \<longleftrightarrow>
     (case To4 x of Some v \<Rightarrow> byte v 0 = 224 \<and> byte v 1 = 0 \<and> byte v 2 = 0
      | None \<Rightarrow> length x = 16 \<and> byte x 0 = 255 \<and> byte x 1 mod 16 = 2)"

definition IsInterfaceLocalMulticast :: "ip \<Rightarrow> bool" where
  "IsInterfaceLocalMulticast x \<longleftrightarrow> length x = 16 \<and> byte x 0 = 255 \<and> byte x 1 mod 16 = 1"

definition IsMulticast :: "ip \<Rightarrow> bool" where
  "IsMulticast x \<longleftrightarrow>
     (case To4 x of Some v \<Rightarrow> byte v 0 div 16 = 14 | None \<Rightarrow> length x = 16 \<and> byte x 0 = 255)"

definition IsPrivate :: "ip \<Rightarrow> bool" where
  "IsPrivate x \<longleftrightarrow>
     (case To4 x of
        Some v \<Rightarrow> byte v 0 = 10 \<or> byte v 0 = 172 \<and> byte v 1 div 16 = 1 \<or> byte v 0 = 192 \<and> byte v 1 = 168
      | None \<Rightarrow> length x = 16 \<and> byte x 0 div 2 = 126)"

text \<open>The number of an address, and membership in a CIDR block of the same length.\<close>

definition ip_value :: "ip \<Rightarrow> nat" where
  "ip_value x = foldl (\<lambda>n b. 256 * n + b) 0 x"

definition cidr_contains :: "ip \<Rightarrow> nat \<Rightarrow> ip \<Rightarrow> bool" where
  "cidr_contains net len x =
     (let x' = (case To4 x of Some v \<Rightarrow> v | None \<Rightarrow> x); host = 8 * length net - len
      in length x' = length net \<and> ip_value x' div 2 ^ host = ip_value net div 2 ^ host)"

section \<open>The rule\<close>

definition extraBlocked :: "(ip \<times> nat \<times> string) list" where
  "extraBlocked =
     [([100, 64, 0, 0], 10, ''carrier-grade NAT''),
      ([192, 0, 0, 0], 24, ''IETF protocol assignments''),
      ([192, 0, 2, 0], 24, ''documentation range''),
      ([198, 18, 0, 0], 15, ''benchmarking range''),
      ([198, 51, 100, 0], 24, ''documentation range''),
      ([203, 0, 113, 0], 24, ''documentation range''),
      ([240, 0, 0, 0], 4, ''reserved''),
      (replicate 16 0, 128, ''unspecified''),
      ([32, 1, 13, 184] @ replicate 12 0, 32, ''documentation range'')]"

definition BlockReason :: "ip option \<Rightarrow> string" where
  "BlockReason a =
     (case a of
        None \<Rightarrow> ''unparseable address''
      | Some a \<Rightarrow>
          (let x = (case To4 a of Some v \<Rightarrow> v | None \<Rightarrow> a)
           in if IsUnspecified x then ''unspecified address''
              else if IsLoopback x then ''loopback''
              else if IsLinkLocalUnicast x \<or> IsLinkLocalMulticast x then ''link-local''
              else if IsInterfaceLocalMulticast x \<or> IsMulticast x then ''multicast''
              else if IsPrivate x then ''private address space''
              else case List.find (\<lambda>(net, len, reason). cidr_contains net len x) extraBlocked of
                Some (net, len, reason) \<Rightarrow> reason
              | None \<Rightarrow> []))"

datatype control_error = BadDialAddress string | ErrBlockedAddress "ip option" string

text \<open>\<open>split\<close> stands for \<open>net.SplitHostPort\<close> (the host), \<open>parse\<close> for \<open>net.ParseIP\<close>.\<close>

definition Control ::
    "(string \<Rightarrow> string option) \<Rightarrow> (string \<Rightarrow> ip option) \<Rightarrow> string \<Rightarrow> control_error option" where
  "Control split parse address =
     (case split address of
        None \<Rightarrow> Some (BadDialAddress address)
      | Some host \<Rightarrow>
          (let a = parse host; reason = BlockReason a
           in if reason \<noteq> [] then Some (ErrBlockedAddress a reason) else None))"

section \<open>Lemmas\<close>

lemma To4_v4 [simp]: "length v = 4 \<Longrightarrow> To4 v = Some v"
  by (simp add: To4_def)

lemma To4_mapped: "length v = 4 \<Longrightarrow> To4 (v4_prefix @ v) = Some v"
  by (simp add: To4_def v4_prefix_def)

lemma ip_value4: "ip_value [a, b, c, d] = ((a * 256 + b) * 256 + c) * 256 + d"
  by (simp add: ip_value_def)

text \<open>The blocked IPv4 space as intervals of the 32-bit number.\<close>

definition v4_blocked :: "nat \<Rightarrow> bool" where
  "v4_blocked n \<longleftrightarrow>
     n = 0 \<or>
     n div 2 ^ 24 \<in> {10, 127} \<or>
     n div 2 ^ 22 = 401 \<or>
     n div 2 ^ 16 \<in> {43518, 49320} \<or>
     n div 2 ^ 20 = 2753 \<or>
     n div 2 ^ 8 \<in> {12582912, 12582914, 12989284, 13303921} \<or>
     n div 2 ^ 17 = 25353 \<or>
     14 \<le> n div 2 ^ 28"

lemma find_empty_reason:
  assumes "\<forall>(net, len, reason) \<in> set xs. reason \<noteq> []"
  shows "(case List.find (\<lambda>(net, len, reason). P net len) xs of
            Some (net, len, reason) \<Rightarrow> reason | None \<Rightarrow> []) = [] \<longleftrightarrow>
         (\<forall>(net, len, reason) \<in> set xs. \<not> P net len)"
  using assms by (induction xs) auto

lemma ip_value_zeros: "foldl (\<lambda>n b. 256 * n + b) x (replicate k 0) = 256 ^ k * x" for x :: nat
  by (induction k arbitrary: x) simp_all

lemma extraBlocked_values:
  "map (\<lambda>(net, len, reason). (length net, ip_value net div 2 ^ (8 * length net - len), 8 * length net - len)) extraBlocked =
     [(4, 401, 22), (4, 12582912, 8), (4, 12582914, 8), (4, 25353, 17), (4, 12989284, 8), (4, 13303921, 8),
      (4, 15, 28), (16, 0, 0), (16, 536939960, 96)]"
  by (simp add: extraBlocked_def ip_value_def ip_value_zeros)

lemma cidr_contains_number:
  "cidr_contains net len [a, b, c, d] \<longleftrightarrow>
     length net = 4 \<and> ip_value [a, b, c, d] div 2 ^ (8 * length net - len) = ip_value net div 2 ^ (8 * length net - len)"
  by (auto simp: cidr_contains_def Let_def)

lemma extraBlocked_v4:
  "(\<forall>(net, len, reason) \<in> set extraBlocked. \<not> cidr_contains net len [a, b, c, d]) \<longleftrightarrow>
     (let n = ip_value [a, b, c, d] in
        n div 2 ^ 22 \<noteq> 401 \<and> n div 2 ^ 8 \<notin> {12582912, 12582914, 12989284, 13303921} \<and>
        n div 2 ^ 17 \<noteq> 25353 \<and> n div 2 ^ 28 \<noteq> 15)"
proof -
  define n where "n = ip_value [a, b, c, d]"
  have "(\<forall>(net, len, reason) \<in> set extraBlocked. \<not> cidr_contains net len [a, b, c, d]) \<longleftrightarrow>
    (\<forall>(l, v, h) \<in> set (map (\<lambda>(net, len, reason).
        (length net, ip_value net div 2 ^ (8 * length net - len), 8 * length net - len)) extraBlocked).
       \<not> (l = 4 \<and> n div 2 ^ h = v))"
    unfolding n_def cidr_contains_number by (simp add: split_def)
  then show ?thesis unfolding extraBlocked_values Let_def n_def [symmetric] by auto
qed

lemma v4_unspecified: "IsUnspecified [a, b, c, d] \<longleftrightarrow> [a, b, c, d] = [0, 0, 0, 0]"
proof -
  have "[a, b, c, d] \<noteq> replicate 16 0" by (rule notI, drule arg_cong [of _ _ length]) simp
  then show ?thesis by (simp add: IsUnspecified_def)
qed

lemma v4_predicates:
  "IsLoopback [a, b, c, d] \<longleftrightarrow> a = 127"
  "IsLinkLocalUnicast [a, b, c, d] \<longleftrightarrow> a = 169 \<and> b = 254"
  "IsLinkLocalMulticast [a, b, c, d] \<longleftrightarrow> a = 224 \<and> b = 0 \<and> c = 0"
  "\<not> IsInterfaceLocalMulticast [a, b, c, d]"
  "IsMulticast [a, b, c, d] \<longleftrightarrow> a div 16 = 14"
  "IsPrivate [a, b, c, d] \<longleftrightarrow> a = 10 \<or> a = 172 \<and> b div 16 = 1 \<or> a = 192 \<and> b = 168"
  by (simp_all add: IsLoopback_def IsLinkLocalUnicast_def IsLinkLocalMulticast_def
      IsInterfaceLocalMulticast_def IsMulticast_def IsPrivate_def byte_def numeral_2_eq_2)

lemma if_chain:
  "x1 \<noteq> [] \<Longrightarrow> x2 \<noteq> [] \<Longrightarrow> x3 \<noteq> [] \<Longrightarrow> x4 \<noteq> [] \<Longrightarrow> x5 \<noteq> [] \<Longrightarrow>
   (if p1 then x1 else if p2 then x2 else if p3 then x3 else if p4 then x4 else if p5 then x5 else r) = [] \<longleftrightarrow>
   \<not> p1 \<and> \<not> p2 \<and> \<not> p3 \<and> \<not> p4 \<and> \<not> p5 \<and> r = []"
  by simp

lemma BlockReason_v4_cases:
  "BlockReason (Some [a, b, c, d]) = [] \<longleftrightarrow>
     [a, b, c, d] \<noteq> [0, 0, 0, 0] \<and> a \<noteq> 127 \<and> \<not> (a = 169 \<and> b = 254) \<and> a div 16 \<noteq> 14 \<and>
     a \<noteq> 10 \<and> \<not> (a = 172 \<and> b div 16 = 1) \<and> \<not> (a = 192 \<and> b = 168) \<and>
     (\<forall>(net, len, reason) \<in> set extraBlocked. \<not> cidr_contains net len [a, b, c, d])"
proof -
  have "\<forall>(net, len, reason) \<in> set extraBlocked. reason \<noteq> []" by (simp add: extraBlocked_def)
  note find = find_empty_reason [OF this, of "\<lambda>net len. cidr_contains net len [a, b, c, d]"]
  have mc: "a = 224 \<Longrightarrow> a div 16 = 14" by simp
  have br: "BlockReason (Some [a, b, c, d]) =
     (if [a, b, c, d] = [0, 0, 0, 0] then ''unspecified address'' else if a = 127 then ''loopback''
      else if (a = 169 \<and> b = 254) \<or> (a = 224 \<and> b = 0 \<and> c = 0) then ''link-local''
      else if a div 16 = 14 then ''multicast''
      else if a = 10 \<or> a = 172 \<and> b div 16 = 1 \<or> a = 192 \<and> b = 168 then ''private address space''
      else case List.find (\<lambda>(net, len, reason). cidr_contains net len [a, b, c, d]) extraBlocked of
        Some (net, len, reason) \<Rightarrow> reason | None \<Rightarrow> [])"
    unfolding BlockReason_def by (simp only: option.case To4_v4 list.size Let_def v4_unspecified v4_predicates simp_thms)
  show ?thesis unfolding br
    by (subst if_chain) (simp, simp, simp, simp, simp, unfold find, use mc in blast)
qed

section \<open>Properties\<close>

lemma digits_eq: "b < m \<Longrightarrow> y < m \<Longrightarrow> a * m + b = x * m + y \<longleftrightarrow> a = x \<and> b = y" for a b m x y :: nat
  by (metis div_mult_self3 div_less add.commute add_0 less_nat_zero_code mod_less mod_mult_self3 mult.commute
      add_left_cancel)

lemma v4_shifts:
  fixes a b c d n :: nat
  assumes "a < 256" and "b < 256" and "c < 256" and "d < 256" and n: "n = ((a * 256 + b) * 256 + c) * 256 + d"
  shows "n div 2 ^ 24 = a" "n div 2 ^ 16 = a * 256 + b" "n div 2 ^ 20 = a * 16 + b div 16"
    "n div 2 ^ 28 = a div 16"
proof -
  show d16: "n div 2 ^ 16 = a * 256 + b" and "n div 2 ^ 24 = a" using assms by simp_all
  have "n div 2 ^ 20 = n div 2 ^ 16 div 16" by (simp add: div_mult2_eq [symmetric])
  then show "n div 2 ^ 20 = a * 16 + b div 16" unfolding d16 by simp
  have "n div 2 ^ 28 = n div 2 ^ 24 div 16" by (simp add: div_mult2_eq [symmetric])
  then show "n div 2 ^ 28 = a div 16" unfolding \<open>n div 2 ^ 24 = a\<close> .
qed

text \<open>C34. Every IPv4 address is judged by its number alone: the connection is allowed exactly when the
  address is outside 0.0.0.0, 10/8, 100.64/10, 127/8, 169.254/16, 172.16/12, 192.0.0/24, 192.0.2/24,
  192.168/16, 198.18/15, 198.51.100/24, 203.0.113/24 and everything from 224.0.0.0 up.\<close>

theorem BlockReason_v4:
  assumes "a < 256" and "b < 256" and "c < 256" and "d < 256" and "n = ((a * 256 + b) * 256 + c) * 256 + d"
  shows "BlockReason (Some [a, b, c, d]) = [] \<longleftrightarrow> \<not> v4_blocked n"
proof -
  have "a * 256 + b = 43518 \<longleftrightarrow> a = 169 \<and> b = 254"
    using digits_eq [of b 256 254 a 169] assms(2) by simp
  moreover have "a * 256 + b = 49320 \<longleftrightarrow> a = 192 \<and> b = 168"
    using digits_eq [of b 256 168 a 192] assms(2) by simp
  moreover have "a * 16 + x = 2753 \<longleftrightarrow> a = 172 \<and> x = 1" if "x < 16" for x
    using digits_eq [of x 16 1 a 172] that by simp
  moreover have "b div 16 < 16" "a div 16 < 16" using assms(1,2) by auto
  moreover have "14 \<le> y \<longleftrightarrow> y = 14 \<or> y = 15" if "y < 16" for y :: nat using that by arith
  ultimately have eqs: "a * 256 + b = 43518 \<longleftrightarrow> a = 169 \<and> b = 254" "a * 256 + b = 49320 \<longleftrightarrow> a = 192 \<and> b = 168"
      "a * 16 + b div 16 = 2753 \<longleftrightarrow> a = 172 \<and> b div 16 = 1" "14 \<le> a div 16 \<longleftrightarrow> a div 16 = 14 \<or> a div 16 = 15"
    by blast+
  have zero: "n = 0 \<longleftrightarrow> [a, b, c, d] = [0, 0, 0, 0]" using assms(5) by simp
  show ?thesis
    unfolding BlockReason_v4_cases extraBlocked_v4 Let_def v4_blocked_def ip_value4 assms(5) [symmetric]
      v4_shifts [OF assms] insert_iff empty_iff eqs zero by blast
qed

theorem BlockReason_v4_witness:
  "BlockReason (Some [8, 8, 8, 8]) = [] \<and> BlockReason (Some [169, 254, 169, 254]) \<noteq> []"
  using BlockReason_v4 [of 8 8 8 8, OF _ _ _ _ refl] BlockReason_v4 [of 169 254 169 254, OF _ _ _ _ refl]
  by (simp add: v4_blocked_def)

text \<open>Writing an IPv4 address as an IPv4-mapped IPv6 address changes nothing: the two forms get the
  same verdict and the same reason, for every address.\<close>

theorem mapped_address_same_verdict:
  assumes "length v = 4"
  shows "BlockReason (Some (v4_prefix @ v)) = BlockReason (Some v)"
  using assms by (simp add: BlockReason_def To4_mapped)

theorem mapped_address_same_verdict_witness:
  "BlockReason (Some (v4_prefix @ [127, 0, 0, 1])) = BlockReason (Some [127, 0, 0, 1])"
  by (rule mapped_address_same_verdict) simp

end
