(* ===== verification/Rdap_Registry.thy ===== *)
theory Rdap_Registry
  imports Netguard "HOL-Library.Multiset"
begin

text \<open>
  The RDAP bootstrap registries: domains (\<open>internal/rdapx/bootstrap.go\<close>), addresses and autonomous
  systems (\<open>netregistry.go\<close>), and the reading of a resource (\<open>netquery.go\<close>). Decoding JSON, parsing
  addresses and fetching documents are arguments; the order of equal elements under \<open>sort.Slice\<close> is
  not specified by Go, so the sorting function is an argument with the contract \<open>sort_ok\<close>.
\<close>

section \<open>Bootstrap documents\<close>

record bootstrapDoc =
  bd_Publication :: time
  bd_Services :: "string list list list"

datatype load_error = BadDocument | NoServices | NoUsableTLDs | NoUsablePrefixes | NoUsableRanges

definition https_base :: "string \<Rightarrow> string option" where
  "https_base u =
     (let u = trim_space u
      in if \<not> has_prefix (to_lower u) ''https://'' then None
         else Some (if has_suffix u ''/'' then u else u @ ''/''))"

definition preferHTTPS :: "string list \<Rightarrow> string list" where
  "preferHTTPS urls = List.map_filter https_base urls"

text \<open>The usable services of a document: two-element entries with an HTTPS base.\<close>

definition usable_service :: "string list list \<Rightarrow> (string list \<times> string list) option" where
  "usable_service svc =
     (case svc of
        [keys, urls] \<Rightarrow> (let bases = preferHTTPS urls in if bases = [] then None else Some (keys, bases))
      | _ \<Rightarrow> None)"

section \<open>The domain registry\<close>

record registry =
  rg_byTLD :: "string \<rightharpoonup> string list"
  rg_publication :: time
  rg_loadedAt :: time
  rg_etag :: string
  rg_fromNetwork :: bool

definition service_entries :: "string list \<times> string list \<Rightarrow> (string \<times> string list) list" where
  "service_entries svc =
     (case svc of (tlds, secure) \<Rightarrow>
        map (\<lambda>t. (t, secure)) (filter (\<lambda>t. t \<noteq> []) (map (\<lambda>tld. to_lower (trim_space tld)) tlds)))"

text \<open>The assignments to \<open>byTLD\<close> in order; the last one to a key stays.\<close>

definition tld_entries :: "bootstrapDoc \<Rightarrow> (string \<times> string list) list" where
  "tld_entries doc = concat (map service_entries (List.map_filter usable_service (bd_Services doc)))"

definition load :: "bootstrapDoc option \<Rightarrow> string \<Rightarrow> time \<Rightarrow> registry \<Rightarrow> load_error option \<times> registry" where
  "load doc etag now r =
     (case doc of
        None \<Rightarrow> (Some BadDocument, r)
      | Some doc \<Rightarrow>
          if bd_Services doc = [] then (Some NoServices, r)
          else if tld_entries doc = [] then (Some NoUsableTLDs, r)
          else (None, r\<lparr>rg_byTLD := map_of (rev (tld_entries doc)), rg_publication := bd_Publication doc,
                        rg_loadedAt := now, rg_etag := etag\<rparr>))"

definition empty_registry :: registry where
  "empty_registry = \<lparr>rg_byTLD = Map.empty, rg_publication = zero_time, rg_loadedAt = zero_time,
     rg_etag = [], rg_fromNetwork = False\<rparr>"

definition NewRegistry :: "bootstrapDoc option \<Rightarrow> time \<Rightarrow> load_error + registry" where
  "NewRegistry embedded now =
     (case load embedded [] now empty_registry of
        (Some e, _) \<Rightarrow> Inl e
      | (None, r) \<Rightarrow> Inr (r\<lparr>rg_fromNetwork := False\<rparr>))"

definition Lookup :: "registry \<Rightarrow> string \<Rightarrow> string list option" where
  "Lookup r tld =
     (case rg_byTLD r (to_lower tld) of
        Some urls \<Rightarrow> if urls = [] then None else Some urls
      | None \<Rightarrow> None)"

definition Age :: "registry \<Rightarrow> time \<Rightarrow> duration" where
  "Age r now = now - rg_loadedAt r"

text \<open>\<open>TLDs\<close>: the keys in the map's iteration order \<open>ord\<close>, sorted.\<close>

definition TLDs :: "registry \<Rightarrow> string list \<Rightarrow> string list" where
  "TLDs r ord = sort (filter (\<lambda>t. rg_byTLD r t \<noteq> None) ord)"

definition Count :: "registry \<Rightarrow> string list \<Rightarrow> nat" where
  "Count r ord = length (filter (\<lambda>t. rg_byTLD r t \<noteq> None) ord)"

text \<open>A reply of the HTTP client: the status, the body unless reading it failed, the entity tag.\<close>

record http_reply =
  hr_status :: int
  hr_body :: "string option"
  hr_etag :: string

datatype refresh_error = FetchFailed | UnexpectedStatus int | ReadFailed | LoadFailed load_error

definition bootstrap_cap :: nat where "bootstrap_cap = 8388608"

text \<open>\<open>fetch\<close> is the request with the given \<open>If-None-Match\<close> tag, \<open>[]\<close> for none.\<close>

definition Refresh ::
    "(string \<Rightarrow> bootstrapDoc option) \<Rightarrow> (string \<Rightarrow> http_reply option) \<Rightarrow> time \<Rightarrow> registry \<Rightarrow>
     refresh_error option \<times> registry" where
  "Refresh unmarshal fetch now r =
     (case fetch (rg_etag r) of
        None \<Rightarrow> (Some FetchFailed, r)
      | Some resp \<Rightarrow>
          if hr_status resp = 304 then (None, r\<lparr>rg_loadedAt := now\<rparr>)
          else if hr_status resp \<noteq> 200 then (Some (UnexpectedStatus (hr_status resp)), r)
          else (case hr_body resp of
                  None \<Rightarrow> (Some ReadFailed, r)
                | Some body \<Rightarrow>
                    (case load (unmarshal (take bootstrap_cap body)) (hr_etag resp) now r of
                       (Some e, r') \<Rightarrow> (Some (LoadFailed e), r')
                     | (None, r') \<Rightarrow> (None, r'\<lparr>rg_fromNetwork := True\<rparr>))))"

section \<open>The address and ASN registry\<close>

text \<open>A \<open>net.IPNet\<close> as \<open>ParseCIDR\<close> makes it: the network address and the ones of its mask.\<close>

record ipnet =
  pn_IP :: ip
  pn_ones :: nat

definition net_contains :: "ipnet \<Rightarrow> ip \<Rightarrow> bool" where
  "net_contains n x =
     (case To4 (pn_IP n) of
        Some v \<Rightarrow> cidr_contains v (if length (pn_IP n) = 16 then pn_ones n - 96 else pn_ones n) x
      | None \<Rightarrow> cidr_contains (pn_IP n) (pn_ones n) x)"

record netService =
  ns_prefixes :: "ipnet list"
  ns_bases :: "string list"

record asnRange =
  as_lo :: nat
  as_hi :: nat
  as_bases :: "string list"

record netRegistry =
  nr_v4 :: "netService list"
  nr_v6 :: "netService list"
  nr_asns :: "asnRange list"
  nr_publication :: time
  nr_loadedAt :: time
  nr_fromNetwork :: bool

definition ip_service :: "(string \<Rightarrow> ipnet option) \<Rightarrow> string list list \<Rightarrow> netService option" where
  "ip_service parse_cidr svc =
     (case usable_service svc of
        None \<Rightarrow> None
      | Some (cidrs, bases) \<Rightarrow>
          (let nets = List.map_filter (\<lambda>c. parse_cidr (trim_space c)) cidrs
           in if nets = [] then None else Some \<lparr>ns_prefixes = nets, ns_bases = bases\<rparr>))"

definition stamp :: "bootstrapDoc \<Rightarrow> time \<Rightarrow> netRegistry \<Rightarrow> netRegistry" where
  "stamp doc now r =
     r\<lparr>nr_publication := (if nr_publication r < bd_Publication doc then bd_Publication doc else nr_publication r),
       nr_loadedAt := now\<rparr>"

definition loadIP ::
    "(string \<Rightarrow> ipnet option) \<Rightarrow> bootstrapDoc option \<Rightarrow> bool \<Rightarrow> time \<Rightarrow> netRegistry \<Rightarrow>
     load_error option \<times> netRegistry" where
  "loadIP parse_cidr doc v6 now r =
     (case doc of
        None \<Rightarrow> (Some BadDocument, r)
      | Some doc \<Rightarrow>
          (let out = List.map_filter (ip_service parse_cidr) (bd_Services doc)
           in if out = [] then (Some NoUsablePrefixes, r)
              else (None, stamp doc now (if v6 then r\<lparr>nr_v6 := out\<rparr> else r\<lparr>nr_v4 := out\<rparr>))))"

text \<open>\<open>strings.Cut\<close> at a one-byte separator.\<close>

definition cut :: "char \<Rightarrow> string \<Rightarrow> string \<times> string \<times> bool" where
  "cut c s =
     (case index_any s [c] of Some i \<Rightarrow> (take i s, drop (i + 1) s, True) | None \<Rightarrow> (s, [], False))"

definition parseASNRange :: "string \<Rightarrow> (nat \<times> nat) option" where
  "parseASNRange spec =
     (let s = trim_space spec
      in if s = [] then None
         else case cut (CHR ''-'') s of (before, after, found) \<Rightarrow>
           (case parse_uint 32 (trim_space before) of
              None \<Rightarrow> None
            | Some l \<Rightarrow>
                if \<not> found then Some (l, l)
                else (case parse_uint 32 (trim_space after) of
                        None \<Rightarrow> None
                      | Some h \<Rightarrow> if h < l then None else Some (l, h))))"

definition service_ranges :: "string list list \<Rightarrow> asnRange list" where
  "service_ranges svc =
     (case usable_service svc of
        None \<Rightarrow> []
      | Some (specs, bases) \<Rightarrow>
          map (\<lambda>(lo, hi). \<lparr>as_lo = lo, as_hi = hi, as_bases = bases\<rparr>) (List.map_filter parseASNRange specs))"

definition loadASN ::
    "(asnRange list \<Rightarrow> asnRange list) \<Rightarrow> bootstrapDoc option \<Rightarrow> time \<Rightarrow> netRegistry \<Rightarrow>
     load_error option \<times> netRegistry" where
  "loadASN sort_slice doc now r =
     (case doc of
        None \<Rightarrow> (Some BadDocument, r)
      | Some doc \<Rightarrow>
          (let out = concat (map service_ranges (bd_Services doc))
           in if out = [] then (Some NoUsableRanges, r)
              else (None, stamp doc now (r\<lparr>nr_asns := sort_slice out\<rparr>))))"

text \<open>\<open>LookupIP\<close>: the running best of the two nested loops; \<open>-1\<close> and nil to begin with.\<close>

fun best_prefix :: "ip \<Rightarrow> string list \<Rightarrow> ipnet list \<Rightarrow> int \<times> string list \<Rightarrow> int \<times> string list" where
  "best_prefix x bases [] best = best"
| "best_prefix x bases (n # ns) best =
     best_prefix x bases ns
       (if net_contains n x \<and> fst best < int (pn_ones n) then (int (pn_ones n), bases) else best)"

fun best_service :: "ip \<Rightarrow> netService list \<Rightarrow> int \<times> string list \<Rightarrow> int \<times> string list" where
  "best_service x [] best = best"
| "best_service x (svc # svcs) best =
     best_service x svcs (best_prefix x (ns_bases svc) (ns_prefixes svc) best)"

definition LookupIP :: "netRegistry \<Rightarrow> ip option \<Rightarrow> string list option" where
  "LookupIP r a =
     (case a of
        None \<Rightarrow> None
      | Some x \<Rightarrow>
          (let services = (if To4 x = None then nr_v6 r else nr_v4 r);
               best = snd (best_service x services (- 1, []))
           in if best = [] then None else Some best))"

text \<open>\<open>sort.Search\<close>: the binary search of package sort.\<close>

function search :: "(nat \<Rightarrow> bool) \<Rightarrow> nat \<Rightarrow> nat \<Rightarrow> nat" where
  "search f i j =
     (if i < j then (let h = (i + j) div 2 in if \<not> f h then search f (h + 1) j else search f i h) else i)"
  by pat_completeness auto
termination
  by (relation "measure (\<lambda>(f, i, j). j - i)") (auto simp: div_less_iff_less_mult)

declare search.simps [simp del]

text \<open>The step back: at most four entries before \<open>i\<close>.\<close>

fun step_back :: "asnRange list \<Rightarrow> nat \<Rightarrow> nat \<Rightarrow> nat \<Rightarrow> string list option" where
  "step_back rs asn i 0 = None"
| "step_back rs asn 0 (Suc k) = None"
| "step_back rs asn (Suc j) (Suc k) =
     (if as_lo (rs ! j) \<le> asn \<and> asn \<le> as_hi (rs ! j) then Some (as_bases (rs ! j)) else step_back rs asn j k)"

definition LookupASN :: "netRegistry \<Rightarrow> nat \<Rightarrow> string list option" where
  "LookupASN r asn =
     (let rs = nr_asns r; i = search (\<lambda>i. asn < as_lo (rs ! i)) 0 (length rs)
      in step_back rs asn i 4)"

definition Counts :: "netRegistry \<Rightarrow> nat \<times> nat \<times> nat" where
  "Counts r = (sum_list (map (length \<circ> ns_prefixes) (nr_v4 r)),
               sum_list (map (length \<circ> ns_prefixes) (nr_v6 r)), length (nr_asns r))"

definition NetAge :: "netRegistry \<Rightarrow> time \<Rightarrow> duration" where
  "NetAge r now = now - nr_loadedAt r"

definition empty_net_registry :: netRegistry where
  "empty_net_registry = \<lparr>nr_v4 = [], nr_v6 = [], nr_asns = [], nr_publication = zero_time,
     nr_loadedAt = zero_time, nr_fromNetwork = False\<rparr>"

text \<open>What the loaders call: JSON, CIDR parsing and sorting.\<close>

record net_lib =
  nl_unmarshal :: "string \<Rightarrow> bootstrapDoc option"
  nl_parseCIDR :: "string \<Rightarrow> ipnet option"
  nl_sort :: "asnRange list \<Rightarrow> asnRange list"

definition NewNetRegistry :: "net_lib \<Rightarrow> string \<Rightarrow> string \<Rightarrow> string \<Rightarrow> time \<times> time \<times> time \<Rightarrow> load_error + netRegistry" where
  "NewNetRegistry L v4 v6 asn now =
     (case now of (t4, t6, ta) \<Rightarrow>
        (case loadIP (nl_parseCIDR L) (nl_unmarshal L v4) False t4 empty_net_registry of
           (Some e, _) \<Rightarrow> Inl e
         | (None, r) \<Rightarrow>
             (case loadIP (nl_parseCIDR L) (nl_unmarshal L v6) True t6 r of
                (Some e, _) \<Rightarrow> Inl e
              | (None, r) \<Rightarrow>
                  (case loadASN (nl_sort L) (nl_unmarshal L asn) ta r of
                     (Some e, _) \<Rightarrow> Inl e
                   | (None, r) \<Rightarrow> Inr (r\<lparr>nr_fromNetwork := False\<rparr>)))))"

definition net_cap :: nat where "net_cap = 5242880"

definition fetchBootstrap :: "http_reply option \<Rightarrow> string option" where
  "fetchBootstrap resp =
     (case resp of
        None \<Rightarrow> None
      | Some resp \<Rightarrow>
          if hr_status resp \<noteq> 200 then None else map_option (take net_cap) (hr_body resp))"

datatype family = FamilyV4 | FamilyV6 | FamilyASN
datatype family_error = FetchError family | FamilyLoadError family load_error

definition load_family ::
    "net_lib \<Rightarrow> family \<Rightarrow> string \<Rightarrow> time \<Rightarrow> netRegistry \<Rightarrow> load_error option \<times> netRegistry" where
  "load_family L fam raw now r =
     (case fam of
        FamilyV4 \<Rightarrow> loadIP (nl_parseCIDR L) (nl_unmarshal L raw) False now r
      | FamilyV6 \<Rightarrow> loadIP (nl_parseCIDR L) (nl_unmarshal L raw) True now r
      | FamilyASN \<Rightarrow> loadASN (nl_sort L) (nl_unmarshal L raw) now r)"

definition refresh_family ::
    "net_lib \<Rightarrow> family \<Rightarrow> http_reply option \<Rightarrow> time \<Rightarrow> netRegistry \<Rightarrow> family_error list \<times> netRegistry" where
  "refresh_family L fam resp now r =
     (case fetchBootstrap resp of
        None \<Rightarrow> ([FetchError fam], r)
      | Some raw \<Rightarrow>
          (case load_family L fam raw now r of
             (Some e, r') \<Rightarrow> ([FamilyLoadError fam e], r')
           | (None, r') \<Rightarrow> ([], r')))"

datatype net_refresh_error = RefreshFailed "family_error list" | PartiallyRefreshed "family_error list"

definition NetRefresh ::
    "net_lib \<Rightarrow> (family \<Rightarrow> http_reply option) \<Rightarrow> (family \<Rightarrow> time) \<Rightarrow> netRegistry \<Rightarrow>
     net_refresh_error option \<times> netRegistry" where
  "NetRefresh L replies now r =
     (case refresh_family L FamilyV4 (replies FamilyV4) (now FamilyV4) r of (e4, r) \<Rightarrow>
        (case refresh_family L FamilyV6 (replies FamilyV6) (now FamilyV6) r of (e6, r) \<Rightarrow>
           (case refresh_family L FamilyASN (replies FamilyASN) (now FamilyASN) r of (ea, r) \<Rightarrow>
              (let errs = e4 @ e6 @ ea
               in if length errs = 3 then (Some (RefreshFailed errs), r)
                  else (if errs = [] then None else Some (PartiallyRefreshed errs),
                        r\<lparr>nr_fromNetwork := True\<rparr>)))))"

section \<open>Resources\<close>

datatype resource_kind = KindIP | KindPrefix | KindASN

record resource =
  rc_Kind :: resource_kind
  rc_Input :: string
  rc_IP :: "ip option"
  rc_Prefix :: "ipnet option"
  rc_ASN :: nat

datatype resource_error = EmptyInput | ErrInvalidResource string

text \<open>\<open>parse_cidr\<close> gives the address and the network of \<open>net.ParseCIDR\<close>.\<close>

definition ParseResource ::
    "(string \<Rightarrow> ip option) \<Rightarrow> (string \<Rightarrow> (ip \<times> ipnet) option) \<Rightarrow> string \<Rightarrow> resource_error + resource" where
  "ParseResource parse_ip parse_cidr input =
     (let s = trim_space input;
          res = \<lparr>rc_Kind = KindIP, rc_Input = input, rc_IP = None, rc_Prefix = None, rc_ASN = 0\<rparr>;
          bare = trim_prefix (trim_prefix s ''AS'') ''as''
      in if s = [] then Inl EmptyInput
         else case (if bare \<noteq> s \<or> \<not> contains_any s ''.:/'' then parse_uint 32 (trim_space bare) else None) of
           Some n \<Rightarrow> Inr (res\<lparr>rc_Kind := KindASN, rc_ASN := n\<rparr>)
         | None \<Rightarrow>
             if contains s ''/'' then
               (case parse_cidr s of
                  None \<Rightarrow> Inl (ErrInvalidResource input)
                | Some (a, n) \<Rightarrow> Inr (res\<lparr>rc_Kind := KindPrefix, rc_IP := Some a, rc_Prefix := Some n\<rparr>))
             else
               (case parse_ip s of
                  Some a \<Rightarrow> Inr (res\<lparr>rc_Kind := KindIP, rc_IP := Some a\<rparr>)
                | None \<Rightarrow> Inl (ErrInvalidResource input)))"

text \<open>\<open>show_ip\<close> and \<open>show_net\<close> stand for the \<open>String\<close> methods of package \<open>net\<close>.\<close>

definition ResourceString :: "(ip \<Rightarrow> string) \<Rightarrow> (ipnet \<Rightarrow> string) \<Rightarrow> resource \<Rightarrow> string" where
  "ResourceString show_ip show_net r =
     (if rc_Kind r = KindASN then ''AS'' @ format_uint (rc_ASN r)
      else case (if rc_Kind r = KindPrefix then rc_Prefix r else None) of
        Some n \<Rightarrow> show_net n
      | None \<Rightarrow> (case rc_IP r of Some a \<Rightarrow> show_ip a | None \<Rightarrow> rc_Input r))"

section \<open>Binary search\<close>

lemma search_spec:
  assumes "i \<le> j" and "\<And>k l. i \<le> k \<Longrightarrow> k \<le> l \<Longrightarrow> l < j \<Longrightarrow> f k \<Longrightarrow> f l"
  shows "i \<le> search f i j \<and> search f i j \<le> j \<and>
    (\<forall>k. i \<le> k \<longrightarrow> k < search f i j \<longrightarrow> \<not> f k) \<and> (\<forall>k. search f i j \<le> k \<longrightarrow> k < j \<longrightarrow> f k)"
  using assms
proof (induction f i j rule: search.induct)
  case (1 f i j)
  show ?case
  proof (cases "i < j")
    case True
    define h where "h = (i + j) div 2"
    have h: "i \<le> h" "h < j" using True by (auto simp: h_def)
    show ?thesis
    proof (cases "f h")
      case True
      have eq: "search f i j = search f i h" using \<open>i < j\<close> True by (subst search.simps) (simp add: h_def Let_def)
      have "i \<le> search f i h \<and> search f i h \<le> h \<and> (\<forall>k. i \<le> k \<longrightarrow> k < search f i h \<longrightarrow> \<not> f k) \<and>
          (\<forall>k. search f i h \<le> k \<longrightarrow> k < h \<longrightarrow> f k)"
      proof (rule "1.IH"(2) [OF \<open>i < j\<close> h_def _ h(1)])
        show "\<not> \<not> f h" using True by simp
        show "f l" if "i \<le> k" "k \<le> l" "l < h" "f k" for k l
          by (rule "1.prems"(2) [OF that(1,2) _ that(4)]) (use that h in simp)
      qed
      moreover have "f k" if "h \<le> k" "k < j" for k using "1.prems"(2) [of h k] True h that by simp
      ultimately show ?thesis unfolding eq using h by (meson le_trans less_imp_le not_le_imp_less)
    next
      case False
      have eq: "search f i j = search f (h + 1) j" using \<open>i < j\<close> False by (subst search.simps) (simp add: h_def Let_def)
      have "h + 1 \<le> search f (h + 1) j \<and> search f (h + 1) j \<le> j \<and>
          (\<forall>k. h + 1 \<le> k \<longrightarrow> k < search f (h + 1) j \<longrightarrow> \<not> f k) \<and> (\<forall>k. search f (h + 1) j \<le> k \<longrightarrow> k < j \<longrightarrow> f k)"
      proof (rule "1.IH"(1) [OF \<open>i < j\<close> h_def False])
        show "h + 1 \<le> j" using h by simp
        show "f l" if "h + 1 \<le> k" "k \<le> l" "l < j" "f k" for k l
          by (rule "1.prems"(2) [OF _ that(2-4)]) (use that h in simp)
      qed
      moreover have "\<not> f k" if "i \<le> k" "k \<le> h" for k using "1.prems"(2) [of k h] False h that by auto
      ultimately show ?thesis unfolding eq using h
        by (metis Suc_eq_plus1 le_SucI le_trans not_less_eq_eq)
    qed
  qed (use "1.prems" in \<open>simp add: search.simps\<close>)
qed

section \<open>Autonomous systems\<close>

definition covers :: "asnRange \<Rightarrow> nat \<Rightarrow> bool" where
  "covers r asn \<longleftrightarrow> as_lo r \<le> asn \<and> asn \<le> as_hi r"

definition apart :: "asnRange \<Rightarrow> asnRange \<Rightarrow> bool" where
  "apart a b \<longleftrightarrow> as_hi a < as_lo b \<or> as_hi b < as_lo a"

definition sort_ok :: "(asnRange list \<Rightarrow> asnRange list) \<Rightarrow> bool" where
  "sort_ok sort_slice \<longleftrightarrow>
     (\<forall>xs. mset (sort_slice xs) = mset xs \<and> sorted (map as_lo (sort_slice xs)))"

definition ranges_wf :: "asnRange list \<Rightarrow> bool" where
  "ranges_wf rs \<longleftrightarrow> (\<forall>r \<in> set rs. as_lo r \<le> as_hi r \<and> as_hi r < 2 ^ 32 \<and> as_bases r \<noteq> [])"

lemma step_back_none: "(\<And>j. j < i \<Longrightarrow> \<not> covers (rs ! j) asn) \<Longrightarrow> step_back rs asn i k = None"
  by (induction rs asn i k rule: step_back.induct) (auto simp: covers_def)

lemma step_back_sound:
  "step_back rs asn i k = Some b \<Longrightarrow> \<exists>j < i. covers (rs ! j) asn \<and> b = as_bases (rs ! j)"
  by (induction rs asn i k rule: step_back.induct) (auto simp: covers_def split: if_splits intro: less_SucI)

text \<open>On a sorted table the search gives the number of entries that start at or below the ASN.\<close>

lemma search_asns:
  assumes "sorted (map as_lo rs)" and i_def: "i = search (\<lambda>i. asn < as_lo (rs ! i)) 0 (length rs)"
  shows "i \<le> length rs" "k < i \<Longrightarrow> as_lo (rs ! k) \<le> asn" "i \<le> k \<Longrightarrow> k < length rs \<Longrightarrow> asn < as_lo (rs ! k)"
proof -
  have "as_lo (rs ! k) \<le> as_lo (rs ! l)" if "k \<le> l" "l < length rs" for k l
    using sorted_nth_mono [OF assms(1), of k l] that by simp
  then have "asn < as_lo (rs ! l)" if "asn < as_lo (rs ! k)" "k \<le> l" "l < length rs" for k l
    using that by (meson less_le_trans)
  then have "i \<le> length rs \<and> (\<forall>k. k < i \<longrightarrow> \<not> asn < as_lo (rs ! k)) \<and>
      (\<forall>k. i \<le> k \<longrightarrow> k < length rs \<longrightarrow> asn < as_lo (rs ! k))"
    using search_spec [of 0 "length rs" "\<lambda>i. asn < as_lo (rs ! i)"] unfolding i_def by blast
  then show "i \<le> length rs" "k < i \<Longrightarrow> as_lo (rs ! k) \<le> asn" "i \<le> k \<Longrightarrow> k < length rs \<Longrightarrow> asn < as_lo (rs ! k)"
    by (auto simp: not_less)
qed

lemma step_back_apart:
  assumes "sorted (map as_lo rs)" and "\<And>i j. i < length rs \<Longrightarrow> j < length rs \<Longrightarrow> i \<noteq> j \<Longrightarrow> apart (rs ! i) (rs ! j)"
    and "ranges_wf rs" and "j < length rs" and "covers (rs ! j) asn" and "0 < k"
  shows "step_back rs asn (search (\<lambda>i. asn < as_lo (rs ! i)) 0 (length rs)) k = Some (as_bases (rs ! j))"
proof -
  define i where "i = search (\<lambda>i. asn < as_lo (rs ! i)) 0 (length rs)"
  note i = search_asns [OF assms(1) i_def]
  have "j < i" using i(3) [of j] assms(4,5) by (force simp: covers_def)
  have "j = i - 1"
  proof (rule ccontr)
    assume "j \<noteq> i - 1"
    then have "j < i - 1" using \<open>j < i\<close> by simp
    then have lt: "i - 1 < length rs" "as_lo (rs ! (i - 1)) \<le> asn" using i(1) i(2) [of "i - 1"] by auto
    have "as_lo (rs ! j) \<le> as_lo (rs ! (i - 1))"
      using sorted_nth_mono [OF assms(1), of j "i - 1"] \<open>j < i - 1\<close> lt by simp
    moreover have "as_lo (rs ! (i - 1)) \<le> as_hi (rs ! (i - 1))" using assms(3) lt by (simp add: ranges_wf_def)
    ultimately show False using assms(2) [of j "i - 1"] \<open>j < i - 1\<close> lt assms(4,5)
      by (auto simp: apart_def covers_def)
  qed
  then show ?thesis using \<open>j < i\<close> assms(5,6) unfolding i_def [symmetric]
    by (cases i; cases k) (auto simp: covers_def)
qed

lemma LookupASN_sorted:
  assumes "sorted (map as_lo (nr_asns r))" and "distinct (nr_asns r)" and "ranges_wf (nr_asns r)"
    and "\<And>a b. a \<in> set (nr_asns r) \<Longrightarrow> b \<in> set (nr_asns r) \<Longrightarrow> a \<noteq> b \<Longrightarrow> apart a b"
  shows "LookupASN r asn = Some b \<longleftrightarrow> (\<exists>rg \<in> set (nr_asns r). covers rg asn \<and> b = as_bases rg)"
proof
  define rs where "rs = nr_asns r"
  define i where "i = search (\<lambda>i. asn < as_lo (rs ! i)) 0 (length rs)"
  note a = assms [folded rs_def]
  have eq: "LookupASN r asn = step_back rs asn i 4" by (simp add: LookupASN_def rs_def i_def Let_def)
  {
    assume "LookupASN r asn = Some b"
    then obtain j where "j < i" "covers (rs ! j) asn" "b = as_bases (rs ! j)"
      using step_back_sound eq by metis
    moreover have "i \<le> length rs" by (rule search_asns(1) [OF a(1) i_def])
    ultimately show "\<exists>rg \<in> set (nr_asns r). covers rg asn \<and> b = as_bases rg"
      unfolding rs_def [symmetric] by (metis less_le_trans nth_mem)
  next
    assume "\<exists>rg \<in> set (nr_asns r). covers rg asn \<and> b = as_bases rg"
    then obtain j where "j < length rs" "covers (rs ! j) asn" "b = as_bases (rs ! j)"
      unfolding rs_def [symmetric] by (metis in_set_conv_nth)
    moreover have "apart (rs ! k) (rs ! l)" if "k < length rs" "l < length rs" "k \<noteq> l" for k l
      using a(4) that a(2) by (simp add: nth_eq_iff_index_eq)
    ultimately show "LookupASN r asn = Some b"
      unfolding eq i_def using step_back_apart [OF a(1) _ a(3)] by simp
  }
qed

section \<open>What the loaders establish\<close>

definition https_url :: "string \<Rightarrow> bool" where
  "https_url u \<longleftrightarrow> has_prefix (to_lower u) ''https://'' \<and> has_suffix u ''/''"

lemma https_base_url: "https_base u = Some b \<Longrightarrow> https_url b"
  by (auto simp: https_base_def https_url_def Let_def to_lower_def has_prefix_append split: if_splits)

lemma map_filter_set: "y \<in> set (List.map_filter f xs) \<longleftrightarrow> (\<exists>x \<in> set xs. f x = Some y)"
  by (induction xs) (auto simp: List.map_filter_simps split: option.splits)

lemma usable_service_ok:
  "usable_service svc = Some (keys, bases) \<Longrightarrow> bases \<noteq> [] \<and> (\<forall>b \<in> set bases. https_url b)"
  by (auto simp: usable_service_def Let_def preferHTTPS_def map_filter_set https_base_url
      split: list.splits if_splits)

definition service_ok :: "netService \<Rightarrow> bool" where
  "service_ok s \<longleftrightarrow> ns_prefixes s \<noteq> [] \<and> ns_bases s \<noteq> [] \<and> (\<forall>b \<in> set (ns_bases s). https_url b)"

definition range_ok :: "asnRange \<Rightarrow> bool" where
  "range_ok r \<longleftrightarrow> as_lo r \<le> as_hi r \<and> as_hi r < 2 ^ 32 \<and> as_bases r \<noteq> [] \<and> (\<forall>b \<in> set (as_bases r). https_url b)"

definition net_ok :: "netRegistry \<Rightarrow> bool" where
  "net_ok r \<longleftrightarrow>
     (\<forall>s \<in> set (nr_v4 r) \<union> set (nr_v6 r). service_ok s) \<and>
     (\<forall>g \<in> set (nr_asns r). range_ok g) \<and> sorted (map as_lo (nr_asns r))"

text \<open>Data for every family.\<close>

definition net_full :: "netRegistry \<Rightarrow> bool" where
  "net_full r \<longleftrightarrow> nr_v4 r \<noteq> [] \<and> nr_v6 r \<noteq> [] \<and> nr_asns r \<noteq> []"

lemma ip_service_ok: "ip_service pc svc = Some s \<Longrightarrow> service_ok s"
  by (auto simp: ip_service_def service_ok_def Let_def dest: usable_service_ok
      split: option.splits prod.splits if_splits)

lemma parseASNRange_ok: "parseASNRange spec = Some (lo, hi) \<Longrightarrow> lo \<le> hi \<and> hi < 2 ^ 32"
  by (auto simp: parseASNRange_def Let_def parse_uint_def cut_def split: if_splits option.splits)

lemma service_ranges_ok: "g \<in> set (service_ranges svc) \<Longrightarrow> range_ok g"
proof (cases "usable_service svc")
  case (Some kb)
  assume g: "g \<in> set (service_ranges svc)"
  obtain specs bases where kb: "kb = (specs, bases)" by fastforce
  note u = usable_service_ok [OF Some [unfolded kb]]
  from g obtain spec lo hi where "parseASNRange spec = Some (lo, hi)" "g = \<lparr>as_lo = lo, as_hi = hi, as_bases = bases\<rparr>"
    by (auto simp: service_ranges_def Some kb map_filter_set)
  then show ?thesis using u parseASNRange_ok [of spec lo hi] by (simp add: range_ok_def)
qed (simp add: service_ranges_def)

lemma sort_ok_set: "sort_ok f \<Longrightarrow> set (f xs) = set xs" and sort_ok_sorted: "sort_ok f \<Longrightarrow> sorted (map as_lo (f xs))"
  and sort_ok_empty: "sort_ok f \<Longrightarrow> f xs = [] \<longleftrightarrow> xs = []" and sort_ok_distinct: "sort_ok f \<Longrightarrow> distinct (f xs) = distinct xs"
  by (auto simp: sort_ok_def dest: mset_eq_setD [of "f xs"] mset_eq_imp_distinct_iff)
    (metis mset_zero_iff)+

lemma loadIP_ok:
  assumes "loadIP pc doc v6 now r = (e, r')"
  shows "net_ok r \<Longrightarrow> net_ok r'" "net_full r \<Longrightarrow> net_full r'" "e \<noteq> None \<Longrightarrow> r' = r"
    "nr_asns r' = nr_asns r" "e = None \<Longrightarrow> (if v6 then nr_v6 r' else nr_v4 r') \<noteq> []"
    "if v6 then nr_v4 r' = nr_v4 r else nr_v6 r' = nr_v6 r"
  using assms
  by (auto simp: loadIP_def Let_def stamp_def net_ok_def net_full_def map_filter_set ip_service_ok
      split: option.splits if_splits)

lemma loadASN_ok:
  assumes "loadASN srt doc now r = (e, r')" and "sort_ok srt"
  shows "net_ok r \<Longrightarrow> net_ok r'" "net_full r \<Longrightarrow> net_full r'" "e \<noteq> None \<Longrightarrow> r' = r"
    "nr_v4 r' = nr_v4 r" "nr_v6 r' = nr_v6 r" "e = None \<Longrightarrow> nr_asns r' \<noteq> []"
  using assms(1) sort_ok_set [OF assms(2)] sort_ok_sorted [OF assms(2)] sort_ok_empty [OF assms(2)]
  by (auto simp: loadASN_def Let_def stamp_def net_ok_def net_full_def service_ranges_ok
      split: option.splits if_splits)

lemma load_family_ok:
  assumes "load_family L fam raw now r = (e, r')" and "sort_ok (nl_sort L)"
  shows "net_ok r \<Longrightarrow> net_ok r'" "net_full r \<Longrightarrow> net_full r'" "e \<noteq> None \<Longrightarrow> r' = r"
  using assms loadIP_ok(1-3) loadASN_ok(1-3)
  by (cases fam; simp add: load_family_def; blast)+

lemma refresh_family_ok:
  assumes "refresh_family L fam resp now r = (errs, r')" and "sort_ok (nl_sort L)"
  shows "net_ok r \<Longrightarrow> net_ok r'" "net_full r \<Longrightarrow> net_full r'" "errs \<noteq> [] \<Longrightarrow> r' = r" "length errs \<le> 1"
  using assms(1) load_family_ok [OF _ assms(2)]
  by (auto simp: refresh_family_def split: option.splits prod.splits)

lemma fromNetwork_ok [simp]:
  "net_ok (r\<lparr>nr_fromNetwork := b\<rparr>) = net_ok r" "net_full (r\<lparr>nr_fromNetwork := b\<rparr>) = net_full r"
  by (simp_all add: net_ok_def net_full_def)

lemma NetRefresh_ok:
  assumes "NetRefresh L replies now r = (e, r')" and "sort_ok (nl_sort L)"
  shows "net_ok r \<Longrightarrow> net_ok r'" "net_full r \<Longrightarrow> net_full r'"
proof -
  obtain e4 r4 where 4: "refresh_family L FamilyV4 (replies FamilyV4) (now FamilyV4) r = (e4, r4)" by fastforce
  obtain e6 r6 where 6: "refresh_family L FamilyV6 (replies FamilyV6) (now FamilyV6) r4 = (e6, r6)" by fastforce
  obtain ea ra where a: "refresh_family L FamilyASN (replies FamilyASN) (now FamilyASN) r6 = (ea, ra)" by fastforce
  have r': "r' = ra \<or> r' = ra\<lparr>nr_fromNetwork := True\<rparr>"
    using assms(1) by (auto simp: NetRefresh_def 4 6 a Let_def split: if_splits)
  note ok = refresh_family_ok(1,2) [OF 4 assms(2)] refresh_family_ok(1,2) [OF 6 assms(2)] refresh_family_ok(1,2) [OF a assms(2)]
  show "net_ok r \<Longrightarrow> net_ok r'" using ok(1,3,5) r' by auto
  show "net_full r \<Longrightarrow> net_full r'" using ok(2,4,6) r' by auto
qed

datatype net_op = OpRefresh "family \<Rightarrow> http_reply option" "family \<Rightarrow> time"

fun net_step :: "net_lib \<Rightarrow> netRegistry \<Rightarrow> net_op \<Rightarrow> netRegistry" where
  "net_step L r (OpRefresh replies now) = snd (NetRefresh L replies now r)"

interpretation netreg: op_system "net_step L" "\<lambda>r x. sort_ok (nl_sort L)" "\<lambda>r. net_ok r \<and> net_full r"
  for L
proof unfold_locales
  fix r x
  assume r: "net_ok r \<and> net_full r" and srt: "sort_ok (nl_sort L)"
  obtain replies now where x: "x = OpRefresh replies now" by (cases x)
  obtain e r' where e: "NetRefresh L replies now r = (e, r')" by fastforce
  show "net_ok (net_step L r x) \<and> net_full (net_step L r x)"
    using NetRefresh_ok [OF e srt] r x e by simp
qed

section \<open>Longest prefix\<close>

text \<open>The prefixes of a table in the order of the loops, each with the bases of its service.\<close>

definition table :: "netService list \<Rightarrow> (ipnet \<times> string list) list" where
  "table svcs = concat (map (\<lambda>s. map (\<lambda>n. (n, ns_bases s)) (ns_prefixes s)) svcs)"

definition better :: "ip \<Rightarrow> int \<times> string list \<Rightarrow> ipnet \<times> string list \<Rightarrow> int \<times> string list" where
  "better x best e =
     (if net_contains (fst e) x \<and> fst best < int (pn_ones (fst e)) then (int (pn_ones (fst e)), snd e) else best)"

lemma best_prefix_fold: "best_prefix x bases ns best = foldl (better x) best (map (\<lambda>n. (n, bases)) ns)"
  by (induction ns arbitrary: best) (auto simp: better_def)

lemma best_service_fold: "best_service x svcs best = foldl (better x) best (table svcs)"
  by (induction svcs arbitrary: best) (auto simp: table_def best_prefix_fold)

lemma better_fold:
  "fst best \<le> fst (foldl (better x) best es) \<and>
   (\<forall>e \<in> set es. net_contains (fst e) x \<longrightarrow> int (pn_ones (fst e)) \<le> fst (foldl (better x) best es)) \<and>
   (foldl (better x) best es = best \<or>
    (\<exists>e \<in> set es. net_contains (fst e) x \<and> foldl (better x) best es = (int (pn_ones (fst e)), snd e)))"
proof (induction es arbitrary: best)
  case (Cons e es)
  have "fst best \<le> fst (better x best e)" "net_contains (fst e) x \<Longrightarrow> int (pn_ones (fst e)) \<le> fst (better x best e)"
    "better x best e = best \<or> net_contains (fst e) x \<and> better x best e = (int (pn_ones (fst e)), snd e)"
    by (auto simp: better_def)
  then show ?case using Cons.IH [of "better x best e"] by fastforce
qed simp

definition family_of :: "netRegistry \<Rightarrow> ip \<Rightarrow> netService list" where
  "family_of r x = (if To4 x = None then nr_v6 r else nr_v4 r)"

lemma net_okD:
  "net_ok r \<Longrightarrow> s \<in> set (nr_v4 r) \<Longrightarrow> service_ok s" "net_ok r \<Longrightarrow> s \<in> set (nr_v6 r) \<Longrightarrow> service_ok s"
  "net_ok r \<Longrightarrow> g \<in> set (nr_asns r) \<Longrightarrow> range_ok g" "net_ok r \<Longrightarrow> sorted (map as_lo (nr_asns r))"
  by (simp_all add: net_ok_def)

lemma table_ok:
  assumes "net_ok r" and "e \<in> set (table (family_of r x))"
  shows "snd e \<noteq> [] \<and> (\<forall>b \<in> set (snd e). https_url b)"
proof -
  obtain s n where s: "s \<in> set (family_of r x)" "e = (n, ns_bases s)"
    using assms(2) by (auto simp: table_def)
  then have "service_ok s" using net_okD(1,2) [OF assms(1)] by (auto simp: family_of_def split: if_splits)
  then show ?thesis using s(2) by (simp add: service_ok_def)
qed

lemma LookupIP_cases:
  assumes "net_ok r"
  shows "case LookupIP r (Some x) of
      None \<Rightarrow> \<forall>e \<in> set (table (family_of r x)). \<not> net_contains (fst e) x
    | Some bases \<Rightarrow>
        \<exists>e \<in> set (table (family_of r x)). net_contains (fst e) x \<and> bases = snd e \<and>
          (\<forall>e' \<in> set (table (family_of r x)). net_contains (fst e') x \<longrightarrow> pn_ones (fst e') \<le> pn_ones (fst e))"
proof -
  define res where "res = foldl (better x) (- 1, []) (table (family_of r x))"
  note f = better_fold [of "(- 1, [])" x "table (family_of r x)", folded res_def]
  have eq: "LookupIP r (Some x) = (if snd res = [] then None else Some (snd res))"
    by (simp add: LookupIP_def Let_def best_service_fold res_def family_of_def)
  show ?thesis
  proof (cases "snd res = []")
    case True
    then have "res = (- 1, [])" using f table_ok [OF assms] by fastforce
    then show ?thesis using f eq True by fastforce
  next
    case False
    then obtain e where "e \<in> set (table (family_of r x))" "net_contains (fst e) x" "res = (int (pn_ones (fst e)), snd e)"
      using f by fastforce
    then show ?thesis using f eq False by fastforce
  qed
qed

lemma NewNetRegistry_ok:
  assumes "NewNetRegistry L v4 v6 asn ts = Inr r" and "sort_ok (nl_sort L)"
  shows "net_ok r \<and> net_full r"
proof -
  obtain t4 t6 ta where ts: "ts = (t4, t6, ta)" by (cases ts)
  obtain e4 r4 where 4: "loadIP (nl_parseCIDR L) (nl_unmarshal L v4) False t4 empty_net_registry = (e4, r4)" by fastforce
  obtain e6 r6 where 6: "loadIP (nl_parseCIDR L) (nl_unmarshal L v6) True t6 r4 = (e6, r6)" by fastforce
  obtain ea ra where a: "loadASN (nl_sort L) (nl_unmarshal L asn) ta r6 = (ea, ra)" by fastforce
  have none: "e4 = None" "e6 = None" "ea = None" and r: "r = ra\<lparr>nr_fromNetwork := False\<rparr>"
    using assms(1) by (auto simp: NewNetRegistry_def ts 4 6 a split: option.splits)
  have "net_ok empty_net_registry" by (simp add: net_ok_def empty_net_registry_def)
  then have "net_ok ra" using loadIP_ok(1) [OF 4] loadIP_ok(1) [OF 6] loadASN_ok(1) [OF a assms(2)] by blast
  moreover have "net_full ra"
    using loadIP_ok(5) [OF 4 none(1)] loadIP_ok(5,6) [OF 6] loadASN_ok(4-6) [OF a assms(2)] none
    by (simp add: net_full_def)
  ultimately show ?thesis using r by simp
qed

lemma run_ok_const: "P \<Longrightarrow> run_ok step (\<lambda>s x. P) s xs"
  by (induction xs arbitrary: s) auto

lemma net_reachable:
  assumes "NewNetRegistry L v4 v6 asn ts = Inr r0" and "sort_ok (nl_sort L)"
  shows "net_ok (run (net_step L) r0 xs) \<and> net_full (run (net_step L) r0 xs)"
  by (rule netreg.run_inv [OF NewNetRegistry_ok [OF assms] run_ok_const [OF assms(2)]])

lemma refresh_family_frame:
  assumes "refresh_family L fam resp now r = (errs, r')" and "sort_ok (nl_sort L)"
  shows "fam \<noteq> FamilyV4 \<Longrightarrow> nr_v4 r' = nr_v4 r" "fam \<noteq> FamilyV6 \<Longrightarrow> nr_v6 r' = nr_v6 r"
    "fam \<noteq> FamilyASN \<Longrightarrow> nr_asns r' = nr_asns r"
  using assms loadIP_ok(4,6) loadASN_ok(4,5)
  by (cases fam; fastforce simp: refresh_family_def load_family_def split: option.splits prod.splits)+

section \<open>A concrete library\<close>

definition demo_doc :: "string list \<Rightarrow> bootstrapDoc" where
  "demo_doc keys = \<lparr>bd_Publication = 7, bd_Services = [[keys, [''http://a'', ''HTTPS://b'']]]\<rparr>"

definition demo_lib :: net_lib where
  "demo_lib = \<lparr>nl_unmarshal = (\<lambda>raw. if raw = [] then None else Some (demo_doc [raw])),
     nl_parseCIDR = (\<lambda>s. if s = ''8/8'' then Some \<lparr>pn_IP = [8, 0, 0, 0], pn_ones = 8\<rparr>
                         else if s = ''::/0'' then Some \<lparr>pn_IP = replicate 16 0, pn_ones = 0\<rparr> else None),
     nl_sort = sort_key as_lo\<rparr>"

lemma demo_sort: "sort_ok (nl_sort demo_lib)"
  by (simp add: sort_ok_def demo_lib_def)

definition demo_registry :: netRegistry where
  "demo_registry = \<lparr>nr_v4 = [\<lparr>ns_prefixes = [\<lparr>pn_IP = [8, 0, 0, 0], pn_ones = 8\<rparr>], ns_bases = [''HTTPS://b/'']\<rparr>],
     nr_v6 = [\<lparr>ns_prefixes = [\<lparr>pn_IP = replicate 16 0, pn_ones = 0\<rparr>], ns_bases = [''HTTPS://b/'']\<rparr>],
     nr_asns = [\<lparr>as_lo = 5, as_hi = 9, as_bases = [''HTTPS://b/'']\<rparr>],
     nr_publication = 7, nr_loadedAt = 3, nr_fromNetwork = False\<rparr>"

lemma demo_services:
  "usable_service [k, [''http://a'', ''HTTPS://b'']] = Some (k, [''HTTPS://b/''])"
  "trim_space ''8/8'' = ''8/8''" "trim_space ''::/0'' = ''::/0''"
proof -
  have "preferHTTPS [''http://a'', ''HTTPS://b''] = [''HTTPS://b/'']" by code_simp
  then show "usable_service [k, [''http://a'', ''HTTPS://b'']] = Some (k, [''HTTPS://b/''])"
    by (simp add: usable_service_def)
qed code_simp+

lemma demo_range: "parseASNRange ''5-9'' = Some (5, 9)"
proof -
  have "trim_space ''5-9'' = ''5-9''" "cut (CHR ''-'') ''5-9'' = (''5'', ''9'', True)"
    "trim_space ''5'' = ''5''" "trim_space ''9'' = ''9''" "list_all is_digit ''59''"
    "digits_value ''5'' = 5" "digits_value ''9'' = 9"
    by code_simp+
  then show ?thesis by (simp add: parseASNRange_def parse_uint_def)
qed

lemma demo_new: "NewNetRegistry demo_lib ''8/8'' ''::/0'' ''5-9'' (1, 2, 3) = Inr demo_registry"
  by (simp add: NewNetRegistry_def loadIP_def loadASN_def demo_lib_def demo_doc_def ip_service_def service_ranges_def
      demo_services demo_range List.map_filter_simps stamp_def empty_net_registry_def demo_registry_def zero_time_def)

section \<open>Properties\<close>

text \<open>C28. An address is answered by its longest covering prefix. In a registry built from the embedded files
  and refreshed any number of times, \<open>LookupIP\<close> finds nothing exactly when no published prefix of the
  address's family covers it, and otherwise gives the bases of a covering prefix that no other covering
  prefix is more specific than.\<close>

theorem LookupIP_longest_prefix:
  assumes "NewNetRegistry L v4 v6 asn ts = Inr r0" and "sort_ok (nl_sort L)" and "r = run (net_step L) r0 xs"
  shows "case LookupIP r (Some x) of
      None \<Rightarrow> \<forall>e \<in> set (table (family_of r x)). \<not> net_contains (fst e) x
    | Some bases \<Rightarrow>
        \<exists>e \<in> set (table (family_of r x)). net_contains (fst e) x \<and> bases = snd e \<and>
          (\<forall>e' \<in> set (table (family_of r x)). net_contains (fst e') x \<longrightarrow> pn_ones (fst e') \<le> pn_ones (fst e))"
  using LookupIP_cases net_reachable [OF assms(1,2)] assms(3) by blast

theorem LookupIP_longest_prefix_witness:
  "\<exists>e. e \<in> set (table (family_of demo_registry [8, 8, 8, 8])) \<and>
     LookupIP demo_registry (Some [8, 8, 8, 8]) = Some (snd e)"
proof -
  have "LookupIP demo_registry (Some [8, 8, 8, 8]) = Some [''HTTPS://b/'']"
    by (simp add: LookupIP_def demo_registry_def net_contains_def cidr_contains_def ip_value_def Let_def)
  then show ?thesis
    using LookupIP_longest_prefix [OF demo_new demo_sort, of demo_registry "[]" "[8, 8, 8, 8]"] by auto
qed



text \<open>C29. The binary search answers as a scan would. When the ranges of a loaded document are pairwise apart,
  an ASN has exactly the bases of the range that covers it, and none if no range does, whatever order the
  document lists them in and however the sort arranges them.\<close>

theorem LookupASN_exact:
  assumes "sort_ok srt" and "loadASN srt (Some doc) now r0 = (None, r)"
    and "ranges = concat (map service_ranges (bd_Services doc))"
    and "distinct ranges" and "\<forall>a \<in> set ranges. \<forall>b \<in> set ranges. a \<noteq> b \<longrightarrow> apart a b"
  shows "LookupASN r asn = Some bases \<longleftrightarrow> (\<exists>g \<in> set ranges. covers g asn \<and> bases = as_bases g)"
proof -
  have r: "nr_asns r = srt ranges"
    using assms(2,3) by (auto simp: loadASN_def Let_def stamp_def split: if_splits)
  have "ranges_wf ranges"
    using service_ranges_ok assms(3) by (auto simp: ranges_wf_def range_ok_def)
  then show ?thesis
    using LookupASN_sorted [of r asn bases] assms(4,5) sort_ok_set [OF assms(1)] sort_ok_sorted [OF assms(1)]
      sort_ok_distinct [OF assms(1)]
    by (simp add: r ranges_wf_def)
qed

theorem LookupASN_exact_witness:
  "LookupASN (snd (loadASN (sort_key as_lo) (Some (demo_doc [''5-9''])) 0 empty_net_registry)) 7 = Some [''HTTPS://b/'']"
proof -
  have sr: "concat (map service_ranges (bd_Services (demo_doc [''5-9'']))) = [\<lparr>as_lo = 5, as_hi = 9, as_bases = [''HTTPS://b/'']\<rparr>]"
    by (simp add: demo_doc_def service_ranges_def demo_services demo_range List.map_filter_simps)
  have "loadASN (sort_key as_lo) (Some (demo_doc [''5-9''])) 0 empty_net_registry =
      (None, snd (loadASN (sort_key as_lo) (Some (demo_doc [''5-9''])) 0 empty_net_registry))"
    by (simp add: loadASN_def sr)
  from LookupASN_exact [OF _ this sr [symmetric], of 7 "[''HTTPS://b/'']"] show ?thesis
    by (simp add: sort_ok_def covers_def)
qed

text \<open>The step back of four entries does not find a range that more than three narrower ones follow.\<close>

lemma LookupASN_misses_deep_overlap:
  fixes b :: "string list"
  assumes "nr_asns r = map (\<lambda>(lo, hi). \<lparr>as_lo = lo, as_hi = hi, as_bases = b\<rparr>) [(0, 9), (1, 1), (2, 2), (3, 3), (4, 4)]"
  shows "LookupASN r 7 = None \<and> (\<exists>g \<in> set (nr_asns r). covers g 7)"
proof -
  have "search (\<lambda>i. 7 < as_lo (nr_asns r ! i)) 0 5 = 5"
    unfolding assms by (simp add: Let_def search.simps [of _ 0 5] search.simps [of _ 3 5] search.simps [of _ 5 5])
  moreover have "length (nr_asns r) = 5" by (simp add: assms)
  ultimately have "LookupASN r 7 = step_back (nr_asns r) 7 5 4" by (simp add: LookupASN_def Let_def)
  also have "\<dots> = None" unfolding assms by (simp add: numeral_eq_Suc)
  finally show ?thesis by (simp add: assms covers_def)
qed

text \<open>A refresh never loses what it could not replace. A family whose document was not fetched keeps its
  entries, and when no document was fetched the registry is unchanged and the refresh reports all three.\<close>

theorem refresh_keeps_unfetched:
  assumes "NetRefresh L replies now r = (e, r')" and "sort_ok (nl_sort L)"
  shows "(fetchBootstrap (replies FamilyV4) = None \<longrightarrow> nr_v4 r' = nr_v4 r) \<and>
    (fetchBootstrap (replies FamilyV6) = None \<longrightarrow> nr_v6 r' = nr_v6 r) \<and>
    (fetchBootstrap (replies FamilyASN) = None \<longrightarrow> nr_asns r' = nr_asns r) \<and>
    ((\<forall>fam. fetchBootstrap (replies fam) = None) \<longrightarrow>
       r' = r \<and> e = Some (RefreshFailed [FetchError FamilyV4, FetchError FamilyV6, FetchError FamilyASN]))"
proof -
  obtain e4 r4 where 4: "refresh_family L FamilyV4 (replies FamilyV4) (now FamilyV4) r = (e4, r4)" by fastforce
  obtain e6 r6 where 6: "refresh_family L FamilyV6 (replies FamilyV6) (now FamilyV6) r4 = (e6, r6)" by fastforce
  obtain ea ra where a: "refresh_family L FamilyASN (replies FamilyASN) (now FamilyASN) r6 = (ea, ra)" by fastforce
  have r': "nr_v4 r' = nr_v4 ra" "nr_v6 r' = nr_v6 ra" "nr_asns r' = nr_asns ra"
    using assms(1) by (auto simp: NetRefresh_def 4 6 a Let_def split: if_splits)
  note frame = refresh_family_frame [OF 4 assms(2)] refresh_family_frame [OF 6 assms(2)] refresh_family_frame [OF a assms(2)]
  have skip: "fetchBootstrap resp = None \<Longrightarrow> refresh_family L fam resp t s = ([FetchError fam], s)" for fam resp t s
    by (simp add: refresh_family_def)
  have "(\<forall>fam. fetchBootstrap (replies fam) = None) \<Longrightarrow>
      r' = r \<and> e = Some (RefreshFailed [FetchError FamilyV4, FetchError FamilyV6, FetchError FamilyASN])"
    using assms(1) by (simp add: NetRefresh_def skip Let_def)
  moreover have "fetchBootstrap (replies FamilyV4) = None \<Longrightarrow> r4 = r" "fetchBootstrap (replies FamilyV6) = None \<Longrightarrow> r6 = r4"
    "fetchBootstrap (replies FamilyASN) = None \<Longrightarrow> ra = r6"
    using 4 6 a by (simp_all add: skip)
  ultimately show ?thesis using r' frame by simp
qed

theorem refresh_keeps_unfetched_witness:
  "snd (NetRefresh demo_lib (\<lambda>_. None) (\<lambda>_. 9) demo_registry) = demo_registry"
  using refresh_keeps_unfetched [of demo_lib "\<lambda>_. None" "\<lambda>_. 9" demo_registry, OF prod.collapse [symmetric] demo_sort]
  by (simp add: fetchBootstrap_def)

text \<open>An autonomous system prints as it reads. Every 32-bit number, written with its \<open>AS\<close> prefix as
  \<open>Resource.String\<close> writes it or bare, is read back as that number.\<close>

theorem ASN_round_trip:
  assumes "n < 2 ^ 32" and "rc_Kind r = KindASN" and "rc_ASN r = n"
  shows "\<exists>r'. ParseResource pi pc (ResourceString si sn r) = Inr r' \<and> rc_Kind r' = KindASN \<and> rc_ASN r' = n"
proof -
  have digit: "\<not> is_space c \<and> c \<noteq> CHR ''a''" if "is_digit c" for c
    using that by (auto simp: is_digit_def is_space_def)
  have ds: "\<forall>c \<in> set (format_uint n). \<not> is_space c \<and> c \<noteq> CHR ''a''"
    using format_uint_digits [of n] digit by (auto simp: list_all_iff)
  define s where "s = ''AS'' @ format_uint n"
  have "\<forall>c \<in> set s. \<not> is_space c" using ds by (auto simp: s_def is_space_def)
  then have trim: "trim_space s = s" "trim_space (format_uint n) = format_uint n"
    using ds by (blast intro: trim_space_id)+
  have no_as: "\<not> has_prefix (format_uint n) ''as''"
    using ds by (cases "format_uint n") (auto simp: has_prefix_def)
  have bare: "trim_prefix (trim_prefix s ''AS'') ''as'' = format_uint n"
    using no_as by (simp add: trim_prefix_def has_prefix_def s_def)
  have ne: "format_uint n \<noteq> s" "s \<noteq> []" by (auto simp: s_def)
  have "ResourceString si sn r = s" using assms by (simp add: ResourceString_def s_def)
  then show ?thesis
    using parse_format_uint [OF assms(1)] ne by (simp add: ParseResource_def trim bare)
qed

theorem ASN_round_trip_witness:
  "\<exists>r'. ParseResource (\<lambda>_. None) (\<lambda>_. None) (''AS'' @ format_uint 15169) = Inr r' \<and> rc_ASN r' = 15169"
  using ASN_round_trip [of 15169 "\<lparr>rc_Kind = KindASN, rc_Input = [], rc_IP = None, rc_Prefix = None, rc_ASN = 15169\<rparr>"
      "\<lambda>_. None" "\<lambda>_. None" "\<lambda>_. []" "\<lambda>_. []"]
  by (auto simp: ResourceString_def)

text \<open>A mixed-case prefix is not accepted.\<close>

lemma mixed_case_ASN_rejected: "ParseResource (\<lambda>_. None) pc ''As15169'' = Inl (ErrInvalidResource ''As15169'')"
proof -
  have "trim_space ''As15169'' = ''As15169''" "trim_prefix (trim_prefix ''As15169'' ''AS'') ''as'' = ''As15169''"
    "parse_uint 32 ''As15169'' = None" "\<not> contains ''As15169'' ''/''"
    by code_simp+
  then show ?thesis by (simp add: ParseResource_def Let_def)
qed

end
