(* ===== verification/Whois_Text.thy ===== *)
theory Whois_Text
  imports Go_Prelude
begin

text \<open>
  The text rules of the port-43 path: the registry quirks (\<open>internal/whois/quirks.go\<close>), the reading
  of IANA records (\<open>discover.go\<close>), the choice of a referral (\<open>client.go\<close>) and the check of a dial
  target (\<open>transport.go\<close>). \<open>net.SplitHostPort\<close> and \<open>net.JoinHostPort\<close> are modelled as package
  \<open>net\<close> has them.
\<close>

section \<open>Registry quirks\<close>

text \<open>The \<open>Why\<close> field documents an entry; only the tool \<open>tld_info\<close> reads it, and it is modelled there.\<close>

record quirk =
  qk_QueryFormat :: string
  qk_Host :: string
  qk_NoReferral :: bool

definition format_quirk :: "string \<Rightarrow> quirk" where
  "format_quirk f = \<lparr>qk_QueryFormat = f, qk_Host = [], qk_NoReferral = False\<rparr>"

definition no_referral_quirk :: quirk where
  "no_referral_quirk = \<lparr>qk_QueryFormat = [], qk_Host = [], qk_NoReferral = True\<rparr>"

definition quirks :: "(string \<times> quirk) list" where
  "quirks =
     [(''de'', format_quirk ''-T dn,ace %s''),
      (''jp'', format_quirk ''%s/e''),
      (''com'', format_quirk ''domain %s''),
      (''net'', format_quirk ''domain %s''),
      (''fr'', format_quirk ''%s''),
      (''dk'', format_quirk ''--show-handles %s''),
      (''nl'', no_referral_quirk),
      (''kr'', format_quirk ''%s''),
      (''br'', no_referral_quirk),
      (''au'', no_referral_quirk),
      (''eu'', no_referral_quirk),
      (''ru'', no_referral_quirk),
      (''ch'', format_quirk ''%s''),
      (''it'', no_referral_quirk)]"

definition zero_quirk :: quirk where
  "zero_quirk = \<lparr>qk_QueryFormat = [], qk_Host = [], qk_NoReferral = False\<rparr>"

definition normalizeTLD :: "string \<Rightarrow> string" where
  "normalizeTLD tld = to_lower (trim_space (trim_prefix tld ''.''))"

definition QuirkFor :: "string \<Rightarrow> quirk option" where
  "QuirkFor tld = map_of quirks (normalizeTLD tld)"

text \<open>\<open>strings.Replace(s, old, new, 1)\<close>.\<close>

definition replace_first :: "string \<Rightarrow> string \<Rightarrow> string \<Rightarrow> string" where
  "replace_first s old new =
     (case index_of s old of None \<Rightarrow> s | Some i \<Rightarrow> take i s @ new @ drop (i + length old) s)"

definition QueryFor :: "string \<Rightarrow> string \<Rightarrow> string" where
  "QueryFor tld domainASCII =
     (case QuirkFor tld of
        None \<Rightarrow> domainASCII
      | Some q \<Rightarrow>
          if qk_QueryFormat q = [] then domainASCII
          else replace_first (qk_QueryFormat q) ''%s'' domainASCII)"

text \<open>A missing key of the Go map reads as the zero \<open>Quirk\<close>.\<close>

definition quirk_or_zero :: "string \<Rightarrow> quirk" where
  "quirk_or_zero tld = (case QuirkFor tld of None \<Rightarrow> zero_quirk | Some q \<Rightarrow> q)"

definition HostFor :: "string \<Rightarrow> string" where
  "HostFor tld = qk_Host (quirk_or_zero tld)"

definition ReferralsAllowed :: "string \<Rightarrow> bool" where
  "ReferralsAllowed tld \<longleftrightarrow> \<not> qk_NoReferral (quirk_or_zero tld)"

text \<open>\<open>ord\<close> is the order in which the runtime iterates the table.\<close>

definition QuirkTLDs :: "string list \<Rightarrow> string list" where
  "QuirkTLDs ord = filter (\<lambda>t. map_of quirks t \<noteq> None) ord"

section \<open>Fields of a record\<close>

definition splitField :: "string \<Rightarrow> (string \<times> string) option" where
  "splitField line =
     (let line = trim_space (trim_right line [CHR 0x0D])
      in if line = [] \<or> has_prefix line ''%'' \<or> has_prefix line ''#'' then None
         else case index_of line '':'' of
           None \<Rightarrow> None
         | Some i \<Rightarrow>
             if i = 0 then None else Some (trim_space (take i line), trim_space (drop (i + 1) line)))"

definition sanitizeHost :: "string \<Rightarrow> string" where
  "sanitizeHost v =
     (let h = trim_space (trim_suffix (trim_space v) ''.'')
      in if h = [] \<or> contains_any h [CHR '' '', CHR 0x09, CHR ''/'', CHR 0x5C, CHR ''@''] \<or>
            \<not> contains h ''.'' then []
         else to_lower h)"

definition ianaKnowsTLD :: "string \<Rightarrow> bool" where
  "ianaKnowsTLD body =
     (let lower = to_lower body
      in if list_ex (contains lower) [''this query returned 0 objects'', ''not found'', ''no match'']
         then False
         else contains lower ''domain:'' \<or> contains lower ''whois:'' \<or> contains lower ''refer:'')"

fun iana_fields :: "string list \<Rightarrow> string \<Rightarrow> string" where
  "iana_fields [] refer = refer"
| "iana_fields (line # rest) refer =
     (case splitField line of
        None \<Rightarrow> iana_fields rest refer
      | Some (label, v) \<Rightarrow>
          if to_lower label = ''whois'' then
            (if sanitizeHost v \<noteq> [] then sanitizeHost v else iana_fields rest refer)
          else if to_lower label = ''refer'' then
            iana_fields rest (if refer = [] then sanitizeHost v else refer)
          else iana_fields rest refer)"

definition whoisFieldFromIANA :: "string \<Rightarrow> string" where
  "whoisFieldFromIANA body = iana_fields (split_at (CHR 0x0A) body) []"

section \<open>Referrals\<close>

definition referralLabels :: "string list" where
  "referralLabels = [''registrar whois server'', ''whois server'', ''refer'', ''whois'']"

fun referral_scan :: "string list \<Rightarrow> (string \<rightharpoonup> string) \<Rightarrow> (string \<rightharpoonup> string)" where
  "referral_scan [] found = found"
| "referral_scan (line # rest) found =
     (case splitField line of
        None \<Rightarrow> referral_scan rest found
      | Some (label, v) \<Rightarrow>
          (let l = to_lower label; h = sanitizeHost v
           in if l \<in> set referralLabels \<and> found l = None \<and> h \<noteq> []
              then referral_scan rest (found(l \<mapsto> h)) else referral_scan rest found))"

fun first_found :: "string list \<Rightarrow> (string \<rightharpoonup> string) \<Rightarrow> string" where
  "first_found [] found = []"
| "first_found (want # rest) found =
     (case found want of Some h \<Rightarrow> h | None \<Rightarrow> first_found rest found)"

definition referralHost :: "string \<Rightarrow> string" where
  "referralHost body = first_found referralLabels (referral_scan (split_at (CHR 0x0A) body) Map.empty)"

definition hostOnly :: "string \<Rightarrow> string" where
  "hostOnly hostport =
     (case last_index hostport (CHR '':'') of
        Some i \<Rightarrow> if 0 < i \<and> \<not> contains (drop (i + 1) hostport) '']'' then take i hostport else hostport
      | None \<Rightarrow> hostport)"

section \<open>Dial targets\<close>

definition index_byte :: "string \<Rightarrow> char \<Rightarrow> nat option" where
  "index_byte s c = index_any s [c]"

definition SplitHostPort :: "string \<Rightarrow> (string \<times> string) option" where
  "SplitHostPort s =
     (case last_index s (CHR '':'') of
        None \<Rightarrow> None
      | Some i \<Rightarrow>
          if has_prefix s ''['' then
            (case index_byte s (CHR '']'') of
               None \<Rightarrow> None
             | Some e \<Rightarrow>
                 if e + 1 = i \<and> CHR ''['' \<notin> set (drop 1 s) \<and> CHR '']'' \<notin> set (drop (e + 1) s)
                 then Some (take (e - 1) (drop 1 s), drop (i + 1) s) else None)
          else if CHR '':'' \<notin> set (take i s) \<and> CHR ''['' \<notin> set s \<and> CHR '']'' \<notin> set s
          then Some (take i s, drop (i + 1) s) else None)"

definition JoinHostPort :: "string \<Rightarrow> string \<Rightarrow> string" where
  "JoinHostPort host port =
     (if CHR '':'' \<in> set host then ''['' @ host @ '']:'' @ port else host @ '':'' @ port)"

definition DefaultPort :: string where "DefaultPort = ''43''"

datatype host_error = ErrNoHost | NotAHostname string

definition normalizeHost :: "string \<Rightarrow> host_error + string" where
  "normalizeHost host =
     (let h = trim_suffix (trim_space host) ''.''
      in if h = [] then Inl ErrNoHost
         else if contains_any h [CHR '' '', CHR 0x09, CHR 0x0D, CHR 0x0A, CHR ''/'', CHR 0x5C]
         then Inl (NotAHostname host)
         else if SplitHostPort h \<noteq> None then Inr h
         else Inr (JoinHostPort h DefaultPort))"

section \<open>Lemmas\<close>

text \<open>What a referral or an IANA record can put in the place of a host name.\<close>

definition host_shape :: "string \<Rightarrow> bool" where
  "host_shape h \<longleftrightarrow> CHR ''.'' \<in> set h \<and> to_lower h = h \<and>
     (\<forall>c \<in> set [CHR '' '', CHR 0x09, CHR ''/'', CHR 0x5C, CHR ''@'']. c \<notin> set h)"

lemma sanitizeHost_shape: "sanitizeHost v \<noteq> [] \<Longrightarrow> host_shape (sanitizeHost v)"
proof -
  define h where "h = trim_space (trim_suffix (trim_space v) ''.'')"
  assume "sanitizeHost v \<noteq> []"
  then have "sanitizeHost v = to_lower h" "\<not> contains_any h [CHR '' '', CHR 0x09, CHR ''/'', CHR 0x5C, CHR ''@'']"
    "CHR ''.'' \<in> set h"
    by (auto simp: sanitizeHost_def h_def Let_def contains_singleton split: if_splits)
  then show ?thesis
    by (auto simp: host_shape_def contains_any_def set_to_lower no_letter_def)
qed

lemma iana_fields_shape:
  "refer = [] \<or> host_shape refer \<Longrightarrow> iana_fields ls refer = [] \<or> host_shape (iana_fields ls refer)"
  by (induction ls refer rule: iana_fields.induct)
    (auto split: option.splits prod.splits dest: sanitizeHost_shape)

text \<open>The first usable line of a label, and the scan of the code as that search.\<close>

definition usable_field :: "string \<Rightarrow> string \<Rightarrow> string option" where
  "usable_field label line =
     (case splitField line of
        Some (l, v) \<Rightarrow> if to_lower l = label \<and> sanitizeHost v \<noteq> [] then Some (sanitizeHost v) else None
      | None \<Rightarrow> None)"

fun first_usable :: "string \<Rightarrow> string list \<Rightarrow> string option" where
  "first_usable label [] = None"
| "first_usable label (line # rest) =
     (case usable_field label line of Some h \<Rightarrow> Some h | None \<Rightarrow> first_usable label rest)"

lemma referral_scan_first:
  "l \<in> set referralLabels \<Longrightarrow>
   referral_scan ls found l = (case found l of Some h \<Rightarrow> Some h | None \<Rightarrow> first_usable l ls)"
  by (induction ls found rule: referral_scan.induct)
    (auto simp: usable_field_def Let_def split: option.splits prod.splits if_splits)

lemma first_usable_shape: "first_usable l ls = Some h \<Longrightarrow> host_shape h \<and> h \<noteq> []"
  by (induction ls) (auto simp: usable_field_def sanitizeHost_shape split: option.splits if_splits)

lemma first_found_cong:
  "(\<And>l. l \<in> set ws \<Longrightarrow> f l = g l) \<Longrightarrow> first_found ws f = first_found ws g"
  by (induction ws) (auto split: option.split)

lemma first_found_in: "first_found ws f \<noteq> [] \<Longrightarrow> \<exists>l \<in> set ws. f l = Some (first_found ws f)"
  by (induction ws) (auto split: option.splits)

lemma referralHost_eq:
  "referralHost body = first_found referralLabels (\<lambda>l. first_usable l (split_at (CHR 0x0A) body))"
  unfolding referralHost_def by (rule first_found_cong) (simp add: referral_scan_first)

lemma referralHost_shape: "referralHost body \<noteq> [] \<Longrightarrow> host_shape (referralHost body)"
  using first_found_in [of referralLabels "\<lambda>l. first_usable l (split_at (CHR 0x0A) body)"]
    first_usable_shape by (fastforce simp: referralHost_eq)

definition one_line :: "string \<Rightarrow> bool" where
  "one_line s \<longleftrightarrow> CHR 0x0D \<notin> set s \<and> CHR 0x0A \<notin> set s"

lemma index_of_bound: "index_of s sub = Some i \<Longrightarrow> s = take i s @ sub @ drop (i + length sub) s"
proof (induction s arbitrary: i)
  case (Cons c cs)
  show ?case
  proof (cases "has_prefix (c # cs) sub")
    case True
    then show ?thesis using Cons.prems append_take_drop_id [of "length sub" "c # cs"]
      by (simp add: has_prefix_def)
  next
    case False
    then show ?thesis using Cons by auto
  qed
qed (simp split: if_splits)

lemma index_of_length: "index_of s sub = Some i \<Longrightarrow> i \<le> length s"
  by (induction s arbitrary: i) (auto split: if_splits)

lemma quirks_well_formed:
  "list_all (\<lambda>(t, q). one_line (qk_QueryFormat q) \<and>
     (qk_QueryFormat q \<noteq> [] \<longrightarrow> index_of (qk_QueryFormat q) ''%s'' \<noteq> None)) quirks"
  by code_simp

lemma quirk_format:
  assumes "QuirkFor tld = Some q" and "qk_QueryFormat q \<noteq> []"
  obtains pre suf where "index_of (qk_QueryFormat q) ''%s'' = Some (length pre)"
    "qk_QueryFormat q = pre @ ''%s'' @ suf" "one_line pre" "one_line suf"
proof -
  have "one_line (qk_QueryFormat q)" "index_of (qk_QueryFormat q) ''%s'' \<noteq> None"
    using quirks_well_formed map_of_SomeD [of quirks "normalizeTLD tld" q] assms
    by (auto simp: QuirkFor_def list_all_iff)
  then obtain i where i: "index_of (qk_QueryFormat q) ''%s'' = Some i" by auto
  note eq = index_of_bound [OF i]
  define pre where "pre = take i (qk_QueryFormat q)"
  define suf where "suf = drop (i + 2) (qk_QueryFormat q)"
  have f: "qk_QueryFormat q = pre @ ''%s'' @ suf" using eq by (simp add: pre_def suf_def)
  have "length pre = i" using index_of_length [OF i] by (simp add: pre_def)
  then show thesis using that [of pre suf] i f \<open>one_line (qk_QueryFormat q)\<close> by (simp add: one_line_def)
qed

section \<open>Properties\<close>

text \<open>A quirk frames the domain and nothing else: for every TLD the line sent is the domain, verbatim
  and once, between a prefix and a suffix that contain no line break. A domain without one therefore
  stays one line of the protocol.\<close>

theorem QueryFor_frames_domain:
  "\<exists>pre suf. one_line pre \<and> one_line suf \<and> (\<forall>d. QueryFor tld d = pre @ d @ suf)"
proof (cases "\<exists>q. QuirkFor tld = Some q \<and> qk_QueryFormat q \<noteq> []")
  case True
  then obtain q where q: "QuirkFor tld = Some q" "qk_QueryFormat q \<noteq> []" by blast
  then obtain pre suf where f: "index_of (qk_QueryFormat q) ''%s'' = Some (length pre)"
    "qk_QueryFormat q = pre @ ''%s'' @ suf" "one_line pre" "one_line suf" by (rule quirk_format)
  then have "QueryFor tld d = pre @ d @ suf" for d
    using q by (simp add: QueryFor_def replace_first_def)
  then show ?thesis using f by blast
next
  case False
  then have "QueryFor tld d = [] @ d @ []" for d by (auto simp: QueryFor_def split: option.splits)
  then show ?thesis by (intro exI [of _ "[]"]) (simp add: one_line_def)
qed

text \<open>The referral of a response is the most specific one it offers: the labels are tried in their
  order, and for a label the first line counts whose value passes the host check. What comes back is
  empty or has the shape of a host: a dot, lower case, no blank, slash, backslash or at sign.\<close>

theorem referralHost_most_specific:
  "referralHost body = first_found referralLabels (\<lambda>l. first_usable l (split_at (CHR 0x0A) body)) \<and>
   (referralHost body = [] \<or> host_shape (referralHost body))"
  using referralHost_shape referralHost_eq by auto

text \<open>The host check lets a port through, and the dial target keeps it.\<close>

lemma referral_can_name_a_port:
  "normalizeHost (referralHost ''refer: whois.example.net:25'') = Inr ''whois.example.net:25''"
  by code_simp

end
