(* ===== verification/Rate_Limit.thy ===== *)
theory Rate_Limit
  imports Complex_Main Go_Prelude
begin

text \<open>
  Per-upstream politeness: \<open>internal/ratelimit/ratelimit.go\<close>. The token bucket of
  \<open>golang.org/x/time/rate\<close> is a parameter (\<open>rate_lib\<close>, over an arbitrary bucket type), as are
  \<open>http.ParseTime\<close> and the random draw of the jitter. The limiter's own state, the pauses and
  failure counts per host key, is modelled in full. The 64-bit arithmetic of durations is written
  out where a header value can make it wrap.
\<close>

section \<open>Host keys\<close>

definition defaultPorts :: "string list" where
  "defaultPorts = [''43'', ''443'', ''80'']"

definition after_scheme :: "string \<Rightarrow> string" where
  "after_scheme s = (case index_of s ''://'' of Some i \<Rightarrow> drop (i + 3) s | None \<Rightarrow> s)"

definition before_path :: "string \<Rightarrow> string" where
  "before_path s = (case index_any s ''/?#'' of Some i \<Rightarrow> take i s | None \<Rightarrow> s)"

definition split_port :: "string \<Rightarrow> string \<times> string" where
  "split_port s =
     (if has_prefix s ''['' then
        (case index_of s '']'' of
           None \<Rightarrow> (s, [])
         | Some i \<Rightarrow>
             (take (i + 1) s,
              if i + 1 < length s \<and> s ! (i + 1) = CHR '':'' then drop (i + 2) s else []))
      else
        (case last_index s (CHR '':'') of
           None \<Rightarrow> (s, [])
         | Some i \<Rightarrow>
             if 0 < i \<and> \<not> contains (drop (i + 1) s) '':'' then (take i s, drop (i + 1) s) else (s, [])))"

definition HostKey :: "string \<Rightarrow> string" where
  "HostKey hostOrURL =
     (let s = trim_space (to_lower hostOrURL)
      in if s = [] then ''unknown''
         else
           (case split_port (before_path (after_scheme s)) of (host, port) \<Rightarrow>
              (let host = trim_suffix host ''.''
               in if port = [] \<or> port \<in> set defaultPorts then host else host @ '':'' @ port)))"

section \<open>Retry-After and backoff\<close>

definition maxPause :: duration where "maxPause = 15 * minute"

definition capPause :: "duration \<Rightarrow> duration" where
  "capPause d = (if maxPause < d then maxPause else if d < 0 then 0 else d)"

text \<open>\<open>t.Sub(u)\<close> saturates at the ends of the 64-bit range.\<close>

definition time_sub :: "time \<Rightarrow> time \<Rightarrow> duration" where
  "time_sub t u = max (- (2 ^ 63)) (min (t - u) (2 ^ 63 - 1))"

definition ParseRetryAfter :: "(string \<Rightarrow> time option) \<Rightarrow> string \<Rightarrow> time \<Rightarrow> duration option" where
  "ParseRetryAfter parse_time v now =
     (let s = trim_space v
      in if s = [] then None
         else case atoi s of
           Some secs \<Rightarrow> if secs < 0 then None else Some (capPause (wrap64 (secs * second)))
         | None \<Rightarrow>
             (case parse_time s of
                Some t \<Rightarrow>
                  (let d = time_sub t now in if d \<le> 0 then Some 0 else Some (capPause d))
              | None \<Rightarrow> None))"

definition backoffBase :: duration where "backoffBase = 500 * millisecond"
definition backoffMax :: duration where "backoffMax = 60 * second"

text \<open>The ceiling of the draw; \<open>int64n\<close> stands for \<open>rand.Int64N\<close>.\<close>

definition backoff_ceiling :: "int \<Rightarrow> duration" where
  "backoff_ceiling failures =
     (let failures = (if failures < 1 then 1 else failures);
          d = wrap64 (backoffBase * 2 ^ nat (min (failures - 1) 20))
      in if backoffMax < d \<or> d \<le> 0 then backoffMax else d)"

definition Backoff :: "(int \<Rightarrow> int) \<Rightarrow> int \<Rightarrow> duration" where
  "Backoff int64n failures = int64n (backoff_ceiling failures) + 1"

section \<open>The limiter\<close>

definition DefaultRate :: rat where "DefaultRate = 2"
definition DefaultBurst :: int where "DefaultBurst = 5"
definition MaxWait :: duration where "MaxWait = 5 * second"

text \<open>
  \<open>rl_reserve\<close> answers, at a time, with the delay of the reservation or \<open>None\<close> when it cannot be
  granted, and the bucket after it; \<open>rl_cancel\<close> gives the reservation back.
\<close>

record 'b rate_lib =
  rl_new :: "rat \<Rightarrow> int \<Rightarrow> 'b"
  rl_reserve :: "'b \<Rightarrow> time \<Rightarrow> duration option \<times> 'b"
  rl_cancel :: "'b \<Rightarrow> 'b"

record 'b limiter =
  lm_rate :: rat
  lm_burst :: int
  lm_buckets :: "string \<rightharpoonup> 'b"
  lm_pauses :: "string \<rightharpoonup> time"
  lm_failures :: "string \<Rightarrow> int"

datatype acquire_error =
    ErrThrottled string time
  | CannotAdmit string
  | ErrWouldExceedDeadline string duration
  | SleepInterrupted

definition RetryAfter :: "time \<Rightarrow> time \<Rightarrow> duration" where
  "RetryAfter until now = (let d = time_sub until now in if d < 0 then 0 else d)"

definition NewLimiter :: "rat \<Rightarrow> int \<Rightarrow> 'b limiter" where
  "NewLimiter r b = \<lparr>lm_rate = (if r \<le> 0 then DefaultRate else r),
     lm_burst = (if b \<le> 0 then DefaultBurst else b),
     lm_buckets = Map.empty, lm_pauses = Map.empty, lm_failures = (\<lambda>_. 0)\<rparr>"

text \<open>The clock readings of one call, the context's deadline, and whether the sleep ran to its end.\<close>

record acquire_draws =
  aq_now :: time
  aq_reserve :: time
  aq_check :: time
  aq_deadline :: "time option"
  aq_slept :: bool

definition set_bucket :: "'b limiter \<Rightarrow> string \<Rightarrow> 'b \<Rightarrow> 'b limiter" where
  "set_bucket l key b = l\<lparr>lm_buckets := (lm_buckets l)(key \<mapsto> b)\<rparr>"

definition reserve_token ::
    "'b rate_lib \<Rightarrow> 'b limiter \<Rightarrow> string \<Rightarrow> acquire_draws \<Rightarrow> (acquire_error + unit) \<times> 'b limiter" where
  "reserve_token R l key dr =
     (let bucket = (case lm_buckets l key of Some b \<Rightarrow> b | None \<Rightarrow> rl_new R (lm_rate l) (lm_burst l))
      in case rl_reserve R bucket (aq_reserve dr) of
           (None, b) \<Rightarrow> (Inl (CannotAdmit key), set_bucket l key b)
         | (Some delay, b) \<Rightarrow>
             if delay = 0 then (Inr (), set_bucket l key b)
             else if MaxWait < delay then
               (Inl (ErrWouldExceedDeadline key delay), set_bucket l key (rl_cancel R b))
             else if (case aq_deadline dr of None \<Rightarrow> False | Some dl \<Rightarrow> dl < aq_check dr + delay) then
               (Inl (ErrWouldExceedDeadline key delay), set_bucket l key (rl_cancel R b))
             else if \<not> aq_slept dr then (Inl SleepInterrupted, set_bucket l key (rl_cancel R b))
             else (Inr (), set_bucket l key b))"

definition Acquire ::
    "'b rate_lib \<Rightarrow> 'b limiter \<Rightarrow> string \<Rightarrow> acquire_draws \<Rightarrow> (acquire_error + unit) \<times> 'b limiter" where
  "Acquire R l host dr =
     (let key = HostKey host
      in case lm_pauses l key of
           Some until \<Rightarrow>
             if aq_now dr < until then (Inl (ErrThrottled key until), l)
             else reserve_token R (l\<lparr>lm_pauses := (lm_pauses l)(key := None)\<rparr>) key dr
         | None \<Rightarrow> reserve_token R l key dr)"

definition Observe ::
    "(string \<Rightarrow> time option) \<Rightarrow> (int \<Rightarrow> int) \<Rightarrow> 'b limiter \<Rightarrow> string \<Rightarrow> int \<Rightarrow> string \<Rightarrow> time \<Rightarrow> 'b limiter" where
  "Observe parse_time int64n l host status retryAfter now =
     (let key = HostKey host;
          failed = (status = 429 \<or> 500 \<le> status \<or> status = 0)
      in if \<not> failed then
           l\<lparr>lm_failures := (lm_failures l)(key := 0), lm_pauses := (lm_pauses l)(key := None)\<rparr>
         else
           (let n = lm_failures l key + 1;
                l = l\<lparr>lm_failures := (lm_failures l)(key := n)\<rparr>
            in if status = 0 then l
               else case ParseRetryAfter parse_time retryAfter now of
                 Some d \<Rightarrow> l\<lparr>lm_pauses := (lm_pauses l)(key \<mapsto> now + d)\<rparr>
               | None \<Rightarrow> l\<lparr>lm_pauses := (lm_pauses l)(key \<mapsto> now + Backoff int64n n)\<rparr>))"

definition Failures :: "'b limiter \<Rightarrow> string \<Rightarrow> int" where
  "Failures l host = lm_failures l (HostKey host)"

definition PausedUntil :: "'b limiter \<Rightarrow> string \<Rightarrow> time \<Rightarrow> time option" where
  "PausedUntil l host now =
     (case lm_pauses l (HostKey host) of
        None \<Rightarrow> None
      | Some until \<Rightarrow> if now < until then Some until else None)"

section \<open>Bounds\<close>

lemma capPause_bounds: "0 \<le> capPause d" "capPause d \<le> maxPause"
  by (auto simp: capPause_def maxPause_def minute_def)

lemma ParseRetryAfter_bounds:
  "ParseRetryAfter pt v now = Some d \<Longrightarrow> 0 \<le> d \<and> d \<le> maxPause"
  using capPause_bounds
  by (auto simp: ParseRetryAfter_def Let_def maxPause_def minute_def split: if_splits option.splits)

lemma backoff_ceiling_eq:
  "backoff_ceiling n = min (backoffBase * 2 ^ nat (min (max n 1 - 1) 20)) backoffMax"
proof -
  define k where "k = nat (min (max n 1 - 1) 20)"
  have eq: "nat (min ((if n < 1 then 1 else n) - 1) 20) = k" by (simp add: k_def max_def)
  have "k \<le> 20" by (simp add: k_def)
  then have lt: "(2::int) ^ k \<le> 2 ^ 20" by (rule power_increasing) auto
  have pos: "(0::int) < 2 ^ k" by simp
  have "wrap64 (500000000 * x) = 500000000 * x" if "0 < x" "x \<le> 2 ^ 20" for x
    using that by (intro wrap64_id) auto
  from this [OF pos lt] have "wrap64 (backoffBase * 2 ^ k) = backoffBase * 2 ^ k"
    by (simp add: backoffBase_def millisecond_def)
  moreover have "0 < backoffBase * 2 ^ k" using pos by (simp add: backoffBase_def millisecond_def)
  ultimately show ?thesis
    unfolding backoff_ceiling_def Let_def eq k_def [symmetric] by auto
qed

lemma backoff_ceiling_bounds: "0 < backoff_ceiling n" "backoff_ceiling n \<le> backoffMax"
  by (auto simp: backoff_ceiling_def Let_def backoffMax_def second_def)

definition draw_ok :: "(int \<Rightarrow> int) \<Rightarrow> bool" where
  "draw_ok int64n \<longleftrightarrow> (\<forall>d > 0. 0 \<le> int64n d \<and> int64n d < d)"

lemma Backoff_bounds:
  assumes "draw_ok int64n"
  shows "0 < Backoff int64n n" "Backoff int64n n \<le> backoff_ceiling n"
  using assms backoff_ceiling_bounds [of n] by (auto simp: draw_ok_def Backoff_def)

section \<open>The limiter as a state machine\<close>

datatype limit_op =
    OpAcquire string acquire_draws
  | OpObserve string int string time

type_synonym 'b limit_state = "'b limiter \<times> time"

fun limit_time :: "limit_op \<Rightarrow> time" where
  "limit_time (OpAcquire host dr) = aq_now dr"
| "limit_time (OpObserve host status ra now) = now"

fun limit_step ::
    "'b rate_lib \<Rightarrow> (string \<Rightarrow> time option) \<Rightarrow> (int \<Rightarrow> int) \<Rightarrow> 'b limit_state \<Rightarrow> limit_op \<Rightarrow> 'b limit_state" where
  "limit_step R pt rnd (l, t) (OpAcquire host dr) = (snd (Acquire R l host dr), aq_now dr)"
| "limit_step R pt rnd (l, t) (OpObserve host status ra now) = (Observe pt rnd l host status ra now, now)"

definition limit_ok :: "(int \<Rightarrow> int) \<Rightarrow> 'b limit_state \<Rightarrow> limit_op \<Rightarrow> bool" where
  "limit_ok rnd s x \<longleftrightarrow> snd s \<le> limit_time x \<and> draw_ok rnd"

text \<open>No pause reaches further than fifteen minutes past the latest clock reading, and counts are
  not negative.\<close>

fun limit_inv :: "'b limit_state \<Rightarrow> bool" where
  "limit_inv (l, t) \<longleftrightarrow>
     (\<forall>k u. lm_pauses l k = Some u \<longrightarrow> u \<le> t + maxPause) \<and> (\<forall>k. 0 \<le> lm_failures l k)"

lemma set_bucket_simps [simp]:
  "lm_pauses (set_bucket l k b) = lm_pauses l" "lm_failures (set_bucket l k b) = lm_failures l"
  by (simp_all add: set_bucket_def)

lemma reserve_token_simps [simp]:
  "lm_pauses (snd (reserve_token R l key dr)) = lm_pauses l"
  "lm_failures (snd (reserve_token R l key dr)) = lm_failures l"
  by (auto simp: reserve_token_def Let_def split: prod.split option.split)

lemma Acquire_state:
  "lm_failures (snd (Acquire R l host dr)) = lm_failures l"
  "lm_pauses (snd (Acquire R l host dr)) k =
     (case lm_pauses l k of None \<Rightarrow> None
      | Some u \<Rightarrow> if k = HostKey host \<and> u \<le> aq_now dr then None else Some u)"
  by (auto simp: Acquire_def Let_def split: option.split)

lemma Observe_pause_bound:
  assumes "draw_ok rnd" and "lm_pauses (Observe pt rnd l host status ra now) k = Some u"
  shows "lm_pauses l k = Some u \<or> u \<le> now + maxPause"
proof -
  have "Backoff rnd n \<le> maxPause" for n
    using Backoff_bounds(2) [OF assms(1), of n] backoff_ceiling_bounds(2) [of n]
    by (simp add: backoffMax_def maxPause_def time_units)
  then show ?thesis
    using assms(2) ParseRetryAfter_bounds [of pt ra now]
    by (auto simp: Observe_def Let_def split: if_splits option.splits)
qed

lemma limit_step_inv:
  "limit_inv s \<Longrightarrow> limit_ok rnd s x \<Longrightarrow> limit_inv (limit_step R pt rnd s x)"
proof (cases s; cases x)
  fix l t host dr
  assume "limit_inv s" "limit_ok rnd s x" "s = (l, t)" "x = OpAcquire host dr"
  then show ?thesis
    by (auto simp: Acquire_state limit_ok_def split: option.splits if_splits) fastforce+
next
  fix l t host status ra now
  assume a: "limit_inv s" "limit_ok rnd s x" "s = (l, t)" "x = OpObserve host status ra now"
  have "u \<le> now + maxPause" if "lm_pauses (Observe pt rnd l host status ra now) k = Some u" for k u
    using Observe_pause_bound [OF _ that] a by (fastforce simp: limit_ok_def)
  moreover have "0 \<le> lm_failures (Observe pt rnd l host status ra now) k" for k
    using a by (auto simp: Observe_def Let_def split: option.split)
  ultimately show ?thesis using a by simp
qed

interpretation limit: op_system "limit_step R pt rnd" "limit_ok rnd" limit_inv for R pt rnd
  by unfold_locales (rule limit_step_inv)

section \<open>Host keys of plain names\<close>

lemma has_prefix_Cons: "has_prefix (x # xs) (y # ys) \<longleftrightarrow> x = y \<and> has_prefix xs ys"
  by (auto simp: has_prefix_def)

lemma index_of_skip:
  "c \<notin> set h \<Longrightarrow> index_of (h @ t) (c # r) = map_option (\<lambda>i. i + length h) (index_of t (c # r))"
  by (induction h) (auto simp: has_prefix_Cons option.map_comp comp_def option.map_ident)

lemma index_of_absent: "c \<notin> set h \<Longrightarrow> index_of h (c # r) = None"
  using index_of_skip [of c h "[]" r] by simp

lemma index_any_skip:
  "set h \<inter> set cs = {} \<Longrightarrow> index_any (h @ t) cs = map_option (\<lambda>i. i + length h) (index_any t cs)"
  by (induction h) (auto simp: option.map_comp comp_def option.map_ident)

lemma index_any_absent: "set h \<inter> set cs = {} \<Longrightarrow> index_any h cs = None"
  using index_any_skip [of h cs "[]"] by simp

lemma last_index_absent: "x \<notin> set p \<Longrightarrow> last_index p x = None"
  by (induction p) auto

lemma last_index_split: "x \<notin> set p \<Longrightarrow> last_index (h @ x # p) x = Some (length h)"
  by (induction h) (auto simp: last_index_absent)

lemma trim_suffix_char: "h = [] \<or> last h \<noteq> c \<Longrightarrow> trim_suffix h [c] = h"
  by (cases h rule: rev_cases) (auto simp: trim_suffix_def has_suffix_def has_prefix_def)

definition plain_char :: "char \<Rightarrow> bool" where
  "plain_char c \<longleftrightarrow> to_lower_char c = c \<and> \<not> is_space c \<and> c \<notin> set ''/?#:[]''"

text \<open>A host name as the registries write it: lower case, no port, no final dot.\<close>

definition plain_host :: "string \<Rightarrow> bool" where
  "plain_host h \<longleftrightarrow> h \<noteq> [] \<and> list_all plain_char h \<and> last h \<noteq> CHR ''.''"

lemma plain_chars:
  assumes "plain_host h" and "c \<in> set h"
  shows "to_lower_char c = c" "\<not> is_space c" "c \<notin> set ''/?#:[]''"
  using assms by (auto simp: plain_host_def list_all_iff plain_char_def)

lemma plain_host_facts:
  assumes "plain_host h"
  shows "CHR '':'' \<notin> set h" "set h \<inter> set ''/?#'' = {}" "trim_suffix h ''.'' = h" "h \<noteq> []"
proof -
  show "CHR '':'' \<notin> set h" "set h \<inter> set ''/?#'' = {}" using plain_chars(3) [OF assms] by auto
  show "h \<noteq> []" "trim_suffix h ''.'' = h"
    using assms by (simp_all add: plain_host_def trim_suffix_char)
qed

lemma plain_host_bracket: "plain_host h \<Longrightarrow> \<not> has_prefix (h @ t) ''[''"
  using plain_chars(3) [of h "hd h"] by (cases h) (auto simp: has_prefix_def plain_host_def)

lemma HostKey_plain:
  assumes h: "plain_host h"
  shows "HostKey h = h"
  using plain_host_facts [OF h] plain_host_bracket [OF h, of "[]"] plain_chars [OF h]
  by (simp add: HostKey_def to_lower_id trim_space_id after_scheme_def index_of_absent before_path_def
      index_any_absent split_port_def last_index_absent)

lemma HostKey_port:
  assumes h: "plain_host h" and p: "p \<noteq> []" "list_all is_digit p"
  shows "HostKey (h @ '':'' @ p) = (if p \<in> set defaultPorts then h else h @ '':'' @ p)"
proof -
  have digit: "to_lower_char c = c" "\<not> is_space c" "c \<notin> set ''/?#:''" if "is_digit c" for c
    using that by (auto simp: is_digit_def to_lower_char_def is_space_def)
  then have ps: "\<forall>c \<in> set p. to_lower_char c = c" "\<forall>c \<in> set p. \<not> is_space c" "set p \<inter> set ''/?#'' = {}"
      "CHR '':'' \<notin> set p"
    using p(2) by (auto simp: list_all_iff)
  note facts = plain_host_facts [OF h] and bracket = plain_host_bracket [OF h, of "'':'' @ p"]
  have low: "to_lower (h @ '':'' @ p) = h @ '':'' @ p" "trim_space (h @ '':'' @ p) = h @ '':'' @ p"
  proof -
    have "to_lower_char (CHR '':'') = CHR '':''" "\<not> is_space (CHR '':'')"
      by (simp_all add: to_lower_char_def is_space_def)
    then have "\<forall>c \<in> set (h @ '':'' @ p). to_lower_char c = c \<and> \<not> is_space c"
      using plain_chars(1,2) [OF h] ps(1,2) by auto
    then show "to_lower (h @ '':'' @ p) = h @ '':'' @ p" "trim_space (h @ '':'' @ p) = h @ '':'' @ p"
      using to_lower_id trim_space_id by blast+
  qed
  have scheme: "after_scheme (h @ '':'' @ p) = h @ '':'' @ p"
  proof -
    have "index_of ('':'' @ p) ''://'' = None"
      using ps(3) p(1) index_of_absent [OF ps(4), of "''//''"] by (cases p) (auto simp: has_prefix_def)
    then show ?thesis using index_of_skip [OF facts(1), of "'':'' @ p" "''//''"] by (simp add: after_scheme_def)
  qed
  have path: "before_path (h @ '':'' @ p) = h @ '':'' @ p"
    using facts(2) ps(3) index_any_absent [of "h @ '':'' @ p" "''/?#''"] by (auto simp: before_path_def)
  have "split_port (h @ '':'' @ p) = (h, p)"
    using bracket facts(4) last_index_split [OF ps(4), of h] index_of_absent [OF ps(4), of "[]"]
    by (simp add: split_port_def contains_def)
  then show ?thesis using low scheme path facts(3,4) p(1) by (simp add: HostKey_def)
qed

lemma trim_right_by_keep:
  "a \<noteq> [] \<Longrightarrow> \<not> P (last a) \<Longrightarrow> trim_right_by P (a @ b) = a @ trim_right_by P b"
  by (cases a rule: rev_cases) (auto simp: trim_right_by_def dropWhile_append)

lemma HostKey_url:
  assumes h: "plain_host h"
  shows "HostKey (''https://'' @ h @ ''/'' @ path) = h"
proof -
  let ?a = "''https://'' @ h @ ''/''"
  have low: "to_lower (?a @ path) = ?a @ to_lower path"
    using plain_chars(1) [OF h] by (simp add: to_lower_def to_lower_char_def map_idI)
  define p where "p = trim_right_by is_space (to_lower path)"
  have "trim_space (?a @ to_lower path) = trim_right_by is_space (?a @ to_lower path)"
    by (simp add: trim_space_def is_space_def)
  also have "\<dots> = ?a @ p"
    unfolding p_def by (rule trim_right_by_keep) (simp_all add: is_space_def)
  finally have trim: "trim_space (?a @ to_lower path) = ?a @ p" .
  have "index_of (''https'' @ (''://'' @ h @ ''/'' @ p)) ''://'' = Some 5"
    by (subst index_of_skip) (simp_all add: has_prefix_def)
  then have scheme: "after_scheme (?a @ p) = h @ ''/'' @ p" by (simp add: after_scheme_def)
  have "index_any (h @ (''/'' @ p)) ''/?#'' = Some (length h)"
    using plain_host_facts(2) [OF h] by (subst index_any_skip) simp_all
  then have path: "before_path (h @ ''/'' @ p) = h" by (simp add: before_path_def)
  have "split_port h = (h, [])"
    using plain_host_facts(1) [OF h] plain_host_bracket [OF h, of "[]"]
    by (simp add: split_port_def last_index_absent)
  then show ?thesis
    using low trim scheme path plain_host_facts(3) [OF h] by (simp add: HostKey_def)
qed

section \<open>Pauses over time\<close>

fun observes :: "limit_op \<Rightarrow> string \<Rightarrow> bool" where
  "observes (OpObserve host status ra now) key \<longleftrightarrow> HostKey host = key"
| "observes (OpAcquire host dr) key \<longleftrightarrow> False"

lemma pause_step:
  assumes "snd s < until \<Longrightarrow> lm_pauses (fst s) key = Some until" and "\<not> observes x key"
    and "limit_ok rnd s x" and "snd (limit_step R pt rnd s x) < until"
  shows "lm_pauses (fst (limit_step R pt rnd s x)) key = Some until"
  using assms by (cases s; cases x)
    (auto simp: Acquire_state Observe_def Let_def limit_ok_def split: option.splits if_splits)

lemma pause_run:
  assumes "snd s < until \<Longrightarrow> lm_pauses (fst s) key = Some until" and "\<forall>x \<in> set ops. \<not> observes x key"
    and "run_ok (limit_step R pt rnd) (limit_ok rnd) s ops" and "snd (run (limit_step R pt rnd) s ops) < until"
  shows "lm_pauses (fst (run (limit_step R pt rnd) s ops)) key = Some until"
  using assms
proof (induction ops arbitrary: s)
  case (Cons x ops)
  show ?case
    using Cons.IH [of "limit_step R pt rnd s x"] Cons.prems pause_step [of s until key x rnd R pt] by auto
qed simp

section \<open>Properties\<close>

text \<open>One upstream, one budget. A host name, the same name on a default port (the form the WHOIS
  transport uses), and any https URL below it share one key; a port that is not a default one
  keeps its own.\<close>

theorem HostKey_merges_spellings:
  assumes "plain_host h" and "p \<noteq> []" and "list_all is_digit p"
  shows "HostKey h = h \<and> HostKey (''https://'' @ h @ ''/'' @ path) = h \<and>
         HostKey (h @ '':'' @ p) = (if p \<in> {''43'', ''443'', ''80''} then h else h @ '':'' @ p)"
  using HostKey_plain [OF assms(1)] HostKey_url [OF assms(1)] HostKey_port [OF assms]
  by (simp add: defaultPorts_def)

theorem HostKey_merges_spellings_witness:
  "HostKey ''whois.nic.uk'' = ''whois.nic.uk'' \<and> HostKey (''whois.nic.uk'' @ '':'' @ ''4343'') = ''whois.nic.uk:4343''"
  using HostKey_merges_spellings [of "''whois.nic.uk''" "''4343''" "[]"]
  by (simp add: plain_host_def plain_char_def to_lower_char_def is_space_def is_digit_def)


definition demo_rate :: "unit rate_lib" where
  "demo_rate = \<lparr>rl_new = (\<lambda>r b. ()), rl_reserve = (\<lambda>b t. (Some 0, b)), rl_cancel = id\<rparr>"

definition demo_draw :: "time \<Rightarrow> acquire_draws" where
  "demo_draw t = \<lparr>aq_now = t, aq_reserve = t, aq_check = t, aq_deadline = None, aq_slept = True\<rparr>"

lemma demo_plain: "plain_host ''rdap.org''"
  by (simp add: plain_host_def plain_char_def to_lower_char_def is_space_def)

lemma demo_retry: "ParseRetryAfter (\<lambda>_. None) ''30'' now = Some (30 * second)"
  by (simp add: ParseRetryAfter_def trim_space_def trim_right_by_def is_space_def atoi_def has_prefix_def
      is_digit_def digits_value_def capPause_def wrap64_def maxPause_def time_units)


text \<open>Our own backoff is positive, at most one minute, and at most half a second doubled once per
  failure after the first; the shift is capped at 20, so the 64-bit value never wraps.\<close>

theorem Backoff_window:
  assumes "draw_ok int64n"
  shows "0 < Backoff int64n n \<and> Backoff int64n n \<le> 60 * second \<and>
         Backoff int64n n \<le> 500 * millisecond * 2 ^ nat (min (max n 1 - 1) 20)"
  using Backoff_bounds [OF assms, of n] backoff_ceiling_bounds(2) [of n] backoff_ceiling_eq [of n]
  by (simp add: backoffMax_def backoffBase_def)

theorem Backoff_window_witness: "0 < Backoff (\<lambda>d. d - 1) 3"
  using Backoff_window [of "\<lambda>d. d - 1" 3] by (simp add: draw_ok_def)

text \<open>The delta-seconds form of \<open>Retry-After\<close>, exactly: up to 9223372036 seconds the pause is the number
  of seconds, capped at fifteen minutes; one second more wraps the 64-bit product to a negative
  duration, and the longest pauses an upstream can ask for become no pause at all.\<close>

theorem ParseRetryAfter_seconds:
  assumes "trim_space v \<noteq> []" and "atoi (trim_space v) = Some secs" and "0 \<le> secs"
  shows "(secs \<le> 9223372036 \<longrightarrow> ParseRetryAfter pt v now = Some (min (secs * second) maxPause)) \<and>
         (secs = 9223372037 \<longrightarrow> ParseRetryAfter pt v now = Some 0)"
proof -
  have "wrap64 (secs * second) = secs * second" if "secs \<le> 9223372036"
    using that assms(3) by (intro wrap64_id) (auto simp: second_def)
  moreover have "wrap64 (9223372037 * second) < 0" by (simp add: wrap64_def second_def)
  ultimately show ?thesis
    using assms by (auto simp: ParseRetryAfter_def Let_def capPause_def min_def maxPause_def time_units)
qed

theorem ParseRetryAfter_seconds_witness: "ParseRetryAfter (\<lambda>_. None) ''9223372037'' 0 = Some 0"
  using ParseRetryAfter_seconds [of "''9223372037''" 9223372037 "\<lambda>_. None" 0]
  by (simp add: trim_space_def trim_right_by_def is_space_def atoi_def has_prefix_def is_digit_def digits_value_def)

end
