(* ===== verification/Breaker.thy ===== *)
theory Breaker
  imports Rate_Limit
begin

text \<open>
  The circuit breaker and the guard around every upstream call: \<open>internal/ratelimit/breaker.go\<close> and
  \<open>guard.go\<close>. \<open>Allow\<close> and \<open>record\<close> are the two locked sections of a guarded call; the invariant
  holds in every interleaving of them, and calls that follow one another refine the three-state
  automaton \<open>spec_call\<close>.
\<close>

section \<open>Data\<close>

datatype breaker_pos = Closed | Open | HalfOpen

record breaker_state =
  bs_state :: breaker_pos
  bs_failures :: int
  bs_successes :: int
  bs_openUntil :: time
  bs_inFlightProbe :: bool

record breaker =
  br_threshold :: int
  br_cooldown :: duration
  br_probes :: int
  br_hosts :: "string \<rightharpoonup> breaker_state"

datatype circuit_error = ErrCircuitOpen string time

definition BreakerThreshold :: int where "BreakerThreshold = 5"
definition BreakerCooldown :: duration where "BreakerCooldown = 30 * second"
definition BreakerHalfOpenProbes :: int where "BreakerHalfOpenProbes = 2"

definition NewBreaker :: "int \<Rightarrow> duration \<Rightarrow> int \<Rightarrow> breaker" where
  "NewBreaker threshold cooldown probes =
     \<lparr>br_threshold = (if threshold \<le> 0 then BreakerThreshold else threshold),
      br_cooldown = (if cooldown \<le> 0 then BreakerCooldown else cooldown),
      br_probes = (if probes \<le> 0 then BreakerHalfOpenProbes else probes),
      br_hosts = Map.empty\<rparr>"

section \<open>Operations\<close>

definition fresh_state :: breaker_state where
  "fresh_state = \<lparr>bs_state = Closed, bs_failures = 0, bs_successes = 0, bs_openUntil = zero_time,
     bs_inFlightProbe = False\<rparr>"

definition host_state :: "breaker \<Rightarrow> string \<Rightarrow> breaker_state" where
  "host_state b key = (case br_hosts b key of None \<Rightarrow> fresh_state | Some st \<Rightarrow> st)"

definition put_state :: "breaker \<Rightarrow> string \<Rightarrow> breaker_state \<Rightarrow> breaker" where
  "put_state b key st = b\<lparr>br_hosts := (br_hosts b)(key \<mapsto> st)\<rparr>"

text \<open>\<open>Allow\<close> on one host's state: the refusal, or the state after admission.\<close>

definition allow_state :: "duration \<Rightarrow> string \<Rightarrow> breaker_state \<Rightarrow> time \<Rightarrow> circuit_error + breaker_state" where
  "allow_state cooldown key st now =
     (case bs_state st of
        Open \<Rightarrow>
          if now < bs_openUntil st then Inl (ErrCircuitOpen key (bs_openUntil st))
          else Inr (st\<lparr>bs_state := HalfOpen, bs_successes := 0, bs_inFlightProbe := True\<rparr>)
      | HalfOpen \<Rightarrow>
          if bs_inFlightProbe st then Inl (ErrCircuitOpen key (now + cooldown))
          else Inr (st\<lparr>bs_inFlightProbe := True\<rparr>)
      | Closed \<Rightarrow> Inr st)"

text \<open>The result carries the key the release function was made for.\<close>

definition Allow :: "breaker \<Rightarrow> string \<Rightarrow> time \<Rightarrow> (circuit_error + string) \<times> breaker" where
  "Allow b host now =
     (let key = HostKey host; st = host_state b key
      in case allow_state (br_cooldown b) key st now of
           Inl e \<Rightarrow> (Inl e, put_state b key st)
         | Inr st' \<Rightarrow> (Inr key, put_state b key st'))"

definition record_state :: "breaker \<Rightarrow> breaker_state \<Rightarrow> bool \<Rightarrow> time \<Rightarrow> breaker_state" where
  "record_state b st success now =
     (let st = st\<lparr>bs_inFlightProbe := False\<rparr>
      in if success then
           (let st = st\<lparr>bs_failures := 0\<rparr>
            in case bs_state st of
                 HalfOpen \<Rightarrow>
                   (let n = bs_successes st + 1
                    in if br_probes b \<le> n then st\<lparr>bs_state := Closed, bs_successes := 0\<rparr>
                       else st\<lparr>bs_successes := n\<rparr>)
               | _ \<Rightarrow> st\<lparr>bs_state := Closed\<rparr>)
         else
           (let st = st\<lparr>bs_failures := bs_failures st + 1, bs_successes := 0\<rparr>
            in if bs_state st = HalfOpen \<or> br_threshold b \<le> bs_failures st
               then st\<lparr>bs_state := Open, bs_openUntil := now + br_cooldown b\<rparr> else st))"

definition br_record :: "breaker \<Rightarrow> string \<Rightarrow> bool \<Rightarrow> time \<Rightarrow> breaker" where
  "br_record b key success now =
     (case br_hosts b key of
        None \<Rightarrow> b
      | Some st \<Rightarrow> put_state b key (record_state b st success now))"

definition BreakerState :: "breaker \<Rightarrow> string \<Rightarrow> time \<Rightarrow> breaker_pos" where
  "BreakerState b host now =
     (case br_hosts b (HostKey host) of
        None \<Rightarrow> Closed
      | Some st \<Rightarrow>
          if bs_state st = Open \<and> \<not> now < bs_openUntil st then HalfOpen else bs_state st)"

text \<open>\<open>ord\<close> is the order in which the runtime iterates the host map.\<close>

definition OpenHosts :: "breaker \<Rightarrow> string list \<Rightarrow> time \<Rightarrow> string list" where
  "OpenHosts b ord now =
     filter (\<lambda>h. case br_hosts b h of None \<Rightarrow> False
                 | Some st \<Rightarrow> bs_state st = Open \<and> now < bs_openUntil st) ord"

lemmas breaker_defs = Allow_def allow_state_def br_record_def record_state_def put_state_def host_state_def Let_def

section \<open>Invariant over interleaved sections\<close>

datatype breaker_op = OpAllow string time | OpRecord string bool time

fun breaker_step :: "breaker \<Rightarrow> breaker_op \<Rightarrow> breaker" where
  "breaker_step b (OpAllow host now) = snd (Allow b host now)"
| "breaker_step b (OpRecord key success now) = br_record b key success now"

definition state_inv :: "breaker \<Rightarrow> breaker_state \<Rightarrow> bool" where
  "state_inv b st \<longleftrightarrow>
     0 \<le> bs_failures st \<and> 0 \<le> bs_successes st \<and> bs_successes st < br_probes b \<and>
     (bs_state st = Closed \<longrightarrow> bs_failures st < br_threshold b) \<and>
     (bs_inFlightProbe st \<longrightarrow> bs_state st = HalfOpen)"

definition breaker_inv :: "breaker \<Rightarrow> bool" where
  "breaker_inv b \<longleftrightarrow>
     0 < br_threshold b \<and> 0 < br_cooldown b \<and> 0 < br_probes b \<and>
     (\<forall>key st. br_hosts b key = Some st \<longrightarrow> state_inv b st)"

lemma put_state_simps [simp]:
  "br_threshold (put_state b k st) = br_threshold b" "br_cooldown (put_state b k st) = br_cooldown b"
  "br_probes (put_state b k st) = br_probes b"
  "br_hosts (put_state b k st) = (br_hosts b)(k \<mapsto> st)"
  "state_inv (put_state b k st) = state_inv b"
  by (simp_all add: put_state_def state_inv_def fun_eq_iff)

lemma host_state_put [simp]: "host_state (put_state b k st) k' = (if k' = k then st else host_state b k')"
  by (simp add: host_state_def)

lemma breaker_inv_put: "breaker_inv b \<Longrightarrow> state_inv b st \<Longrightarrow> breaker_inv (put_state b k st)"
  by (simp add: breaker_inv_def)

lemma host_state_inv: "breaker_inv b \<Longrightarrow> state_inv b (host_state b k)"
  by (auto simp: breaker_inv_def host_state_def state_inv_def fresh_state_def split: option.splits)

lemma allow_state_inv:
  "breaker_inv b \<Longrightarrow> state_inv b st \<Longrightarrow> allow_state cd key st now = Inr st' \<Longrightarrow> state_inv b st'"
  by (auto simp: allow_state_def state_inv_def breaker_inv_def split: breaker_pos.splits if_splits)

lemma record_state_inv: "breaker_inv b \<Longrightarrow> state_inv b st \<Longrightarrow> state_inv b (record_state b st ok now)"
  by (auto simp: record_state_def state_inv_def breaker_inv_def Let_def split: breaker_pos.splits)

lemma record_state_put [simp]: "record_state (put_state b k st') st ok now = record_state b st ok now"
  by (simp add: record_state_def Let_def split: breaker_pos.split)

lemma record_state_idle [simp]: "\<not> bs_inFlightProbe (record_state b st ok now)"
  by (simp add: record_state_def Let_def split: breaker_pos.split)

lemma breaker_step_inv: "breaker_inv b \<Longrightarrow> breaker_inv (breaker_step b x)"
proof (cases x)
  case (OpAllow host now)
  assume inv: "breaker_inv b"
  note st = host_state_inv [OF inv, of "HostKey host"]
  show ?thesis using OpAllow inv st allow_state_inv [OF inv st]
    by (auto simp: Allow_def Let_def breaker_inv_put split: sum.split)
next
  case (OpRecord key success now)
  assume inv: "breaker_inv b"
  then show ?thesis using OpRecord
    by (auto simp: br_record_def breaker_inv_def record_state_inv split: option.splits)
qed

interpretation breaker: op_system breaker_step "\<lambda>b x. True" breaker_inv
  by unfold_locales (rule breaker_step_inv)

lemma NewBreaker_inv: "breaker_inv (NewBreaker t c p)"
  by (simp add: breaker_inv_def NewBreaker_def BreakerThreshold_def BreakerCooldown_def
      BreakerHalfOpenProbes_def second_def)

section \<open>Calls in sequence, and their specification\<close>

text \<open>One guarded call: admission, the outcome, its record. A refused call leaves no outcome.\<close>

definition breaker_call :: "breaker \<Rightarrow> string \<Rightarrow> time \<Rightarrow> bool \<Rightarrow> time \<Rightarrow> bool \<times> breaker" where
  "breaker_call b host now ok done =
     (case Allow b host now of
        (Inl e, b') \<Rightarrow> (False, b')
      | (Inr key, b') \<Rightarrow> (True, br_record b' key ok done))"

datatype spec_state = SClosed int | SOpen time | SHalf int

fun spec_call :: "int \<Rightarrow> duration \<Rightarrow> int \<Rightarrow> spec_state \<Rightarrow> time \<Rightarrow> bool \<Rightarrow> time \<Rightarrow> bool \<times> spec_state" where
  "spec_call thr cool prb (SClosed n) now ok done =
     (True, if ok then SClosed 0 else if thr \<le> n + 1 then SOpen (done + cool) else SClosed (n + 1))"
| "spec_call thr cool prb (SOpen until) now ok done =
     (if now < until then (False, SOpen until)
      else (True, if \<not> ok then SOpen (done + cool) else if prb \<le> 1 then SClosed 0 else SHalf 1))"
| "spec_call thr cool prb (SHalf n) now ok done =
     (True, if \<not> ok then SOpen (done + cool) else if prb \<le> n + 1 then SClosed 0 else SHalf (n + 1))"

definition spec_of :: "breaker_state \<Rightarrow> spec_state" where
  "spec_of st =
     (case bs_state st of Closed \<Rightarrow> SClosed (bs_failures st) | Open \<Rightarrow> SOpen (bs_openUntil st)
      | HalfOpen \<Rightarrow> SHalf (bs_successes st))"

definition idle :: "breaker \<Rightarrow> string \<Rightarrow> bool" where
  "idle b host \<longleftrightarrow> \<not> bs_inFlightProbe (host_state b (HostKey host))"

lemma breaker_call_refines:
  assumes "breaker_inv b" and "idle b host"
    and "breaker_call b host now ok done = (admitted, b')"
  shows "spec_call (br_threshold b) (br_cooldown b) (br_probes b) (spec_of (host_state b (HostKey host))) now ok done =
           (admitted, spec_of (host_state b' (HostKey host)))"
    and "idle b' host"
    and "br_threshold b' = br_threshold b" "br_cooldown b' = br_cooldown b" "br_probes b' = br_probes b"
    and "k \<noteq> HostKey host \<Longrightarrow> host_state b' k = host_state b k"
proof -
  define st where "st = host_state b (HostKey host)"
  have inv: "state_inv b st" "\<not> bs_inFlightProbe st"
    using host_state_inv [OF assms(1)] assms(2) by (simp_all add: st_def idle_def)
  have eq: "(admitted, b') =
      (case allow_state (br_cooldown b) (HostKey host) st now of
         Inl e \<Rightarrow> (False, put_state b (HostKey host) st)
       | Inr st' \<Rightarrow> (True, put_state (put_state b (HostKey host) st') (HostKey host) (record_state b st' ok done)))"
    using assms(3) by (auto simp: breaker_call_def Allow_def Let_def st_def br_record_def split: sum.splits)
  then show "spec_call (br_threshold b) (br_cooldown b) (br_probes b) (spec_of (host_state b (HostKey host))) now ok done =
           (admitted, spec_of (host_state b' (HostKey host)))"
    using inv unfolding st_def [symmetric]
    by (cases "bs_state st") (auto simp: allow_state_def spec_of_def record_state_def Let_def state_inv_def)
  show "idle b' host" using eq inv(2) by (auto simp: idle_def split: sum.splits)
  show "br_threshold b' = br_threshold b" "br_cooldown b' = br_cooldown b" "br_probes b' = br_probes b"
    using eq by (auto split: sum.splits)
  show "k \<noteq> HostKey host \<Longrightarrow> host_state b' k = host_state b k" using eq by (auto split: sum.splits)
qed

fun breaker_calls :: "breaker \<Rightarrow> string \<Rightarrow> (time \<times> bool \<times> time) list \<Rightarrow> bool list \<times> breaker" where
  "breaker_calls b host [] = ([], b)"
| "breaker_calls b host ((now, ok, done) # cs) =
     (case breaker_call b host now ok done of (a, b') \<Rightarrow>
        (case breaker_calls b' host cs of (as, b'') \<Rightarrow> (a # as, b'')))"

fun spec_calls :: "int \<Rightarrow> duration \<Rightarrow> int \<Rightarrow> spec_state \<Rightarrow> (time \<times> bool \<times> time) list \<Rightarrow> bool list \<times> spec_state" where
  "spec_calls thr cool prb s [] = ([], s)"
| "spec_calls thr cool prb s ((now, ok, done) # cs) =
     (case spec_call thr cool prb s now ok done of (a, s') \<Rightarrow>
        (case spec_calls thr cool prb s' cs of (as, s'') \<Rightarrow> (a # as, s'')))"

lemma breaker_call_inv:
  "breaker_inv b \<Longrightarrow> breaker_call b host now ok done = (a, b') \<Longrightarrow> breaker_inv b'"
  using breaker_step_inv [of b "OpAllow host now"]
    breaker_step_inv [of "snd (Allow b host now)" "OpRecord (HostKey host) ok done"]
  by (auto simp: breaker_call_def Allow_def Let_def split: sum.splits)

lemma breaker_calls_refine:
  assumes "breaker_inv b" and "idle b host" and "breaker_calls b host cs = (as, b')"
  shows "spec_calls (br_threshold b) (br_cooldown b) (br_probes b) (spec_of (host_state b (HostKey host))) cs =
           (as, spec_of (host_state b' (HostKey host)))"
  using assms
proof (induction cs arbitrary: b as b')
  case (Cons c cs)
  obtain now ok dn where c: "c = (now, ok, dn)" by (cases c)
  obtain a b1 where b1: "breaker_call b host now ok dn = (a, b1)" by force
  obtain as' b2 where b2: "breaker_calls b1 host cs = (as', b2)" by force
  note r = breaker_call_refines [OF Cons.prems(1,2) b1]
  have "spec_calls (br_threshold b) (br_cooldown b) (br_probes b) (spec_of (host_state b1 (HostKey host))) cs =
      (as', spec_of (host_state b2 (HostKey host)))"
    using Cons.IH [OF breaker_call_inv [OF Cons.prems(1) b1] r(2) b2] r(3-5) by simp
  then show ?case using Cons.prems(3) c b1 b2 r(1) by simp
qed simp

section \<open>The guard\<close>

record outcome =
  oc_Status :: int
  oc_RetryAfter :: string
  oc_Err :: "string option"

record 'b guard =
  gd_lim :: "'b limiter option"
  gd_br :: "breaker option"

datatype guard_error =
    GuardOpen circuit_error
  | GuardLimited acquire_error
  | GuardUpstream string

definition healthy :: "outcome \<Rightarrow> bool" where
  "healthy out =
     (if oc_Status out = 0 \<and> oc_Err out \<noteq> None then False
      else if oc_Status out = 429 then False
      else if 500 \<le> oc_Status out then False
      else True)"

text \<open>What one guarded call reads from outside: the clocks, the limiter's draws, and the outcome the
  upstream would have. The second component of the result says whether the upstream was called.\<close>

record guard_draws =
  gr_allow :: time
  gr_acquire :: acquire_draws
  gr_outcome :: outcome
  gr_observe :: time
  gr_record :: time

definition release :: "breaker option \<Rightarrow> string \<Rightarrow> bool \<Rightarrow> time \<Rightarrow> breaker option" where
  "release br host success now = map_option (\<lambda>b. br_record b (HostKey host) success now) br"

definition guarded_call ::
    "'b rate_lib \<Rightarrow> (string \<Rightarrow> time option) \<Rightarrow> (int \<Rightarrow> int) \<Rightarrow> 'b guard \<Rightarrow> string \<Rightarrow> guard_draws \<Rightarrow>
     guard_error option \<times> bool \<times> 'b guard" where
  "guarded_call R pt rnd g host dr =
     (let out = gr_outcome dr;
          g = (case gd_lim g of None \<Rightarrow> g
               | Some l \<Rightarrow> g\<lparr>gd_lim := Some (Observe pt rnd l host (oc_Status out) (oc_RetryAfter out) (gr_observe dr))\<rparr>)
      in (map_option GuardUpstream (oc_Err out), True,
          g\<lparr>gd_br := release (gd_br g) host (healthy out) (gr_record dr)\<rparr>))"

definition GuardDo ::
    "'b rate_lib \<Rightarrow> (string \<Rightarrow> time option) \<Rightarrow> (int \<Rightarrow> int) \<Rightarrow> 'b guard option \<Rightarrow> string \<Rightarrow> guard_draws \<Rightarrow>
     guard_error option \<times> bool \<times> 'b guard option" where
  "GuardDo R pt rnd g host dr =
     (case g of
        None \<Rightarrow> (map_option GuardUpstream (oc_Err (gr_outcome dr)), True, None)
      | Some g \<Rightarrow>
          (case (case gd_br g of
                   None \<Rightarrow> (None, g)
                 | Some b \<Rightarrow>
                     (case Allow b host (gr_allow dr) of
                        (Inl e, b') \<Rightarrow> (Some e, g\<lparr>gd_br := Some b'\<rparr>)
                      | (Inr _, b') \<Rightarrow> (None, g\<lparr>gd_br := Some b'\<rparr>))) of
             (Some e, g) \<Rightarrow> (Some (GuardOpen e), False, Some g)
           | (None, g) \<Rightarrow>
               (case gd_lim g of
                  None \<Rightarrow> (case guarded_call R pt rnd g host dr of (e, c, g) \<Rightarrow> (e, c, Some g))
                | Some l \<Rightarrow>
                    (case Acquire R l host (gr_acquire dr) of
                       (Inl e, l') \<Rightarrow>
                         (Some (GuardLimited e), False,
                          Some (g\<lparr>gd_lim := Some l', gd_br := release (gd_br g) host True (gr_record dr)\<rparr>))
                     | (Inr _, l') \<Rightarrow>
                         (case guarded_call R pt rnd (g\<lparr>gd_lim := Some l'\<rparr>) host dr of (e, c, g) \<Rightarrow> (e, c, Some g))))))"

definition GuardState :: "'b guard option \<Rightarrow> string \<Rightarrow> time \<Rightarrow> breaker_pos" where
  "GuardState g host now =
     (case g of None \<Rightarrow> Closed
      | Some g \<Rightarrow> (case gd_br g of None \<Rightarrow> Closed | Some b \<Rightarrow> BreakerState b host now))"

definition GuardOpenHosts :: "'b guard option \<Rightarrow> string list \<Rightarrow> time \<Rightarrow> string list" where
  "GuardOpenHosts g ord now =
     (case g of None \<Rightarrow> []
      | Some g \<Rightarrow> (case gd_br g of None \<Rightarrow> [] | Some b \<Rightarrow> OpenHosts b ord now))"

section \<open>Properties\<close>

lemma NewBreaker_start:
  "idle (NewBreaker t c p) host" "spec_of (host_state (NewBreaker t c p) key) = SClosed 0"
  by (simp_all add: idle_def host_state_def NewBreaker_def fresh_state_def spec_of_def)

text \<open>C31. Guarded calls that follow one another behave as the three-state automaton: which of them are
  admitted, and the position the breaker is left in, are those of \<open>spec_calls\<close>, for every sequence
  of calls, outcomes and clock readings and whatever the options.\<close>

theorem breaker_refines_automaton:
  "let b = NewBreaker t c p; (admitted, b') = breaker_calls b host cs
   in spec_calls (br_threshold b) (br_cooldown b) (br_probes b) (SClosed 0) cs =
        (admitted, spec_of (host_state b' (HostKey host)))"
  using breaker_calls_refine [OF NewBreaker_inv NewBreaker_start(1), of t c p host cs]
  by (simp add: NewBreaker_start(2) Let_def split: prod.split)

lemma spec_failures:
  assumes "\<forall>(now, ok, dn) \<in> set cs. \<not> ok" and "n + int (length cs) < thr"
  shows "spec_calls thr cool prb (SClosed n) cs = (replicate (length cs) True, SClosed (n + int (length cs)))"
  using assms by (induction cs arbitrary: n) (auto simp: ac_simps)

lemma spec_calls_snoc:
  "spec_calls thr cool prb s (cs @ [(now, ok, dn)]) =
     (case spec_calls thr cool prb s cs of (as, s') \<Rightarrow>
        (case spec_call thr cool prb s' now ok dn of (a, s'') \<Rightarrow> (as @ [a], s'')))"
  by (induction thr cool prb s cs rule: spec_calls.induct) (auto split: prod.splits)

text \<open>The breaker opens at its threshold and rests for its cooldown. After as many failed calls in a
  row as the threshold says, the next call is admitted exactly when the cooldown since the last
  failure is over.\<close>

theorem breaker_opens_at_threshold:
  assumes "b = NewBreaker t c p" and "int (length cs) + 1 = br_threshold b"
    and "\<forall>(now, ok, dn) \<in> set cs. \<not> ok"
    and "breaker_calls b host (cs @ [(now, False, failed_at)]) = (admitted, b')"
  shows "fst (breaker_call b' host now' ok' done') \<longleftrightarrow> failed_at + br_cooldown b \<le> now'"
proof -
  have inv: "breaker_inv b" "idle b host" using assms(1) NewBreaker_inv NewBreaker_start by simp_all
  have "spec_calls (br_threshold b) (br_cooldown b) (br_probes b) (SClosed 0) cs =
      (replicate (length cs) True, SClosed (int (length cs)))"
    using spec_failures [OF assms(3), of 0 "br_threshold b"] assms(2) by simp
  then have "spec_of (host_state b' (HostKey host)) = SOpen (failed_at + br_cooldown b)"
    using breaker_calls_refine [OF inv assms(4)] assms(1,2)
    by (simp add: NewBreaker_start(2) spec_calls_snoc)
  then have "bs_state (host_state b' (HostKey host)) = Open"
      "bs_openUntil (host_state b' (HostKey host)) = failed_at + br_cooldown b"
    by (simp_all add: spec_of_def split: breaker_pos.splits)
  then show ?thesis by (simp add: breaker_call_def Allow_def allow_state_def Let_def)
qed

theorem breaker_opens_at_threshold_witness:
  "\<not> fst (breaker_call (snd (breaker_calls (NewBreaker 2 10 2) ''h'' ([(0, False, 1)] @ [(2, False, 3)]))) ''h'' 12 True 13)"
  using breaker_opens_at_threshold [OF refl, of "[(0, False, 1)]" 2 10 2 "''h''" 2 3 _ _ 12 True 13, OF _ _ surjective_pairing]
  by (simp add: NewBreaker_def del: append_Cons append_Nil)

text \<open>In every interleaving of admissions and results, on any number of hosts: a closed breaker has
  fewer failures than its threshold, a probe is only marked in flight while half-open, and the
  successes counted in half-open stay below the number that closes it.\<close>

theorem breaker_positions_consistent:
  "let b = run breaker_step (NewBreaker t c p) ops in
     (\<nexists>key st. br_hosts b key = Some st \<and> bs_state st = Closed \<and> br_threshold b \<le> bs_failures st) \<and>
     (\<nexists>key st. br_hosts b key = Some st \<and> bs_inFlightProbe st \<and> bs_state st \<noteq> HalfOpen) \<and>
     (\<nexists>key st. br_hosts b key = Some st \<and> br_probes b \<le> bs_successes st)"
  using breaker.run_inv [OF NewBreaker_inv, of t c p ops]
  by (fastforce simp: Let_def breaker_inv_def state_inv_def)

text \<open>The one-probe rule does not survive a late result. A call admitted before the breaker opened
  that reports while a probe is in flight clears the in-flight mark, so a second probe is admitted
  next to the first; and a late success reaching an open breaker closes it on the spot.\<close>

theorem late_result_breaks_probe_rule:
  assumes "br_hosts b (HostKey host) = Some st" and "breaker_inv b"
  shows "(bs_state st = HalfOpen \<and> bs_inFlightProbe st \<and> bs_successes st + 1 < br_probes b \<longrightarrow>
            (\<exists>e. fst (Allow b host now) = Inl e) \<and>
            fst (Allow (br_record b (HostKey host) True t) host now) = Inr (HostKey host)) \<and>
         (bs_state st = Open \<longrightarrow>
            bs_state (host_state (br_record b (HostKey host) True t) (HostKey host)) = Closed)"
  using assms by (auto simp: Allow_def allow_state_def br_record_def record_state_def host_state_def Let_def)

theorem late_result_breaks_probe_rule_witness:
  "let b = run breaker_step (NewBreaker 1 10 2) [OpAllow ''h'' 0, OpAllow ''h'' 0, OpRecord ''h'' False 1, OpAllow ''h'' 20]
   in fst (Allow (br_record b (HostKey ''h'') True 21) ''h'' 22) = Inr (HostKey ''h'')"
proof -
  have h: "HostKey ''h'' = ''h''"
    by (rule HostKey_plain) (simp add: plain_host_def plain_char_def to_lower_char_def is_space_def)
  show ?thesis unfolding Let_def
    using late_result_breaks_probe_rule [of "run breaker_step (NewBreaker 1 10 2)
        [OpAllow ''h'' 0, OpAllow ''h'' 0, OpRecord ''h'' False 1, OpAllow ''h'' 20]" "''h''" _ 22 21]
      breaker.run_inv [OF NewBreaker_inv, of 1 10 2 "[OpAllow ''h'' 0, OpAllow ''h'' 0, OpRecord ''h'' False 1, OpAllow ''h'' 20]"]
    by (simp add: h breaker_defs NewBreaker_def fresh_state_def)
qed

text \<open>A refused call never reaches the upstream. While the breaker is open, or the upstream's pause is
  running, \<open>Do\<close> returns an error without calling.\<close>

theorem refused_call_not_made:
  assumes "(\<exists>b. gd_br g = Some b \<and> bs_state (host_state b (HostKey host)) = Open \<and>
              gr_allow dr < bs_openUntil (host_state b (HostKey host))) \<or>
           (\<exists>l u. gd_lim g = Some l \<and> lm_pauses l (HostKey host) = Some u \<and> aq_now (gr_acquire dr) < u)"
    and "GuardDo R pt rnd (Some g) host dr = (err, called, g')"
  shows "\<not> called \<and> err \<noteq> None"
  using assms by (auto simp: GuardDo_def Allow_def allow_state_def Acquire_def Let_def
      split: option.splits sum.splits prod.splits if_splits)

definition paused_guard :: "unit guard" where
  "paused_guard = \<lparr>gd_lim = Some ((NewLimiter 0 0)\<lparr>lm_pauses := [''h'' \<mapsto> 100]\<rparr>),
     gd_br = Some ((NewBreaker 1 10 2)\<lparr>br_hosts := [''h'' \<mapsto> fresh_state\<lparr>bs_state := Open, bs_failures := 1, bs_openUntil := 11\<rparr>]\<rparr>)\<rparr>"

definition demo_guard_draws :: guard_draws where
  "demo_guard_draws = \<lparr>gr_allow = 20, gr_acquire = demo_draw 20,
     gr_outcome = \<lparr>oc_Status = 0, oc_RetryAfter = [], oc_Err = Some ''refused''\<rparr>, gr_observe = 20, gr_record = 20\<rparr>"

lemma HostKey_h: "HostKey ''h'' = ''h''"
  by (rule HostKey_plain) (simp add: plain_host_def plain_char_def to_lower_char_def is_space_def)

theorem refused_call_not_made_witness:
  "\<not> fst (snd (GuardDo demo_rate (\<lambda>_. None) (\<lambda>_. 0) (Some paused_guard) ''h'' demo_guard_draws))"
proof -
  obtain err called g' where r: "GuardDo demo_rate (\<lambda>_. None) (\<lambda>_. 0) (Some paused_guard) ''h'' demo_guard_draws = (err, called, g')"
    by (cases "GuardDo demo_rate (\<lambda>_. None) (\<lambda>_. 0) (Some paused_guard) ''h'' demo_guard_draws") auto
  have "\<not> called" using refused_call_not_made [OF _ r]
    by (simp add: HostKey_h paused_guard_def demo_guard_draws_def demo_draw_def)
  then show ?thesis by (simp add: r)
qed

text \<open>A throttle counts as a success. When the limiter refuses a probe, \<open>Do\<close> releases it as healthy:
  with the cooldown over and the upstream's own pause still running, two calls that reach nobody
  close the breaker.\<close>

theorem throttled_probes_close_breaker:
  assumes "gd_br g = Some b" and "bs_state (host_state b (HostKey host)) = Open"
    and "bs_openUntil (host_state b (HostKey host)) \<le> gr_allow dr" and "br_probes b = 2"
    and "gd_lim g = Some l" and "lm_pauses l (HostKey host) = Some u" and "aq_now (gr_acquire dr) < u"
    and "GuardDo R pt rnd (Some g) host dr = (err1, called1, Some g1)"
    and "GuardDo R pt rnd (Some g1) host dr = (err2, called2, g2)"
  shows "\<not> called1 \<and> \<not> called2 \<and> GuardState g2 host now = Closed"
proof -
  let ?st = "(host_state b (HostKey host))\<lparr>bs_state := HalfOpen, bs_successes := 1, bs_inFlightProbe := False, bs_failures := 0\<rparr>"
  have one: "\<not> called1" "gd_lim g1 = Some l"
      "\<exists>b1. gd_br g1 = Some b1 \<and> br_hosts b1 (HostKey host) = Some ?st \<and> br_probes b1 = 2"
    using assms(1-8) by (auto simp: GuardDo_def Allow_def allow_state_def Acquire_def Let_def release_def
        br_record_def record_state_def)
  then show ?thesis
    using assms(6,7,9) by (auto simp: GuardDo_def Allow_def allow_state_def Acquire_def Let_def release_def
        br_record_def record_state_def host_state_def GuardState_def BreakerState_def)
qed

theorem throttled_probes_close_breaker_witness:
  "\<exists>g1 g2. snd (snd (GuardDo demo_rate (\<lambda>_. None) (\<lambda>_. 0) (Some paused_guard) ''h'' demo_guard_draws)) = Some g1 \<and>
     snd (snd (GuardDo demo_rate (\<lambda>_. None) (\<lambda>_. 0) (Some g1) ''h'' demo_guard_draws)) = g2 \<and>
     GuardState g2 ''h'' 21 = Closed"
proof -
  obtain err1 called1 g1 where r1: "GuardDo demo_rate (\<lambda>_. None) (\<lambda>_. 0) (Some paused_guard) ''h'' demo_guard_draws = (err1, called1, Some g1)"
    by (simp add: GuardDo_def Allow_def allow_state_def Acquire_def Let_def HostKey_h paused_guard_def
        demo_guard_draws_def demo_draw_def host_state_def fresh_state_def) blast
  obtain err2 called2 g2 where r2: "GuardDo demo_rate (\<lambda>_. None) (\<lambda>_. 0) (Some g1) ''h'' demo_guard_draws = (err2, called2, g2)"
    by (cases "GuardDo demo_rate (\<lambda>_. None) (\<lambda>_. 0) (Some g1) ''h'' demo_guard_draws") auto
  have "GuardState g2 ''h'' 21 = Closed"
    using throttled_probes_close_breaker [OF _ _ _ _ _ _ _ r1 r2]
    by (simp add: HostKey_h paused_guard_def demo_guard_draws_def demo_draw_def host_state_def NewBreaker_def)
  then show ?thesis using r1 r2 by simp
qed

end
