(* ===== verification/Cache_Memory.thy ===== *)
theory Cache_Memory
  imports Go_Prelude
begin

text \<open>
  The result cache: \<open>internal/cache/cache.go\<close>. The interface \<open>Cache\<close> is the locale \<open>ttl_cache\<close>,
  stated through the view of a cache at an instant; \<open>Memory\<close> interprets it. \<open>Get\<close> reads under
  the read lock and evicts under the write lock after looking again, with two clock readings;
  \<open>get_evict\<close> is the second section.
\<close>

section \<open>The in-process cache\<close>

record 'v entry =
  ce_val :: 'v
  ce_expiresAt :: time

type_synonym 'v memory = "string \<rightharpoonup> 'v entry"

definition NewMemory :: "'v memory" where
  "NewMemory = Map.empty"

definition live :: "'v memory \<Rightarrow> time \<Rightarrow> string \<Rightarrow> 'v option" where
  "live m now key =
     (case m key of None \<Rightarrow> None | Some e \<Rightarrow> if ce_expiresAt e < now then None else Some (ce_val e))"

definition get_evict :: "'v memory \<Rightarrow> string \<Rightarrow> time \<Rightarrow> 'v memory" where
  "get_evict m key now =
     (case m key of None \<Rightarrow> m | Some cur \<Rightarrow> if ce_expiresAt cur < now then m(key := None) else m)"

definition CacheGet :: "'v memory \<Rightarrow> string \<Rightarrow> time \<Rightarrow> time \<Rightarrow> 'v option \<times> 'v memory" where
  "CacheGet m key now now' =
     (case m key of
        None \<Rightarrow> (None, m)
      | Some e \<Rightarrow>
          if ce_expiresAt e < now then (None, get_evict m key now') else (Some (ce_val e), m))"

definition CacheSet :: "'v memory \<Rightarrow> string \<Rightarrow> 'v \<Rightarrow> duration \<Rightarrow> time \<Rightarrow> 'v memory" where
  "CacheSet m key val ttl now =
     (if ttl \<le> 0 then m else m(key \<mapsto> \<lparr>ce_val = val, ce_expiresAt = now + ttl\<rparr>))"

definition CacheDelete :: "'v memory \<Rightarrow> string \<Rightarrow> 'v memory" where
  "CacheDelete m key = m(key := None)"

definition Sweep :: "'v memory \<Rightarrow> time \<Rightarrow> 'v memory" where
  "Sweep m now =
     (\<lambda>k. case m k of None \<Rightarrow> None | Some e \<Rightarrow> if ce_expiresAt e < now then None else Some e)"

text \<open>\<open>keys\<close> enumerates the keys of the map.\<close>

definition Len :: "'v memory \<Rightarrow> string list \<Rightarrow> nat" where
  "Len m keys = length (filter (\<lambda>k. m k \<noteq> None) (remdups keys))"

lemmas cache_defs = CacheGet_def CacheSet_def CacheDelete_def Sweep_def get_evict_def live_def

section \<open>The interface\<close>

locale ttl_cache =
  fixes get :: "'c \<Rightarrow> string \<Rightarrow> time \<Rightarrow> time \<Rightarrow> 'v option \<times> 'c"
    and put :: "'c \<Rightarrow> string \<Rightarrow> 'v \<Rightarrow> duration \<Rightarrow> time \<Rightarrow> 'c"
    and del :: "'c \<Rightarrow> string \<Rightarrow> 'c"
    and view :: "'c \<Rightarrow> time \<Rightarrow> string \<Rightarrow> 'v option"
  assumes get_view: "fst (get c k t t') = view c t k"
    and get_keeps: "t \<le> t' \<Longrightarrow> t' \<le> u \<Longrightarrow> view (snd (get c k t t')) u = view c u"
    and put_view: "t \<le> u \<Longrightarrow> view (put c k v ttl t) u k' =
           (if 0 < ttl \<and> k' = k then (if u \<le> t + ttl then Some v else None) else view c u k')"
    and del_view: "view (del c k) u k' = (if k' = k then None else view c u k')"
begin

lemma get_put:
  "0 < ttl \<Longrightarrow> t \<le> u \<Longrightarrow> fst (get (put c k v ttl t) k u u') = (if u \<le> t + ttl then Some v else None)"
  by (simp add: get_view put_view)

lemma get_put_other: "k' \<noteq> k \<Longrightarrow> t \<le> u \<Longrightarrow> fst (get (put c k v ttl t) k' u u') = fst (get c k' u u')"
  by (simp add: get_view put_view)

lemma put_no_ttl: "ttl \<le> 0 \<Longrightarrow> t \<le> u \<Longrightarrow> fst (get (put c k v ttl t) k' u u') = fst (get c k' u u')"
  by (simp add: get_view put_view)

lemma get_del: "fst (get (del c k) k' u u') = (if k' = k then None else fst (get c k' u u'))"
  by (simp add: get_view del_view)

lemma get_get: "t \<le> t' \<Longrightarrow> t' \<le> u \<Longrightarrow> fst (get (snd (get c k t t')) k' u u') = fst (get c k' u u')"
  by (simp add: get_view get_keeps)

end

lemma CacheGet_keeps: "t \<le> t' \<Longrightarrow> t' \<le> u \<Longrightarrow> live (snd (CacheGet m k t t')) u = live m u"
  by (rule ext) (auto simp: cache_defs split: option.splits)

interpretation memcache: ttl_cache CacheGet CacheSet CacheDelete live
  by unfold_locales
    (auto simp: CacheGet_keeps, auto simp: cache_defs split: option.splits)

section \<open>The cache as a state machine\<close>

datatype 'v cache_op =
    OpGet string time time
  | OpSet string 'v duration time
  | OpDelete string time
  | OpSweep time

fun cache_step :: "'v memory \<times> time \<Rightarrow> 'v cache_op \<Rightarrow> 'v memory \<times> time" where
  "cache_step (m, t) (OpGet k now now') = (snd (CacheGet m k now now'), now')"
| "cache_step (m, t) (OpSet k v ttl now) = (CacheSet m k v ttl now, now)"
| "cache_step (m, t) (OpDelete k now) = (CacheDelete m k, now)"
| "cache_step (m, t) (OpSweep now) = (Sweep m now, now)"

fun cache_ok :: "'v memory \<times> time \<Rightarrow> 'v cache_op \<Rightarrow> bool" where
  "cache_ok (m, t) (OpGet k now now') \<longleftrightarrow> t \<le> now \<and> now \<le> now'"
| "cache_ok (m, t) (OpSet k v ttl now) \<longleftrightarrow> t \<le> now"
| "cache_ok (m, t) (OpDelete k now) \<longleftrightarrow> t \<le> now"
| "cache_ok (m, t) (OpSweep now) \<longleftrightarrow> t \<le> now"

text \<open>The specification: what the operations on a key wrote last, and until when.\<close>

fun last_write :: "string \<Rightarrow> ('v \<times> time) option \<Rightarrow> 'v cache_op \<Rightarrow> ('v \<times> time) option" where
  "last_write key w (OpGet k now now') = w"
| "last_write key w (OpSet k v ttl now) = (if k = key \<and> 0 < ttl then Some (v, now + ttl) else w)"
| "last_write key w (OpDelete k now) = (if k = key then None else w)"
| "last_write key w (OpSweep now) = w"

definition spec_get :: "('v \<times> time) option \<Rightarrow> time \<Rightarrow> 'v option" where
  "spec_get w now = (case w of None \<Rightarrow> None | Some (v, until) \<Rightarrow> if until < now then None else Some v)"

lemma Sweep_keeps: "t \<le> u \<Longrightarrow> live (Sweep m t) u = live m u"
  by (rule ext) (auto simp: cache_defs split: option.splits)

lemma cache_step_spec:
  assumes "\<And>u. snd s \<le> u \<Longrightarrow> live (fst s) u key = spec_get w u" and "cache_ok s x"
    and "snd (cache_step s x) \<le> u"
  shows "live (fst (cache_step s x)) u key = spec_get (last_write key w x) u"
proof (cases s; cases x)
  fix m t k now now' assume "s = (m, t)" "x = OpGet k now now'"
  then show ?thesis using assms by (simp add: memcache.get_keeps)
next
  fix m t k v ttl now assume "s = (m, t)" "x = OpSet k v ttl now"
  then show ?thesis using assms by (auto simp: memcache.put_view spec_get_def)
next
  fix m t k now assume "s = (m, t)" "x = OpDelete k now"
  then show ?thesis using assms by (simp add: memcache.del_view spec_get_def)
next
  fix m t now assume "s = (m, t)" "x = OpSweep now"
  then show ?thesis using assms by (simp add: Sweep_keeps)
qed

lemma cache_run_spec:
  assumes "\<And>u. snd s \<le> u \<Longrightarrow> live (fst s) u key = spec_get w u" and "run_ok cache_step cache_ok s ops"
    and "snd (run cache_step s ops) \<le> u"
  shows "live (fst (run cache_step s ops)) u key = spec_get (foldl (last_write key) w ops) u"
  using assms
proof (induction ops arbitrary: s w)
  case (Cons x ops)
  show ?case
    using Cons.IH [of "cache_step s x" "last_write key w x"] Cons.prems cache_step_spec [of s key w x]
    by simp
qed simp

section \<open>Properties\<close>

text \<open>C33. The cache returns what was written last, for as long as it was written for. After any sequence
  of operations with a clock that does not go back, \<open>Get\<close> returns the value of the last \<open>Set\<close> of the
  key with a positive lifetime, unless it was deleted since or that lifetime is over; reads, lazy
  eviction and sweeps never change an answer.\<close>

theorem CacheGet_by_history:
  assumes "run_ok cache_step cache_ok (NewMemory, t0) ops" and "run cache_step (NewMemory, t0) ops = (m, t)"
    and "t \<le> now"
  shows "fst (CacheGet m key now now') = spec_get (foldl (last_write key) None ops) now"
  using cache_run_spec [of "(NewMemory, t0)" key None ops now] assms
  by (simp add: memcache.get_view) (simp add: live_def NewMemory_def spec_get_def)

theorem CacheGet_by_history_witness:
  "fst (CacheGet (fst (run cache_step (NewMemory, 0) [OpSet ''k'' (1::nat) 10 0, OpGet ''k'' 11 11, OpSet ''k'' 2 10 12]))
     ''k'' 22 22) = Some 2"
  using CacheGet_by_history [of 0 "[OpSet ''k'' (1::nat) 10 0, OpGet ''k'' 11 11, OpSet ''k'' 2 10 12]" _ _ 22 "''k''" 22]
  by (simp add: spec_get_def)

text \<open>The eviction inside \<open>Get\<close> cannot lose a concurrent write: if the entry it found expired was
  replaced before the write lock was taken, the replacement stays.\<close>

theorem get_evict_spares_fresh:
  assumes "0 < ttl" and "now' \<le> t + ttl"
  shows "get_evict (CacheSet m k v ttl t) k now' = CacheSet m k v ttl t"
  using assms by (simp add: get_evict_def CacheSet_def)

theorem get_evict_spares_fresh_witness:
  "get_evict (CacheSet NewMemory ''k'' (2::nat) 10 12) ''k'' 13 = CacheSet NewMemory ''k'' 2 10 12"
  by (rule get_evict_spares_fresh) simp_all

end
