(* ===== verification/Whois_Client.thy ===== *)
theory Whois_Client
  imports Whois_Text Breaker Netguard Cache_Memory
begin

text \<open>
  The port-43 path: one exchange under the upstream policy (\<open>internal/whois/transport.go\<close>), the
  discovery of a registry's host (\<open>discover.go\<close>) and the lookup with its referral (\<open>client.go\<close>).
  What the network does in an exchange is the argument \<open>wire\<close>. The client sees the transport
  through the locale \<open>port43\<close>, which the model of \<open>Transport.Query\<close> interprets.
\<close>

section \<open>The transport\<close>

definition MaxResponseBytes :: int where "MaxResponseBytes = 1048576"
definition DefaultTimeout :: duration where "DefaultTimeout = 10 * second"
definition dialTimeout :: duration where "dialTimeout = 3 * second"

record response =
  rs_Host :: string
  rs_Query :: string
  rs_Raw :: string
  rs_Truncated :: bool
  rs_Elapsed :: duration

record transport_options =
  to_AllowPrivateAddresses :: bool
  to_MaxBytes :: int

text \<open>\<open>tr_control\<close> says whether the dialer's \<open>Control\<close> hook is the address guard or nil. The guard of
  the policy is state and is passed separately.\<close>

record transport =
  tr_dialTimeout :: duration
  tr_control :: bool
  tr_timeout :: duration
  tr_maxBytes :: int

definition NewTransportWithOptions :: "duration \<Rightarrow> transport_options \<Rightarrow> transport" where
  "NewTransportWithOptions timeout opt =
     \<lparr>tr_dialTimeout = dialTimeout,
      tr_control = (\<not> to_AllowPrivateAddresses opt),
      tr_timeout = (if timeout \<le> 0 then DefaultTimeout else timeout),
      tr_maxBytes = (if to_MaxBytes opt \<le> 0 then MaxResponseBytes else to_MaxBytes opt)\<rparr>"

definition NewTransport :: "duration \<Rightarrow> transport" where
  "NewTransport timeout =
     NewTransportWithOptions timeout \<lparr>to_AllowPrivateAddresses = False, to_MaxBytes = 0\<rparr>"

text \<open>
  One conversation as the network has it: the addresses the dialer tries in turn, which of them
  accept, the errors of the calls on the connection, the bytes the peer sends and the error its stream
  ends with, \<open>None\<close> for a regular end. \<open>wr_ctx\<close> is the context's error when a call fails.
\<close>

record wire =
  wr_addresses :: "string list"
  wr_accepts :: "string \<Rightarrow> bool"
  wr_dialErr :: string
  wr_deadlineErr :: "string option"
  wr_writeErr :: "string option"
  wr_data :: string
  wr_readErr :: "string option"
  wr_ctx :: "string option"
  wr_started :: time
  wr_finished :: time

text \<open>The libraries below the path: the token bucket, date parsing, randomness and \<open>net.ParseIP\<close>.\<close>

record 'b platform =
  pf_rate :: "'b rate_lib"
  pf_parseTime :: "string \<Rightarrow> time option"
  pf_int64n :: "int \<Rightarrow> int"
  pf_parseIP :: "string \<Rightarrow> ip option"

definition dial_allowed :: "'b platform \<Rightarrow> transport \<Rightarrow> string \<Rightarrow> bool" where
  "dial_allowed P tr address \<longleftrightarrow>
     tr_control tr \<longrightarrow> Control (\<lambda>a. map_option fst (SplitHostPort a)) (pf_parseIP P) address = None"

text \<open>\<open>DialContext\<close>: the first address that the hook admits and that accepts.\<close>

definition dial :: "'b platform \<Rightarrow> transport \<Rightarrow> wire \<Rightarrow> string option" where
  "dial P tr w = List.find (\<lambda>a. dial_allowed P tr a \<and> wr_accepts w a) (wr_addresses w)"

definition wrapCtx :: "wire \<Rightarrow> string \<Rightarrow> string" where
  "wrapCtx w err = (case wr_ctx w of Some cerr \<Rightarrow> cerr | None \<Rightarrow> err)"

text \<open>\<open>io.ReadAll\<close> of a stream limited to \<open>n\<close> bytes: the limit ends the stream without an error.\<close>

definition read_limited :: "wire \<Rightarrow> nat \<Rightarrow> string \<times> string option" where
  "read_limited w n = (take n (wr_data w), if n \<le> length (wr_data w) then None else wr_readErr w)"

definition exchange_read :: "transport \<Rightarrow> wire \<Rightarrow> string \<Rightarrow> string \<Rightarrow> string + response" where
  "exchange_read tr w addr query =
     (case read_limited w (nat (tr_maxBytes tr + 1)) of (raw, err) \<Rightarrow>
        (let resp = \<lparr>rs_Host = addr, rs_Query = query, rs_Raw = raw, rs_Truncated = False,
                     rs_Elapsed = time_sub (wr_finished w) (wr_started w)\<rparr>
         in if tr_maxBytes tr < int (length raw) then
              Inr (resp\<lparr>rs_Raw := take (nat (tr_maxBytes tr)) raw, rs_Truncated := True\<rparr>)
            else case err of
              None \<Rightarrow> Inr resp
            | Some e \<Rightarrow>
                if raw = [] then Inl (''reading from '' @ addr @ '': '' @ wrapCtx w e)
                else Inr (resp\<lparr>rs_Truncated := True\<rparr>)))"

definition exchange :: "'b platform \<Rightarrow> transport \<Rightarrow> wire \<Rightarrow> string \<Rightarrow> string \<Rightarrow> string + response" where
  "exchange P tr w addr query =
     (case dial P tr w of
        None \<Rightarrow> Inl (''dialing '' @ addr @ '': '' @ wr_dialErr w)
      | Some _ \<Rightarrow>
          (case wr_deadlineErr w of
             Some e \<Rightarrow> Inl (''setting deadline on '' @ addr @ '': '' @ e)
           | None \<Rightarrow>
               (case wr_writeErr w of
                  Some e \<Rightarrow> Inl (''sending query to '' @ addr @ '': '' @ wrapCtx w e)
                | None \<Rightarrow> exchange_read tr w addr query)))"

datatype query_error = BadHost host_error | PolicyOrUpstream guard_error

text \<open>\<open>env i addr query\<close> is what happens when the \<open>i\<close>-th query of a lookup reaches the network.\<close>

type_synonym net_env = "nat \<Rightarrow> string \<Rightarrow> string \<Rightarrow> wire \<times> guard_draws"

definition outcome_of :: "string + response \<Rightarrow> outcome" where
  "outcome_of x = \<lparr>oc_Status = 0, oc_RetryAfter = [],
     oc_Err = (case x of Inl e \<Rightarrow> Some e | Inr _ \<Rightarrow> None)\<rparr>"

definition TransportQuery ::
    "'b platform \<Rightarrow> transport \<Rightarrow> net_env \<Rightarrow> 'b guard option \<Rightarrow> nat \<Rightarrow> string \<Rightarrow> string \<Rightarrow>
     (query_error + response) \<times> 'b guard option" where
  "TransportQuery P tr env g i host query =
     (case normalizeHost host of
        Inl e \<Rightarrow> (Inl (BadHost e), g)
      | Inr addr \<Rightarrow>
          (case env i addr query of (w, dr) \<Rightarrow>
             (let x = exchange P tr w addr query
              in case GuardDo (pf_rate P) (pf_parseTime P) (pf_int64n P) g addr (dr\<lparr>gr_outcome := outcome_of x\<rparr>) of
                   (Some e, called, g') \<Rightarrow> (Inl (PolicyOrUpstream e), g')
                 | (None, called, g') \<Rightarrow>
                     (case x of Inl e \<Rightarrow> Inl (PolicyOrUpstream (GuardUpstream e)) | Inr r \<Rightarrow> Inr r, g'))))"

section \<open>Discovery\<close>

definition IANAHost :: string where "IANAHost = ''whois.iana.org''"
definition HostTTL :: duration where "HostTTL = 24 * hour"

datatype discover_error =
    EmptyTLD
  | ErrNoWHOISHost string
  | AskingFailed string string query_error
  | ReturnedNothing string string
  | UnknownTLD string string

definition seedHosts :: "(string \<times> string) list" where
  "seedHosts =
     [(''com'', ''whois.verisign-grs.com''),
      (''net'', ''whois.verisign-grs.com''),
      (''org'', ''whois.publicinterestregistry.org''),
      (''info'', ''whois.afilias.net''),
      (''biz'', ''whois.nic.biz''),
      (''io'', ''whois.nic.io''),
      (''dev'', ''whois.nic.google''),
      (''app'', ''whois.nic.google''),
      (''uk'', ''whois.nic.uk''),
      (''de'', ''whois.denic.de''),
      (''nl'', ''whois.domain-registry.nl''),
      (''fr'', ''whois.nic.fr''),
      (''jp'', ''whois.jprs.jp''),
      (''ru'', ''whois.tcinet.ru''),
      (''br'', ''whois.registro.br''),
      (''au'', ''whois.auda.org.au''),
      (''ca'', ''whois.cira.ca''),
      (''ch'', ''whois.nic.ch''),
      (''se'', ''whois.iis.se''),
      (''eu'', ''whois.eu'')]"

definition SeedHost :: "string \<Rightarrow> string" where
  "SeedHost tld = (case map_of seedHosts (normalizeTLD tld) of Some h \<Rightarrow> h | None \<Rightarrow> [])"

text \<open>A transport as its clients see it: a query on some state.\<close>

type_synonym 's tquery = "'s \<Rightarrow> nat \<Rightarrow> string \<Rightarrow> string \<Rightarrow> (query_error + response) \<times> 's"

definition discover_query :: "'s tquery \<Rightarrow> string \<Rightarrow> 's \<Rightarrow> string \<Rightarrow> (discover_error + string) \<times> 's" where
  "discover_query tq ianaHost s tld =
     (case tq s 0 ianaHost tld of
        (Inl e, s') \<Rightarrow> (Inl (AskingFailed ianaHost tld e), s')
      | (Inr resp, s') \<Rightarrow>
          (if rs_Raw resp = [] then Inl (ReturnedNothing ianaHost tld)
           else if \<not> ianaKnowsTLD (rs_Raw resp) then Inl (UnknownTLD ianaHost tld)
           else Inr (whoisFieldFromIANA (rs_Raw resp)), s'))"

definition host_answer :: "string \<Rightarrow> string \<Rightarrow> discover_error + string" where
  "host_answer t host = (if host = [] then Inl (ErrNoWHOISHost t) else Inr host)"

text \<open>The clock readings of \<open>Host\<close>: the cache's two on a read, and the one on a write.\<close>

record host_clock =
  hc_get :: time
  hc_evict :: time
  hc_set :: time

definition discover_miss ::
    "'s tquery \<Rightarrow> string \<Rightarrow> 's \<Rightarrow> string memory option \<Rightarrow> string \<Rightarrow> time \<Rightarrow>
     (discover_error + string) \<times> 's \<times> string memory option" where
  "discover_miss tq ianaHost s c t now =
     (case discover_query tq ianaHost s t of
        (Inl e, s') \<Rightarrow>
          (case map_of seedHosts t of Some seed \<Rightarrow> Inr seed | None \<Rightarrow> Inl e, s', c)
      | (Inr host, s') \<Rightarrow>
          (host_answer t host, s', map_option (\<lambda>m. CacheSet m (''whois:host:'' @ t) host HostTTL now) c))"

definition DiscoverHost ::
    "'s tquery \<Rightarrow> string \<Rightarrow> 's \<Rightarrow> string memory option \<Rightarrow> string \<Rightarrow> host_clock \<Rightarrow>
     (discover_error + string) \<times> 's \<times> string memory option" where
  "DiscoverHost tq ianaHost s c tld ck =
     (let t = to_lower (trim_space (trim_prefix tld ''.''))
      in if t = [] then (Inl EmptyTLD, s, c)
         else case c of
           None \<Rightarrow> discover_miss tq ianaHost s None t (hc_set ck)
         | Some m \<Rightarrow>
             (case CacheGet m (''whois:host:'' @ t) (hc_get ck) (hc_evict ck) of
                (Some raw, m') \<Rightarrow> (host_answer t raw, s, Some m')
              | (None, m') \<Rightarrow> discover_miss tq ianaHost s (Some m') t (hc_set ck)))"

section \<open>The lookup\<close>

definition MaxReferralHops :: nat where "MaxReferralHops = 2"

record hop_exchange =
  ex_Host :: string
  ex_Query :: string
  ex_Bytes :: nat
  ex_Truncated :: bool
  ex_Referral :: string

datatype warning =
    ReferralLoop string
  | ReferralFailed string query_error
  | EmptyResponse string
  | EmptyReferral string
  | StoppedAfter nat string
  | NoData

record lookup_result =
  rz_Raw :: string
  rz_Chain :: "hop_exchange list"
  rz_Servers :: "string list"
  rz_Truncated :: bool
  rz_Warnings :: "warning list"

datatype lookup_error = NoHostFor discover_error | Querying string query_error

definition empty_result :: lookup_result where
  "empty_result = \<lparr>rz_Raw = [], rz_Chain = [], rz_Servers = [], rz_Truncated = False, rz_Warnings = []\<rparr>"

definition warn :: "lookup_result \<Rightarrow> warning \<Rightarrow> lookup_result" where
  "warn res w = res\<lparr>rz_Warnings := rz_Warnings res @ [w]\<rparr>"

definition take_answer :: "nat \<Rightarrow> response \<Rightarrow> lookup_result \<Rightarrow> lookup_result" where
  "take_answer hop resp res =
     (if rs_Raw resp \<noteq> [] then res\<lparr>rz_Raw := rs_Raw resp, rz_Truncated := rs_Truncated resp\<rparr>
      else if hop = 0 then warn res (EmptyResponse (rs_Host resp))
      else warn res (EmptyReferral (rs_Host resp)))"

definition next_referral :: "string \<Rightarrow> response \<Rightarrow> string" where
  "next_referral tld resp =
     (if ReferralsAllowed tld \<and> rs_Raw resp \<noteq> [] then
        (let next = referralHost (rs_Raw resp)
         in if next \<noteq> [] \<and> equal_fold next (hostOnly (rs_Host resp)) then [] else next)
      else [])"

definition add_hop :: "response \<Rightarrow> string \<Rightarrow> lookup_result \<Rightarrow> lookup_result" where
  "add_hop resp next res =
     res\<lparr>rz_Chain := rz_Chain res @ [\<lparr>ex_Host = rs_Host resp, ex_Query = rs_Query resp,
           ex_Bytes = length (rs_Raw resp), ex_Truncated = rs_Truncated resp, ex_Referral = next\<rparr>],
         rz_Servers := rz_Servers res @ [rs_Host resp]\<rparr>"

text \<open>The hops of the loop; \<open>tq\<close> numbers its queries from 1, the discovery has number 0.\<close>

function hops ::
    "'s tquery \<Rightarrow> string \<Rightarrow> string \<Rightarrow> 's \<Rightarrow> nat \<Rightarrow> string \<Rightarrow> string list \<Rightarrow> lookup_result \<Rightarrow>
     (lookup_error + lookup_result) \<times> 's" where
  "hops tq tld query s hop host seen res =
     (if to_lower host \<in> set seen then (Inr (warn res (ReferralLoop host)), s)
      else case tq s (hop + 1) host query of
        (Inl e, s') \<Rightarrow>
          if hop = 0 then (Inl (Querying host e), s') else (Inr (warn res (ReferralFailed host e)), s')
      | (Inr resp, s') \<Rightarrow>
          (let next = next_referral tld resp; res' = add_hop resp next (take_answer hop resp res)
           in if next = [] then (Inr res', s')
              else if MaxReferralHops \<le> hop + 1 then (Inr (warn res' (StoppedAfter MaxReferralHops next)), s')
              else hops tq tld query s' (hop + 1) next (to_lower host # seen) res'))"
  by pat_completeness auto
termination
  by (relation "measure (\<lambda>(tq, tld, query, s, hop, host, seen, res). MaxReferralHops - hop)") auto

declare hops.simps [simp del]

definition finish :: "lookup_result \<Rightarrow> lookup_result" where
  "finish res = (if rz_Raw res = [] \<and> rz_Warnings res = [] then warn res NoData else res)"

definition lookup_at ::
    "'s tquery \<Rightarrow> string \<Rightarrow> string \<Rightarrow> string \<Rightarrow> 's \<Rightarrow> (lookup_error + lookup_result) \<times> 's" where
  "lookup_at tq tld ascii host s =
     (case hops tq tld (QueryFor tld ascii) s 0 host [] empty_result of
        (Inl e, s') \<Rightarrow> (Inl e, s')
      | (Inr res, s') \<Rightarrow> (Inr (finish res), s'))"

definition ClientQuery ::
    "'s tquery \<Rightarrow> string \<Rightarrow> 's \<Rightarrow> string memory option \<Rightarrow> string \<Rightarrow> string \<Rightarrow> host_clock \<Rightarrow>
     (lookup_error + lookup_result) \<times> 's \<times> string memory option" where
  "ClientQuery tq ianaHost s c tld ascii ck =
     (if HostFor tld \<noteq> [] then
        (case lookup_at tq tld ascii (HostFor tld) s of (r, s') \<Rightarrow> (r, s', c))
      else
        (case DiscoverHost tq ianaHost s c tld ck of
           (Inl e, s', c') \<Rightarrow> (Inl (NoHostFor e), s', c')
         | (Inr h, s', c') \<Rightarrow> (case lookup_at tq tld ascii h s' of (r, s'') \<Rightarrow> (r, s'', c'))))"

section \<open>The transport's contract\<close>

locale port43 =
  fixes tq :: "'s tquery" and cap :: nat
  assumes tq_reply: "tq s i host query = (Inr r, s') \<Longrightarrow>
    normalizeHost host = Inr (rs_Host r) \<and> rs_Query r = query \<and> length (rs_Raw r) \<le> cap"

lemma exchange_read_ok:
  "exchange_read tr w addr query = Inr r \<Longrightarrow>
     rs_Host r = addr \<and> rs_Query r = query \<and> length (rs_Raw r) \<le> nat (tr_maxBytes tr)"
  by (auto simp: exchange_read_def read_limited_def Let_def split: if_splits option.splits)

lemma exchange_ok:
  "exchange P tr w addr query = Inr r \<Longrightarrow>
     rs_Host r = addr \<and> rs_Query r = query \<and> length (rs_Raw r) \<le> nat (tr_maxBytes tr)"
  using exchange_read_ok by (auto simp: exchange_def split: option.splits)

lemma TransportQuery_cases:
  assumes "TransportQuery P tr env g i host query = (Inr r, g')"
  obtains addr where "normalizeHost host = Inr addr"
    "exchange P tr (fst (env i addr query)) addr query = Inr r"
  using assms by (auto simp: TransportQuery_def Let_def split: sum.splits prod.splits option.splits)

interpretation tquery: port43 "TransportQuery P tr env" "nat (tr_maxBytes tr)"
  for P :: "'b platform" and tr and env
  by unfold_locales (auto elim!: TransportQuery_cases dest: exchange_ok)

section \<open>The chain of a lookup\<close>

definition follows :: "hop_exchange \<Rightarrow> hop_exchange \<Rightarrow> bool" where
  "follows a b \<longleftrightarrow> host_shape (ex_Referral a) \<and> normalizeHost (ex_Referral a) = Inr (ex_Host b)"

definition chain_ok :: "string \<Rightarrow> nat \<Rightarrow> lookup_result \<Rightarrow> bool" where
  "chain_ok query cap res \<longleftrightarrow>
     rz_Servers res = map ex_Host (rz_Chain res) \<and>
     (\<forall>x \<in> set (rz_Chain res). ex_Query x = query \<and> ex_Bytes x \<le> cap) \<and>
     successively follows (rz_Chain res)"

text \<open>The state of the loop before a hop: what it has, and where it goes next.\<close>

definition loop_ok :: "string \<Rightarrow> nat \<Rightarrow> nat \<Rightarrow> string \<Rightarrow> lookup_result \<Rightarrow> bool" where
  "loop_ok query cap hop host res \<longleftrightarrow>
     chain_ok query cap res \<and> length (rz_Chain res) = hop \<and> hop < MaxReferralHops \<and>
     (hop \<noteq> 0 \<longrightarrow> host_shape host \<and> ex_Referral (last (rz_Chain res)) = host)"

lemma warn_simps [simp]:
  "rz_Raw (warn res w) = rz_Raw res" "rz_Chain (warn res w) = rz_Chain res"
  "rz_Servers (warn res w) = rz_Servers res" "rz_Truncated (warn res w) = rz_Truncated res"
  "chain_ok q cap (warn res w) = chain_ok q cap res"
  by (simp_all add: warn_def chain_ok_def)

lemma take_answer_simps [simp]:
  "rz_Chain (take_answer hop r res) = rz_Chain res" "rz_Servers (take_answer hop r res) = rz_Servers res"
  "rz_Raw (take_answer hop r res) = (if rs_Raw r = [] then rz_Raw res else rs_Raw r)"
  by (simp_all add: take_answer_def)

lemma add_hop_simps [simp]:
  "rz_Raw (add_hop r next res) = rz_Raw res"
  "length (rz_Chain (add_hop r next res)) = Suc (length (rz_Chain res))"
  "ex_Referral (last (rz_Chain (add_hop r next res))) = next"
  by (simp_all add: add_hop_def)

lemma next_referral_shape: "next_referral tld r \<noteq> [] \<Longrightarrow> host_shape (next_referral tld r)"
  by (auto simp: next_referral_def Let_def referralHost_shape split: if_splits)

lemma finish_simps [simp]:
  "rz_Raw (finish res) = rz_Raw res" "rz_Chain (finish res) = rz_Chain res"
  "chain_ok q cap (finish res) = chain_ok q cap res"
  by (simp_all add: finish_def)

text \<open>A hop that gets a reply, in one equation.\<close>

lemma hops_reply:
  assumes "to_lower host \<notin> set seen" and "tq s (hop + 1) host query = (Inr r, s1)"
  shows "hops tq tld query s hop host seen res =
    (if next_referral tld r = [] then (Inr (add_hop r (next_referral tld r) (take_answer hop r res)), s1)
     else if MaxReferralHops \<le> hop + 1
     then (Inr (warn (add_hop r (next_referral tld r) (take_answer hop r res))
             (StoppedAfter MaxReferralHops (next_referral tld r))), s1)
     else hops tq tld query s1 (hop + 1) (next_referral tld r) (to_lower host # seen)
             (add_hop r (next_referral tld r) (take_answer hop r res)))"
  by (subst hops.simps) (simp add: assms [simplified] Let_def)

lemma hops_first:
  assumes "tq s 1 host query = (Inr r, s1)"
    and "n = next_referral tld r" and "res1 = add_hop r n (take_answer 0 r res)"
  shows "hops tq tld query s 0 host [] res =
    (if n = [] then (Inr res1, s1) else hops tq tld query s1 1 n [to_lower host] res1)"
  using hops_reply [of host "[]" tq s 0 query r s1 tld res] assms by (simp add: MaxReferralHops_def)

context port43
begin

lemma add_hop_ok:
  assumes "loop_ok query cap hop host res" and "tq s i host query = (Inr r, s')"
  shows "chain_ok query cap (add_hop r next (take_answer hop r res))"
  using assms tq_reply [OF assms(2)]
  by (auto simp: loop_ok_def chain_ok_def add_hop_def successively_append_iff follows_def)

lemma hops_chain:
  assumes "hops tq tld query s hop host seen res = (Inr res', s')" and "loop_ok query cap hop host res"
  shows "chain_ok query cap res' \<and> length (rz_Chain res') \<le> MaxReferralHops \<and>
    (\<not> ReferralsAllowed tld \<longrightarrow> length (rz_Chain res') \<le> hop + 1)"
  using assms
proof (induction "MaxReferralHops - hop" arbitrary: s hop host seen res rule: less_induct)
  case less
  note step = less.prems(1) [unfolded hops.simps [of tq tld query s hop host seen res]]
  show ?case
  proof (cases "to_lower host \<in> set seen")
    case True
    then show ?thesis using step less.prems(2) by (auto simp: loop_ok_def)
  next
    case False
    obtain x s1 where x: "tq s (hop + 1) host query = (x, s1)" by fastforce
    show ?thesis
    proof (cases x)
      case (Inl e)
      then show ?thesis using step False x less.prems(2) by (auto simp: loop_ok_def split: if_splits)
    next
      case (Inr r)
      define next' where "next' = next_referral tld r"
      define res1 where "res1 = add_hop r next' (take_answer hop r res)"
      have ok: "chain_ok query cap res1" "length (rz_Chain res1) = hop + 1" "ex_Referral (last (rz_Chain res1)) = next'"
        "hop < MaxReferralHops"
        using add_hop_ok [OF less.prems(2)] x Inr less.prems(2) by (auto simp: res1_def loop_ok_def)
      have refused: "\<not> ReferralsAllowed tld \<Longrightarrow> next' = []" by (simp add: next'_def next_referral_def)
      have go: "(if next' = [] then (Inr res1, s1)
          else if MaxReferralHops \<le> hop + 1 then (Inr (warn res1 (StoppedAfter MaxReferralHops next')), s1)
          else hops tq tld query s1 (hop + 1) next' (to_lower host # seen) res1) = (Inr res', s')"
        using less.prems(1) hops_reply [of host seen tq s hop query r s1 tld res] False x Inr by (simp add: next'_def res1_def)
      show ?thesis
      proof (cases "next' = [] \<or> MaxReferralHops \<le> hop + 1")
        case True
        then show ?thesis using go ok refused by (auto split: if_splits)
      next
        case False
        then have "loop_ok query cap (hop + 1) next' res1"
          using ok next_referral_shape [of tld r] by (simp add: loop_ok_def next'_def)
        then show ?thesis using less.hyps [of "hop + 1"] go ok False refused by auto
      qed
    qed
  qed
qed

lemma hops_answer:
  assumes "hops tq tld query s hop host seen res = (Inr res', s')" and "rz_Raw res \<noteq> []"
  shows "rz_Raw res' \<noteq> []"
  using assms
proof (induction "MaxReferralHops - hop" arbitrary: s hop host seen res rule: less_induct)
  case less
  show ?case
    using less.prems less.hyps [of "hop + 1"] hops.simps [of tq tld query s hop host seen res]
    by (auto simp: Let_def split: if_splits prod.splits sum.splits)
qed

lemma hops_extends:
  assumes "hops tq tld query s hop host seen res = (Inr res', s')"
  shows "\<exists>ys. rz_Chain res' = rz_Chain res @ ys"
  using assms
proof (induction "MaxReferralHops - hop" arbitrary: s hop host seen res rule: less_induct)
  case less
  show ?case
    using less.prems less.hyps [of "hop + 1"] hops.simps [of tq tld query s hop host seen res]
    by (fastforce simp: Let_def add_hop_def split: if_splits prod.splits sum.splits)
qed

lemma lookup_chain:
  assumes "lookup_at tq tld ascii host s = (Inr res, s')"
  shows "chain_ok (QueryFor tld ascii) cap res \<and> length (rz_Chain res) \<le> MaxReferralHops \<and>
    (\<not> ReferralsAllowed tld \<longrightarrow> length (rz_Chain res) \<le> 1) \<and>
    rz_Chain res \<noteq> [] \<and> normalizeHost host = Inr (ex_Host (hd (rz_Chain res)))"
proof -
  obtain res0 where h: "hops tq tld (QueryFor tld ascii) s 0 host [] empty_result = (Inr res0, s')"
    and res: "res = finish res0"
    using assms by (auto simp: lookup_at_def split: prod.splits sum.splits)
  have "loop_ok (QueryFor tld ascii) cap 0 host empty_result"
    by (simp add: loop_ok_def chain_ok_def empty_result_def MaxReferralHops_def)
  note chain = hops_chain [OF h this]
  obtain r s1 where r: "tq s 1 host (QueryFor tld ascii) = (Inr r, s1)"
    using h by (subst (asm) hops.simps) (auto split: prod.splits sum.splits)
  define n where "n = next_referral tld r"
  define res1 where "res1 = add_hop r n (take_answer 0 r empty_result)"
  note first = hops_first [where tq = tq, OF r n_def res1_def, unfolded h]
  have "\<exists>ys. rz_Chain res0 = rz_Chain res1 @ ys"
    by (cases "n = []") (use first hops_extends in \<open>auto dest: sym\<close>)
  then show ?thesis using chain tq_reply [OF r] res
    by (auto simp: res1_def add_hop_def empty_result_def)
qed

end

text \<open>The answer of a lookup whose registry answered, for any transport.\<close>

lemma lookup_raw:
  assumes "tq s 1 host (QueryFor tld ascii) = (Inr r0, s1)" and "rs_Raw r0 \<noteq> []"
  shows "\<exists>res s'. lookup_at tq tld ascii host s = (Inr res, s') \<and>
    rz_Raw res =
      (if next_referral tld r0 = [] \<or> to_lower (next_referral tld r0) = to_lower host then rs_Raw r0
       else case fst (tq s1 2 (next_referral tld r0) (QueryFor tld ascii)) of
         Inl e \<Rightarrow> rs_Raw r0
       | Inr r1 \<Rightarrow> if rs_Raw r1 = [] then rs_Raw r0 else rs_Raw r1)"
proof -
  define n where "n = next_referral tld r0"
  define res1 where "res1 = add_hop r0 n (take_answer 0 r0 empty_result)"
  note first = hops_first [where tq = tq, OF assms(1) n_def res1_def]
  have raw: "rz_Raw res1 = rs_Raw r0" using assms(2) by (simp add: res1_def)
  show ?thesis
  proof (cases "n = []")
    case True
    then show ?thesis using first assms raw by (simp add: lookup_at_def n_def)
  next
    case False
    then have "hops tq tld (QueryFor tld ascii) s 0 host [] empty_result =
        hops tq tld (QueryFor tld ascii) s1 1 n [to_lower host] res1"
      using first by simp
    then show ?thesis using False raw
      by (subst (asm) hops.simps)
        (auto simp: lookup_at_def n_def [symmetric] Let_def MaxReferralHops_def numeral_2_eq_2
          split: prod.splits sum.splits if_splits)
  qed
qed

section \<open>A concrete network\<close>

text \<open>For the instances below: a registry that refers to a registrar, an IANA that knows one TLD.\<close>

definition demo_platform :: "unit platform" where
  "demo_platform = \<lparr>pf_rate = \<lparr>rl_new = (\<lambda>r b. ()), rl_reserve = (\<lambda>b t. (Some 0, ())), rl_cancel = (\<lambda>b. b)\<rparr>,
     pf_parseTime = (\<lambda>_. None), pf_int64n = (\<lambda>d. 0),
     pf_parseIP = (\<lambda>h. if h = ''8.8.8.8'' then Some [8, 8, 8, 8] else None)\<rparr>"

definition demo_wire :: "string \<Rightarrow> wire" where
  "demo_wire body = \<lparr>wr_addresses = [''8.8.8.8:43''], wr_accepts = (\<lambda>_. True), wr_dialErr = [],
     wr_deadlineErr = None, wr_writeErr = None, wr_data = body, wr_readErr = None, wr_ctx = None,
     wr_started = 0, wr_finished = 5\<rparr>"

definition demo_draws :: guard_draws where
  "demo_draws = \<lparr>gr_allow = 0, gr_acquire = \<lparr>aq_now = 0, aq_reserve = 0, aq_check = 0, aq_deadline = None,
       aq_slept = True\<rparr>, gr_outcome = \<lparr>oc_Status = 0, oc_RetryAfter = [], oc_Err = None\<rparr>,
     gr_observe = 0, gr_record = 0\<rparr>"

definition demo_body :: "string \<Rightarrow> string \<Rightarrow> string" where
  "demo_body addr query =
     (if addr = ''a.nic:43'' then ''refer: b.reg''
      else if addr = ''b.reg:43'' then ''ok''
      else if query = ''io'' then ''whois: a.nic''
      else ''no match'')"

definition demo_net :: net_env where
  "demo_net i addr query = (demo_wire (demo_body addr query), demo_draws)"

abbreviation demo_tq :: "unit guard option tquery" where
  "demo_tq \<equiv> TransportQuery demo_platform (NewTransport 0) demo_net"

abbreviation demo_clock :: host_clock where
  "demo_clock \<equiv> \<lparr>hc_get = 0, hc_evict = 0, hc_set = 1\<rparr>"

abbreviation demo_reply :: "string \<Rightarrow> string \<Rightarrow> response" where
  "demo_reply addr query \<equiv> \<lparr>rs_Host = addr, rs_Query = query, rs_Raw = demo_body addr query,
     rs_Truncated = False, rs_Elapsed = 5\<rparr>"

lemma demo_allowed: "dial_allowed demo_platform tr ''8.8.8.8:43''"
proof -
  have "SplitHostPort ''8.8.8.8:43'' = Some (''8.8.8.8'', ''43'')" by code_simp
  moreover have "BlockReason (Some [8, 8, 8, 8]) = []"
    by (simp add: BlockReason_v4_cases extraBlocked_v4 ip_value4)
  ultimately show ?thesis by (simp add: dial_allowed_def Control_def demo_platform_def)
qed

lemma demo_exchange:
  assumes "length body \<le> 1000"
  shows "exchange demo_platform (NewTransport t) (demo_wire body) addr query =
    Inr \<lparr>rs_Host = addr, rs_Query = query, rs_Raw = body, rs_Truncated = False, rs_Elapsed = 5\<rparr>"
  using assms demo_allowed
  by (simp add: exchange_def exchange_read_def read_limited_def dial_def demo_wire_def Let_def
      NewTransport_def NewTransportWithOptions_def MaxResponseBytes_def time_sub_def)

lemma demo_query:
  assumes "normalizeHost host = Inr addr"
  shows "demo_tq None i host query = (Inr (demo_reply addr query), None)"
proof -
  have "length (demo_body addr query) \<le> 1000" by (simp add: demo_body_def)
  from demo_exchange [OF this] show ?thesis using assms
    by (simp add: TransportQuery_def demo_net_def GuardDo_def outcome_of_def)
qed

lemma demo_hosts:
  "normalizeHost ''a.nic'' = Inr ''a.nic:43''" "normalizeHost ''b.reg'' = Inr ''b.reg:43''"
  "normalizeHost IANAHost = Inr ''whois.iana.org:43''"
  by code_simp+

lemma demo_texts:
  "QueryFor ''io'' ''x.io'' = ''x.io''" "demo_body ''a.nic:43'' ''x.io'' = ''refer: b.reg''"
  "demo_body ''b.reg:43'' ''x.io'' = ''ok''" "to_lower ''b.reg'' \<noteq> to_lower ''a.nic''"
  "demo_body ''whois.iana.org:43'' ''io'' = ''whois: a.nic''" "ianaKnowsTLD ''whois: a.nic''"
  "whoisFieldFromIANA ''whois: a.nic'' = ''a.nic''"
  "demo_body ''whois.iana.org:43'' ''uk'' = ''no match''" "\<not> ianaKnowsTLD ''no match''"
  by code_simp+

lemma empty_get: "fst (CacheGet NewMemory k t t') = None"
  by (simp add: CacheGet_def NewMemory_def)

lemma demo_referral:
  "next_referral ''io'' (demo_reply ''a.nic:43'' ''x.io'') = ''b.reg''"
  "next_referral ''io'' (demo_reply ''b.reg:43'' ''x.io'') = []"
  by code_simp+

section \<open>Properties\<close>





text \<open>C40. The address guard stands in front of every conversation. A production transport that answers a
  query opened its connection to an address, of those the host resolved to, that is an IP address the
  guard does not block; nothing a referral or IANA names can get around it.\<close>

theorem answers_from_allowed_addresses:
  assumes "TransportQuery P (NewTransport timeout) env g i host query = (Inr r, g')"
  shows "\<exists>addr w a h port ip. normalizeHost host = Inr addr \<and> w = fst (env i addr query) \<and>
    dial P (NewTransport timeout) w = Some a \<and> a \<in> set (wr_addresses w) \<and> wr_accepts w a \<and>
    SplitHostPort a = Some (h, port) \<and> pf_parseIP P h = Some ip \<and> BlockReason (Some ip) = []"
proof -
  define tr where "tr = NewTransport timeout"
  obtain addr where addr: "normalizeHost host = Inr addr"
    "exchange P tr (fst (env i addr query)) addr query = Inr r"
    using assms unfolding tr_def by (rule TransportQuery_cases)
  then obtain a where a: "dial P tr (fst (env i addr query)) = Some a"
    by (auto simp: exchange_def split: option.splits)
  then have in_w: "a \<in> set (wr_addresses (fst (env i addr query)))" "wr_accepts (fst (env i addr query)) a"
    "dial_allowed P tr a"
    by (auto simp: dial_def find_Some_iff)
  have "tr_control tr" by (simp add: tr_def NewTransport_def NewTransportWithOptions_def)
  then obtain h port where hp: "SplitHostPort a = Some (h, port)" "BlockReason (pf_parseIP P h) = []"
    using in_w(3) by (auto simp: dial_allowed_def Control_def Let_def split: option.splits if_splits)
  then obtain ip where "pf_parseIP P h = Some ip" by (cases "pf_parseIP P h") (auto simp: BlockReason_def)
  then show ?thesis using addr(1) a in_w hp unfolding tr_def by fastforce
qed

theorem answers_from_allowed_addresses_witness:
  "\<exists>a h port ip. dial demo_platform (NewTransport 0) (fst (demo_net 1 ''a.nic:43'' ''x.io'')) = Some a \<and>
     SplitHostPort a = Some (h, port) \<and> pf_parseIP demo_platform h = Some ip \<and> BlockReason (Some ip) = []"
  using answers_from_allowed_addresses [OF demo_query [OF demo_hosts(1)], of 1 "''x.io''"] demo_hosts(1) by auto

text \<open>An exchange that is sent keeps the first bytes up to the cap, whatever the peer sends. It is
  marked truncated exactly when bytes were left out or the stream broke, and it fails only when the
  stream broke before the first byte: a regular empty reply is an answer.\<close>

theorem exchange_keeps_prefix:
  assumes "dial P tr w = Some a" and "wr_deadlineErr w = None" and "wr_writeErr w = None"
    and "0 < tr_maxBytes tr"
  shows "exchange P tr w addr query =
    (case wr_readErr w of
       Some e \<Rightarrow>
         if wr_data w = [] then Inl (''reading from '' @ addr @ '': '' @ wrapCtx w e)
         else Inr \<lparr>rs_Host = addr, rs_Query = query, rs_Raw = take (nat (tr_maxBytes tr)) (wr_data w),
                rs_Truncated = True, rs_Elapsed = time_sub (wr_finished w) (wr_started w)\<rparr>
     | None \<Rightarrow>
         Inr \<lparr>rs_Host = addr, rs_Query = query, rs_Raw = take (nat (tr_maxBytes tr)) (wr_data w),
           rs_Truncated = (tr_maxBytes tr < int (length (wr_data w))),
           rs_Elapsed = time_sub (wr_finished w) (wr_started w)\<rparr>)"
proof (cases "tr_maxBytes tr < int (length (wr_data w))")
  case True
  then have "nat (tr_maxBytes tr + 1) \<le> length (wr_data w)" "wr_data w \<noteq> []" using assms(4) by auto
  then show ?thesis using assms True
    by (simp add: exchange_def exchange_read_def read_limited_def Let_def min_def split: option.split)
next
  case False
  then have "length (wr_data w) < nat (tr_maxBytes tr + 1)" "length (wr_data w) \<le> nat (tr_maxBytes tr)"
    using assms(4) by auto
  then show ?thesis using assms False
    by (simp add: exchange_def exchange_read_def read_limited_def Let_def split: option.split)
qed

theorem exchange_keeps_prefix_witness:
  "exchange demo_platform \<lparr>tr_dialTimeout = 1, tr_control = False, tr_timeout = 1, tr_maxBytes = 2\<rparr>
     (demo_wire ''abc'') ''h:43'' ''q'' =
   Inr \<lparr>rs_Host = ''h:43'', rs_Query = ''q'', rs_Raw = ''ab'', rs_Truncated = True, rs_Elapsed = 5\<rparr>"
proof -
  define tr where "tr = \<lparr>tr_dialTimeout = 1, tr_control = False, tr_timeout = 1, tr_maxBytes = 2\<rparr>"
  have "dial demo_platform tr (demo_wire ''abc'') = Some ''8.8.8.8:43''"
    by (simp add: dial_def demo_wire_def dial_allowed_def tr_def)
  from exchange_keeps_prefix [OF this, of "''h:43''" "''q''"] show ?thesis
    by (simp add: demo_wire_def tr_def [symmetric]) (simp add: tr_def time_sub_def numeral_2_eq_2)
qed

text \<open>A registry's host is asked of IANA once a day. When IANA answers for a TLD, with a host or with
  none, every \<open>Host\<close> call for that TLD in the next 24 hours gets the same answer from the cache,
  whatever the network would say, and reaches no server.\<close>

theorem discovery_remembered_for_a_day:
  fixes tq :: "'s tquery"
  assumes "normalizeTLD tld \<noteq> []"
    and "fst (CacheGet m (''whois:host:'' @ normalizeTLD tld) (hc_get ck) (hc_evict ck)) = None"
    and "fst (discover_query tq iana s (normalizeTLD tld)) = Inr h"
    and "hc_set ck \<le> hc_get ck'" and "hc_get ck' \<le> hc_set ck + HostTTL"
  shows "\<exists>s' m'. DiscoverHost tq iana s (Some m) tld ck = (host_answer (normalizeTLD tld) h, s', Some m') \<and>
    (\<forall>(tq' :: 's tquery) s''. \<exists>m''. DiscoverHost tq' iana s'' (Some m') tld ck' = (host_answer (normalizeTLD tld) h, s'', Some m''))"
proof -
  define t where "t = normalizeTLD tld"
  define key where "key = ''whois:host:'' @ t"
  have t: "to_lower (trim_space (trim_prefix tld ''.'')) = t" by (simp add: t_def normalizeTLD_def)
  obtain m1 where g: "CacheGet m key (hc_get ck) (hc_evict ck) = (None, m1)"
    using assms(2) by (cases "CacheGet m key (hc_get ck) (hc_evict ck)") (simp add: key_def t_def)
  obtain s' where q: "discover_query tq iana s t = (Inr h, s')"
    using assms(3) by (cases "discover_query tq iana s t") (simp add: t_def)
  define m' where "m' = CacheSet m1 key h HostTTL (hc_set ck)"
  have "fst (CacheGet m' key (hc_get ck') (hc_evict ck')) = Some h"
    using assms(4,5) memcache.get_put [of HostTTL "hc_set ck" "hc_get ck'" m1 key h "hc_evict ck'"]
    by (simp add: m'_def HostTTL_def hour_def)
  then obtain m'' where g': "CacheGet m' key (hc_get ck') (hc_evict ck') = (Some h, m'')"
    by (cases "CacheGet m' key (hc_get ck') (hc_evict ck')") simp
  have "DiscoverHost tq iana s (Some m) tld ck = (host_answer t h, s', Some m')"
    using assms(1) g q by (simp add: DiscoverHost_def Let_def t discover_miss_def key_def m'_def t_def [symmetric])
  moreover have "DiscoverHost tq' iana s'' (Some m') tld ck' = (host_answer t h, s'', Some m'')" for tq' :: "'s tquery" and s''
    using assms(1) g' by (simp add: DiscoverHost_def Let_def t key_def t_def [symmetric])
  ultimately show ?thesis unfolding t_def by blast
qed

theorem discovery_remembered_for_a_day_witness:
  "\<exists>s' m'. DiscoverHost demo_tq IANAHost None (Some NewMemory) ''.IO'' demo_clock = (Inr ''a.nic'', s', Some m')"
proof -
  have "normalizeTLD ''.IO'' = ''io''" by code_simp
  moreover have "fst (discover_query demo_tq IANAHost None ''io'') = Inr ''a.nic''"
    by (simp add: discover_query_def demo_query demo_hosts demo_texts)
  ultimately show ?thesis
    using discovery_remembered_for_a_day [of "''.IO''" NewMemory demo_clock demo_tq IANAHost None "''a.nic''"
        "\<lparr>hc_get = 1, hc_evict = 1, hc_set = 1\<rparr>"]
    by (simp add: HostTTL_def hour_def host_answer_def empty_get) blast
qed

text \<open>A failure to ask is not remembered. When IANA cannot be asked, answers nothing or does not know
  the TLD, \<open>Host\<close> answers with the embedded host if there is one and with the failure otherwise, and
  every later read of the cache, of this or any other key, gives what it gave before.\<close>

theorem discovery_failure_not_cached:
  assumes "normalizeTLD tld \<noteq> []"
    and "fst (CacheGet m (''whois:host:'' @ normalizeTLD tld) (hc_get ck) (hc_evict ck)) = None"
    and "fst (discover_query tq iana s (normalizeTLD tld)) = Inl e"
    and "hc_get ck \<le> hc_evict ck" and "hc_evict ck \<le> u"
  shows "\<exists>s' m'. DiscoverHost tq iana s (Some m) tld ck =
      (if SeedHost tld = [] then Inl e else Inr (SeedHost tld), s', Some m') \<and>
    fst (CacheGet m' k u u') = fst (CacheGet m k u u')"
proof -
  define t where "t = normalizeTLD tld"
  have t: "to_lower (trim_space (trim_prefix tld ''.'')) = t" by (simp add: t_def normalizeTLD_def)
  obtain m1 where g: "CacheGet m (''whois:host:'' @ t) (hc_get ck) (hc_evict ck) = (None, m1)"
    using assms(2) by (cases "CacheGet m (''whois:host:'' @ t) (hc_get ck) (hc_evict ck)") (simp add: t_def)
  obtain s' where q: "discover_query tq iana s t = (Inl e, s')"
    using assms(3) by (cases "discover_query tq iana s t") (simp add: t_def)
  have "list_all (\<lambda>(t, h). h \<noteq> []) seedHosts" by (simp add: seedHosts_def)
  then have "map_of seedHosts t \<noteq> Some []" by (auto simp: list_all_iff dest!: map_of_SomeD)
  then have "DiscoverHost tq iana s (Some m) tld ck =
      (if SeedHost tld = [] then Inl e else Inr (SeedHost tld), s', Some m1)"
    using assms(1) g q
    by (auto simp: DiscoverHost_def Let_def t discover_miss_def SeedHost_def t_def [symmetric] split: option.splits)
  moreover have "fst (CacheGet m1 k u u') = fst (CacheGet m k u u')"
    using memcache.get_get [OF assms(4,5), of m "''whois:host:'' @ t" k u'] g by simp
  ultimately show ?thesis by blast
qed

theorem discovery_failure_not_cached_witness:
  "\<exists>s' m'. DiscoverHost demo_tq IANAHost None (Some NewMemory) ''uk'' demo_clock = (Inr ''whois.nic.uk'', s', Some m') \<and>
     fst (CacheGet m' ''whois:host:uk'' 7 7) = None"
proof -
  have "normalizeTLD ''uk'' = ''uk''" "SeedHost ''uk'' = ''whois.nic.uk''" by code_simp+
  moreover have "fst (discover_query demo_tq IANAHost None ''uk'') = Inl (UnknownTLD IANAHost ''uk'')"
    by (simp add: discover_query_def demo_query demo_hosts demo_texts)
  ultimately show ?thesis
    using discovery_failure_not_cached [of "''uk''" NewMemory demo_clock demo_tq IANAHost None
        "UnknownTLD IANAHost ''uk''" 7 "''whois:host:uk''" 7]
    by (simp add: empty_get)
qed

end
