(* ===== verification/Whois_Templates.thy ===== *)
theory Whois_Templates
  imports Go_Prelude
begin

text \<open>
  The tables of the WHOIS parsers (\<open>internal/whois/parsers/synonyms.go\<close>, \<open>templates.go\<close>,
  \<open>notfound.go\<close>) and the classification of a response. A Go map is an association list with distinct
  keys. The documentation field \<open>Why\<close> of a template is read by no operation and left out.
\<close>

section \<open>Canonical fields\<close>

definition FDomain :: string where "FDomain = ''domain''"
definition FRegistryDomainID :: string where "FRegistryDomainID = ''registry_domain_id''"
definition FRegistrar :: string where "FRegistrar = ''registrar''"
definition FRegistrarIANAID :: string where "FRegistrarIANAID = ''registrar_iana_id''"
definition FRegistrarURL :: string where "FRegistrarURL = ''registrar_url''"
definition FAbuseEmail :: string where "FAbuseEmail = ''abuse_email''"
definition FAbusePhone :: string where "FAbusePhone = ''abuse_phone''"
definition FStatus :: string where "FStatus = ''status''"
definition FNameserver :: string where "FNameserver = ''nameserver''"
definition FDNSSEC :: string where "FDNSSEC = ''dnssec''"
definition FCreated :: string where "FCreated = ''created''"
definition FUpdated :: string where "FUpdated = ''updated''"
definition FExpires :: string where "FExpires = ''expires''"
definition FTransferred :: string where "FTransferred = ''transferred''"
definition FRegistrantName :: string where "FRegistrantName = ''registrant_name''"
definition FRegistrantOrg :: string where "FRegistrantOrg = ''registrant_org''"
definition FRegistrantEmail :: string where "FRegistrantEmail = ''registrant_email''"
definition FRegistrantPhone :: string where "FRegistrantPhone = ''registrant_phone''"
definition FRegistrantCountry :: string where "FRegistrantCountry = ''registrant_country''"
definition FAdminName :: string where "FAdminName = ''admin_name''"
definition FAdminEmail :: string where "FAdminEmail = ''admin_email''"
definition FTechName :: string where "FTechName = ''tech_name''"
definition FTechEmail :: string where "FTechEmail = ''tech_email''"

lemmas field_names = FDomain_def FRegistryDomainID_def FRegistrar_def FRegistrarIANAID_def FRegistrarURL_def FAbuseEmail_def FAbusePhone_def FStatus_def FNameserver_def FDNSSEC_def FCreated_def FUpdated_def FExpires_def FTransferred_def FRegistrantName_def FRegistrantOrg_def FRegistrantEmail_def FRegistrantPhone_def FRegistrantCountry_def FAdminName_def FAdminEmail_def FTechName_def FTechEmail_def

definition coreFields :: "string list" where
  "coreFields = [FDomain, FRegistrar, FStatus, FNameserver, FCreated, FExpires]"

section \<open>Labels\<close>

definition synonyms :: "(string \<times> string) list" where
  "synonyms =
     [(''domain name'', FDomain), (''domain'', FDomain), (''domainname'', FDomain),
      (''domain_name'', FDomain), (''the domain'', FDomain), (''query'', FDomain),
      (''[domain name]'', FDomain), (''registry domain id'', FRegistryDomainID),
      (''domain id'', FRegistryDomainID), (''roid'', FRegistryDomainID),
      (''nic-hdl'', FRegistryDomainID), (''registrar'', FRegistrar),
      (''sponsoring registrar'', FRegistrar), (''registrar name'', FRegistrar),
      (''registrar organization'', FRegistrar), (''registrar handle'', FRegistrar),
      (''[registrar]'', FRegistrar), (''registrar iana id'', FRegistrarIANAID),
      (''sponsoring registrar iana id'', FRegistrarIANAID), (''registrar ianaid'', FRegistrarIANAID),
      (''registrar url'', FRegistrarURL), (''registrar website'', FRegistrarURL),
      (''registrar web'', FRegistrarURL), (''url'', FRegistrarURL),
      (''registrar abuse contact email'', FAbuseEmail), (''abuse contact email'', FAbuseEmail),
      (''registrar abuse contact phone'', FAbusePhone), (''abuse contact phone'', FAbusePhone),
      (''domain status'', FStatus), (''status'', FStatus), (''state'', FStatus),
      (''eppstatus'', FStatus), (''epp status'', FStatus), (''[status]'', FStatus),
      (''name server'', FNameserver), (''nameserver'', FNameserver), (''nserver'', FNameserver),
      (''name servers'', FNameserver), (''nameservers'', FNameserver), (''dns'', FNameserver),
      (''[name server]'', FNameserver), (''host name'', FNameserver), (''dnssec'', FDNSSEC),
      (''dnssec status'', FDNSSEC), (''signed'', FDNSSEC), (''dnssec signed'', FDNSSEC),
      (''creation date'', FCreated), (''created'', FCreated), (''created on'', FCreated),
      (''created date'', FCreated), (''registered'', FCreated), (''registered on'', FCreated),
      (''registration date'', FCreated), (''domain registration date'', FCreated),
      (''registration time'', FCreated), (''domain record activated'', FCreated),
      (''[created on]'', FCreated), (''activated'', FCreated), (''updated date'', FUpdated),
      (''updated'', FUpdated), (''last updated'', FUpdated), (''last modified'', FUpdated),
      (''changed'', FUpdated), (''modified'', FUpdated), (''domain record last updated'', FUpdated),
      (''last update'', FUpdated), (''[last updated]'', FUpdated), (''registry expiry date'', FExpires),
      (''expiry date'', FExpires), (''expiration date'', FExpires), (''expires'', FExpires),
      (''expires on'', FExpires), (''expire date'', FExpires), (''paid-till'', FExpires),
      (''paid till'', FExpires), (''renewal date'', FExpires), (''domain expiration date'', FExpires),
      (''valid until'', FExpires), (''[expires on]'', FExpires), (''transfer date'', FTransferred),
      (''transferred'', FTransferred), (''registrant name'', FRegistrantName),
      (''registrant'', FRegistrantName), (''registrant contact name'', FRegistrantName),
      (''[registrant]'', FRegistrantName), (''registrant organization'', FRegistrantOrg),
      (''registrant organisation'', FRegistrantOrg), (''registrant org'', FRegistrantOrg),
      (''organisation'', FRegistrantOrg), (''organization'', FRegistrantOrg),
      (''registrant email'', FRegistrantEmail), (''registrant contact email'', FRegistrantEmail),
      (''registrant e-mail'', FRegistrantEmail), (''registrant phone'', FRegistrantPhone),
      (''registrant country'', FRegistrantCountry), (''country'', FRegistrantCountry),
      (''admin name'', FAdminName), (''administrative contact'', FAdminName),
      (''admin contact'', FAdminName), (''admin email'', FAdminEmail),
      (''admin contact email'', FAdminEmail), (''tech name'', FTechName),
      (''technical contact'', FTechName), (''tech contact'', FTechName), (''tech email'', FTechEmail),
      (''tech contact email'', FTechEmail)]"

text \<open>The keys of the Go map \<open>multiValued\<close>.\<close>

definition multiValued :: "string list" where
  "multiValued = [FNameserver, FStatus]"

definition redactionMarkers :: "string list" where
  "redactionMarkers =
     [''redacted for privacy'', ''redacted for gdpr'', ''redacted'', ''data protected'', ''gdpr masked'',
      ''not disclosed'', ''non-public data'', ''withheld for privacy'', ''privacy protected'',
      ''statutory masking enabled'', ''information unavailable'']"

section \<open>Host templates\<close>

record template =
  tp_Labels :: "(string \<times> string) list"
  tp_DateLayouts :: "string list"
  tp_NotFound :: "string list"
  tp_Registered :: "string list"

definition mk_template ::
    "(string \<times> string) list \<Rightarrow> string list \<Rightarrow> string list \<Rightarrow> string list \<Rightarrow> template" where
  "mk_template labels layouts notfound registered =
     \<lparr>tp_Labels = labels, tp_DateLayouts = layouts, tp_NotFound = notfound, tp_Registered = registered\<rparr>"

definition gtld_templates :: "(string \<times> template) list" where
  "gtld_templates =
     [(''whois.verisign-grs.com'', mk_template
        []
        []
        [''no match for'']
        [''registry expiry date'']),
      (''whois.publicinterestregistry.org'', mk_template
        []
        []
        [''not found:'', ''nothing found for this query'']
        []),
      (''whois.nic.google'', mk_template
        []
        []
        [''domain not found'']
        []),
      (''whois.nic.io'', mk_template
        []
        []
        [''not found'', ''no match for'']
        []),
      (''whois.afilias.net'', mk_template
        []
        []
        [''not found:'', ''not found'']
        []),
      (''whois.nic.biz'', mk_template
        []
        []
        [''not found:'', ''no data found'']
        []),
      (''whois.donuts.co'', mk_template
        []
        []
        [''domain not found'']
        []),
      (''whois.rrpproxy.net'', mk_template
        []
        []
        [''domain not found'']
        []),
      (''whois.centralnic.com'', mk_template
        []
        []
        [''domain not found'', ''no match for'']
        [])]"

definition europe_templates :: "(string \<times> template) list" where
  "europe_templates =
     [(''whois.nic.uk'', mk_template
        [(''registered on'', FCreated), (''expiry date'', FExpires), (''last updated'', FUpdated),
         (''registrar'', FRegistrar), (''name servers'', FNameserver),
         (''registration status'', FStatus)]
        [''02-Jan-2006'', ''Mon Jan 02 2006'']
        [''no match for'', ''this domain name has not been registered'']
        [''registered on:'']),
      (''whois.denic.de'', mk_template
        [(''changed'', FUpdated), (''domain'', FDomain), (''nserver'', FNameserver),
         (''status'', FStatus)]
        []
        [''status: free'', ''status:             free'']
        [''status: connect'', ''changed:'']),
      (''whois.domain-registry.nl'', mk_template
        [(''date registered'', FCreated), (''record maintained by'', []),
         (''domain nameservers'', FNameserver), (''reseller'', [])]
        []
        [''is free'', ''not a registered .nl domain'']
        []),
      (''whois.nic.fr'', mk_template
        [(''created'', FCreated), (''last-update'', FUpdated), (''expiry-date'', FExpires),
         (''holder-c'', FRegistrantName), (''nsl-id'', []), (''hostname'', FNameserver)]
        []
        [''no entries found in the afnic database'', ''%% no entries found'']
        []),
      (''whois.dk-hostmaster.dk'', mk_template
        [(''registered'', FCreated), (''expires'', FExpires), (''hostname'', FNameserver)]
        [''2006-01-02'']
        [''no entries found for the selected source'']
        []),
      (''whois.iis.se'', mk_template
        [(''created'', FCreated), (''modified'', FUpdated), (''expires'', FExpires),
         (''nserver'', FNameserver), (''holder'', FRegistrantName), (''state'', FStatus)]
        [''2006-01-02'']
        [''not found'', ''domain not found'']
        []),
      (''whois.nic.ch'', mk_template
        []
        []
        [''do not have an entry'', ''we do not have an entry in our database matching your query'']
        []),
      (''whois.eu'', mk_template
        [(''name servers'', FNameserver), (''registrant'', FRegistrantName)]
        []
        [''status:      available'', ''status: available'']
        []),
      (''whois.nic.it'', mk_template
        [(''created'', FCreated), (''last update'', FUpdated), (''expire date'', FExpires),
         (''nameservers'', FNameserver), (''status'', FStatus)]
        []
        [''available'', ''status:             available'']
        []),
      (''whois.dns.pt'', mk_template
        []
        []
        [''no match'', ''nao existe'']
        []),
      (''whois.nic.at'', mk_template
        [(''changed'', FUpdated), (''nserver'', FNameserver)]
        []
        [''nothing found'', ''% nothing found'']
        []),
      (''whois.norid.no'', mk_template
        [(''created'', FCreated), (''last updated'', FUpdated),
         (''name server handle'', FNameserver)]
        [''2006-01-02'']
        [''no matches for query'']
        []),
      (''whois.fi'', mk_template
        [(''created'', FCreated), (''expires'', FExpires), (''modified'', FUpdated),
         (''nserver'', FNameserver)]
        [''2.1.2006'', ''02.01.2006'']
        [''domain not found'']
        []),
      (''whois.nic.cz'', mk_template
        [(''registered'', FCreated), (''changed'', FUpdated), (''expire'', FExpires),
         (''nserver'', FNameserver)]
        [''02.01.2006 15:04:05'']
        [''no entries found'', ''%% no entries found'']
        []),
      (''whois.dns.be'', mk_template
        [(''registered'', FCreated), (''nameservers'', FNameserver)]
        []
        [''status:'' @ [CHR 0x09] @ ''available'', ''status: available'', ''free'']
        []),
      (''whois.nic.es'', mk_template
        []
        []
        [''not found'', ''el dominio no existe'']
        []),
      (''whois.tcinet.ru'', mk_template
        [(''created'', FCreated), (''paid-till'', FExpires), (''nserver'', FNameserver),
         (''state'', FStatus)]
        [''2006-01-02T15:04:05Z0700'', ''2006.01.02'']
        [''no entries found'']
        []),
      (''whois.registry.in'', mk_template
        []
        []
        [''no data found'', ''not found'']
        [])]"

definition asia_pacific_templates :: "(string \<times> template) list" where
  "asia_pacific_templates =
     [(''whois.jprs.jp'', mk_template
        [(''[created on]'', FCreated), (''[expires on]'', FExpires), (''[last updated]'', FUpdated),
         (''[status]'', FStatus), (''[name server]'', FNameserver),
         (''[registrant]'', FRegistrantName), (''[domain name]'', FDomain),
         (''[organization]'', FRegistrantOrg), (''[last update]'', FUpdated),
         (''[registration date]'', FCreated), (''[signing key]'', []), (''[web page]'', []),
         (''[email address]'', [])]
        [''2006/01/02'', ''2006/01/02 15:04:05 (JST)'']
        [''no match!!'', ''no match'']
        []),
      (''whois.auda.org.au'', mk_template
        [(''last modified'', FUpdated), (''name server'', FNameserver),
         (''registrant'', FRegistrantName)]
        []
        [''no data found'']
        []),
      (''whois.twnic.net.tw'', mk_template
        []
        [''2006-01-02 15:04:05'']
        [''no found'', ''not found'']
        []),
      (''whois.kr'', mk_template
        [(''registered date'', FCreated), (''last updated date'', FUpdated),
         (''expiration date'', FExpires)]
        [''2006. 01. 02.'', ''2006-01-02'']
        [''above domain name is not registered'']
        []),
      (''whois.cnnic.cn'', mk_template
        [(''registration time'', FCreated), (''expiration time'', FExpires)]
        [''2006-01-02 15:04:05'']
        [''no matching record'']
        []),
      (''whois.sgnic.sg'', mk_template
        []
        [''02-Jan-2006 15:04:05'']
        [''domain not found'', ''not found'']
        []),
      (''whois.nic.net.nz'', mk_template
        [(''domain_dateregistered'', FCreated), (''domain_datelastmodified'', FUpdated),
         (''ns_name_01'', FNameserver)]
        []
        [''query_status: 220 available'']
        [])]"

definition americas_africa_templates :: "(string \<times> template) list" where
  "americas_africa_templates =
     [(''whois.registro.br'', mk_template
        [(''created'', FCreated), (''changed'', FUpdated), (''expires'', FExpires),
         (''nserver'', FNameserver), (''owner'', FRegistrantOrg)]
        [''20060102'']
        [''no match for'', ''% no match for'']
        []),
      (''whois.cira.ca'', mk_template
        [(''creation date'', FCreated), (''expiry date'', FExpires), (''name servers'', FNameserver)]
        []
        [''not found'', ''domain status: available'']
        []),
      (''whois.nic.cl'', mk_template
        []
        [''2006-01-02 15:04:05 MST'']
        [''no entries found'']
        []),
      (''whois.nic.mx'', mk_template
        []
        [''2006-01-02'']
        [''object_not_found'', ''no_se_encontro_el_objeto'']
        []),
      (''whois.registry.co.za'', mk_template
        []
        []
        [''available'', ''not found'']
        []),
      (''whois.nic.ar'', mk_template
        []
        [''2006-01-02 15:04:05'']
        [''el dominio no se encuentra registrado'', ''no entries found'']
        [])]"

definition templates :: "(string \<times> template) list" where
  "templates = gtld_templates @ europe_templates @ asia_pacific_templates @ americas_africa_templates"

definition normalizeHostKey :: "string \<Rightarrow> string" where
  "normalizeHostKey host =
     (let h = trim_suffix (to_lower (trim_space host)) ''.''
      in case last_index h (CHR '':'') of
           Some i \<Rightarrow> if 0 < i \<and> \<not> contains h '']'' then take i h else h
         | None \<Rightarrow> h)"

definition TemplateLookup :: "string \<Rightarrow> template option" where
  "TemplateLookup host =
     (let h = normalizeHostKey host in if h = [] then None else map_of templates h)"

text \<open>\<open>ord\<close> is the order in which the runtime iterates the table.\<close>

definition Hosts :: "string list \<Rightarrow> string list" where
  "Hosts ord = filter (\<lambda>h. map_of templates h \<noteq> None) ord"

section \<open>Registered or not\<close>

datatype availability = Registered | Unregistered | Unknown

definition notFoundSignatures :: "string list" where
  "notFoundSignatures =
     [''no match for'', ''no match'', ''not found'', ''no entries found'', ''no data found'',
      ''no object found'', ''nothing found'', ''domain not found'', ''domain is available'', ''is free'',
      ''status: free'', ''status: available'', ''status:             free'', ''object does not exist'',
      ''no such domain'', ''not registered'', ''no information available about'', ''domain unknown'',
      ''this domain name has not been registered'', ''the queried object does not exist'',
      ''available for registration'', ''free for registration'', ''no matching record'',
      ''we do not have an entry'', ''%% no entries found'']"

definition registeredSignals :: "string list" where
  "registeredSignals =
     [''registry expiry date'', ''expiry date'', ''expiration date'', ''creation date'',
      ''registered on'', ''registrar:'', ''sponsoring registrar'', ''name server'', ''nserver'',
      ''nameserver'', ''domain status'', ''registrant'', ''paid-till'', ''changed:'']"

definition rateLimitSignatures :: "string list" where
  "rateLimitSignatures =
     [''rate limit'', ''rate-limit'', ''limit exceeded'', ''too many requests'', ''query limit'',
      ''exceeded the maximum'', ''try again later'', ''access denied'', ''connection refused by'',
      ''blocked'', ''quota exceeded'', ''excessive querying'']"

definition containsAny :: "string \<Rightarrow> string list \<Rightarrow> bool" where
  "containsAny haystack needles = list_ex (\<lambda>n. n \<noteq> [] \<and> contains haystack n) needles"

definition lower_all :: "string list \<Rightarrow> string list" where
  "lower_all ss = map to_lower ss"

definition host_verdict :: "string \<Rightarrow> string \<Rightarrow> availability option" where
  "host_verdict host body =
     (case TemplateLookup host of
        None \<Rightarrow> None
      | Some tpl \<Rightarrow>
          if containsAny body (lower_all (tp_NotFound tpl)) then Some Unregistered
          else if tp_NotFound tpl \<noteq> [] \<and> containsAny body (lower_all (tp_Registered tpl)) then Some Registered
          else None)"

definition Classify :: "string \<Rightarrow> string \<Rightarrow> availability" where
  "Classify host raw =
     (if raw = [] then Unknown
      else
        (let body = to_lower raw
         in if containsAny body rateLimitSignatures then Unknown
            else case host_verdict host body of
              Some v \<Rightarrow> v
            | None \<Rightarrow>
                (let hasRecord = containsAny body registeredSignals;
                     hasNegative = containsAny body notFoundSignatures
                 in if hasRecord \<and> \<not> hasNegative then Registered
                    else if hasNegative \<and> \<not> hasRecord then Unregistered
                    else Unknown)))"

section \<open>Lemmas\<close>

text \<open>The phrases that can make a response negative for a host.\<close>

definition negative_phrases :: "string \<Rightarrow> string list" where
  "negative_phrases host =
     (case TemplateLookup host of Some tpl \<Rightarrow> lower_all (tp_NotFound tpl) | None \<Rightarrow> []) @ notFoundSignatures"

lemma containsAny_append: "containsAny b (xs @ ys) \<longleftrightarrow> containsAny b xs \<or> containsAny b ys"
  by (simp add: containsAny_def)

lemma host_verdict_unregistered:
  "host_verdict host body = Some Unregistered \<Longrightarrow> containsAny body (negative_phrases host)"
  by (auto simp: host_verdict_def negative_phrases_def containsAny_append split: option.splits if_splits)

lemma Classify_host_negative:
  assumes "raw \<noteq> []" and "\<not> containsAny (to_lower raw) rateLimitSignatures"
    and "TemplateLookup host = Some tpl" and "containsAny (to_lower raw) (lower_all (tp_NotFound tpl))"
  shows "Classify host raw = Unregistered"
  using assms by (simp add: Classify_def host_verdict_def Let_def)

section \<open>Properties\<close>

text \<open>A domain is called free only on a registry's own words. \<open>Classify\<close> answers \<open>Unregistered\<close> only for
  a response that is not empty, carries no sign of throttling, and contains one of the negative phrases of
  the host's template or of the generic list; and when the host has no template, only if it contains no
  sign of a record.\<close>

theorem Classify_free_needs_phrase:
  assumes "Classify host raw = Unregistered"
  shows "raw \<noteq> [] \<and> \<not> containsAny (to_lower raw) rateLimitSignatures \<and>
    containsAny (to_lower raw) (negative_phrases host) \<and>
    (TemplateLookup host = None \<longrightarrow> \<not> containsAny (to_lower raw) registeredSignals)"
proof -
  have raw: "raw \<noteq> []" "\<not> containsAny (to_lower raw) rateLimitSignatures"
    using assms by (auto simp: Classify_def Let_def split: if_splits)
  show ?thesis
  proof (cases "host_verdict host (to_lower raw)")
    case None
    then have "containsAny (to_lower raw) notFoundSignatures" "\<not> containsAny (to_lower raw) registeredSignals"
      using assms raw by (auto simp: Classify_def Let_def split: if_splits)
    then show ?thesis using raw by (simp add: negative_phrases_def containsAny_append)
  next
    case (Some v)
    then have "v = Unregistered" using assms raw by (simp add: Classify_def)
    then show ?thesis using raw Some host_verdict_unregistered by (auto simp: host_verdict_def split: option.splits)
  qed
qed

theorem Classify_free_needs_phrase_witness:
  "containsAny (to_lower ''No match for X.COM'') (negative_phrases ''whois.verisign-grs.com:43'')"
proof -
  have "Classify ''whois.verisign-grs.com:43'' ''No match for X.COM'' = Unregistered" by code_simp
  from Classify_free_needs_phrase [OF this] show ?thesis by (elim conjE)
qed

text \<open>A record can be reported as free. The template of \<open>whois.nic.it\<close> lists the bare word ``available''
  as a negative phrase, and the phrases of a template are tried before the signs of a record: any response of
  that host with this word, a full record included, is classified as \<open>Unregistered\<close>.\<close>

theorem available_word_frees_it_domains:
  assumes "raw \<noteq> []" and "\<not> containsAny (to_lower raw) rateLimitSignatures" and "contains (to_lower raw) ''available''"
  shows "Classify ''whois.nic.it:43'' raw = Unregistered"
proof -
  have t: "TemplateLookup ''whois.nic.it:43'' \<noteq> None"
    "hd (lower_all (tp_NotFound (the (TemplateLookup ''whois.nic.it:43'')))) = ''available''"
    "tp_NotFound (the (TemplateLookup ''whois.nic.it:43'')) \<noteq> []"
    by code_simp+
  then obtain tpl where tpl: "TemplateLookup ''whois.nic.it:43'' = Some tpl" by auto
  then obtain ps where "lower_all (tp_NotFound tpl) = ''available'' # ps"
    using t(2,3) by (cases "tp_NotFound tpl") (auto simp: lower_all_def)
  then have "containsAny (to_lower raw) (lower_all (tp_NotFound tpl))"
    using assms(3) by (simp add: containsAny_def)
  then show ?thesis using Classify_host_negative assms(1,2) tpl by blast
qed

theorem available_word_frees_it_domains_witness:
  "Classify ''whois.nic.it:43'' ''Registrar: ACME Email: not available'' = Unregistered"
proof -
  have "\<not> containsAny (to_lower ''Registrar: ACME Email: not available'') rateLimitSignatures"
    "contains (to_lower ''Registrar: ACME Email: not available'') ''available''"
    by code_simp+
  then show ?thesis by (intro available_word_frees_it_domains) simp_all
qed

end
