(* ===== verification/Whois_Parse.thy ===== *)
theory Whois_Parse
  imports Complex_Main Whois_Templates
begin

text \<open>
  The two-tier WHOIS parser: \<open>internal/whois/parsers/parse.go\<close> and \<open>dates.go\<close>. \<open>time.Parse\<close> is the
  argument \<open>parse_time\<close> of a layout and a text. The confidence score is computed in the double
  precision arithmetic of the code, every operation rounded to nearest even by \<open>fl64\<close>.
\<close>

section \<open>Double precision\<close>

text \<open>
  Rounding of a positive rational to 53 significant bits, ties to even. \<open>normalise\<close> finds the scale: it
  doubles or halves until the value lies in \<open>[2^52, 2^53)\<close>; 64 steps reach every value between
  \<open>2^-11\<close> and \<open>2^116\<close>, and the score only meets values between 0.01 and 101.
\<close>

definition round_even :: "rat \<Rightarrow> int" where
  "round_even x =
     (let n = \<lfloor>x\<rfloor>; d = x - of_int n
      in if d < 1 / 2 then n else if 1 / 2 < d then n + 1 else if even n then n else n + 1)"

fun normalise :: "nat \<Rightarrow> rat \<Rightarrow> int \<Rightarrow> rat \<times> int" where
  "normalise 0 x k = (x, k)"
| "normalise (Suc fuel) x k =
     (if x < 4503599627370496 then normalise fuel (2 * x) (k + 1)
      else if 9007199254740992 \<le> x then normalise fuel (x / 2) (k - 1)
      else (x, k))"

definition fl64 :: "rat \<Rightarrow> rat" where
  "fl64 x =
     (if x \<le> 0 then (if x = 0 then 0 else x)
      else case normalise 64 x 0 of (y, k) \<Rightarrow>
        (if 0 \<le> k then of_int (round_even y) / 2 ^ nat k else of_int (round_even y) * 2 ^ nat (- k)))"

section \<open>Data\<close>

record contact =
  ct_Role :: string
  ct_Redacted :: bool
  ct_Reason :: string
  ct_Name :: string
  ct_Organization :: string
  ct_Email :: string
  ct_Phone :: string
  ct_Country :: string

type_synonym fields = "string \<rightharpoonup> string list"

record parsed =
  pa_Template :: string
  pa_Confidence :: rat
  pa_DomainName :: string
  pa_RegistryDomainID :: string
  pa_RegistrarName :: string
  pa_RegistrarIANAID :: int
  pa_RegistrarURL :: string
  pa_AbuseEmail :: string
  pa_AbusePhone :: string
  pa_Statuses :: "string list"
  pa_Nameservers :: "string list"
  pa_DNSSECSigned :: bool
  pa_DNSSECStated :: bool
  pa_Created :: "time option"
  pa_Updated :: "time option"
  pa_Expires :: "time option"
  pa_Transferred :: "time option"
  pa_TimezoneAssumed :: bool
  pa_Registrant :: "contact option"
  pa_Admin :: "contact option"
  pa_Tech :: "contact option"
  pa_Fields :: fields
  pa_UnknownLabels :: "string list"

section \<open>Dates\<close>

definition dateLayouts :: "(string \<times> bool) list" where
  "dateLayouts =
     [(''2006-01-02T15:04:05.999999999Z07:00'', True), (''2006-01-02T15:04:05Z07:00'', True),
      (''2006-01-02T15:04:05Z0700'', True), (''2006-01-02T15:04:05-0700'', True),
      (''2006-01-02 15:04:05-07'', True), (''2006-01-02 15:04:05 MST'', True),
      (''02-Jan-2006 15:04:05 MST'', True), (''2006.01.02 15:04:05'', False),
      (''2006-01-02T15:04:05'', False), (''2006-01-02 15:04:05'', False), (''2006-01-02 15:04'', False),
      (''02-Jan-2006 15:04:05'', False), (''02-Jan-2006'', False), (''2-Jan-2006'', False),
      (''02 Jan 2006'', False), (''Mon Jan 2 15:04:05 2006'', False), (''Mon Jan  2 15:04:05 2006'', False),
      (''20060102'', False), (''2006-01-02'', False), (''2006/01/02'', False), (''02.01.2006'', False),
      (''02/01/2006'', False), (''01/02/2006'', False), (''2006-Jan-02'', False)]"

definition before_mark :: "string \<Rightarrow> string \<Rightarrow> string" where
  "before_mark m s = (case index_of s m of Some i \<Rightarrow> take i s | None \<Rightarrow> s)"

fun drop_zone :: "string list \<Rightarrow> string \<Rightarrow> string" where
  "drop_zone [] s = s"
| "drop_zone (suffix # rest) s =
     (if has_suffix s suffix then trim_space (trim_suffix s suffix) else drop_zone rest s)"

definition cleanDate :: "string \<Rightarrow> string" where
  "cleanDate v =
     (let s = trim_space v
      in if s = [] then []
         else (let s = trim_suffix (trim_space (before_mark ''('' (before_mark ''#'' s))) '',''
               in trim_space (drop_zone ['' UTC'', '' utc'', '' GMT'', '' gmt'', '' Z''] s)))"

definition hasZone :: "string \<Rightarrow> bool" where
  "hasZone layout \<longleftrightarrow> contains_any layout ''Z'' \<or> contains layout ''-07'' \<or> contains layout ''MST''"

fun try_layouts :: "(string \<Rightarrow> string \<Rightarrow> time option) \<Rightarrow> (string \<times> bool) list \<Rightarrow> string \<Rightarrow> (time \<times> bool) option" where
  "try_layouts parse_time [] s = None"
| "try_layouts parse_time ((layout, hasTZ) # rest) s =
     (case parse_time layout s of
        Some t \<Rightarrow> Some (t, \<not> hasTZ)
      | None \<Rightarrow> try_layouts parse_time rest s)"

text \<open>The instant and whether a zone had to be assumed.\<close>

definition ParseDate ::
    "(string \<Rightarrow> string \<Rightarrow> time option) \<Rightarrow> string \<Rightarrow> string list \<Rightarrow> (time \<times> bool) option" where
  "ParseDate parse_time v extra =
     (let s = cleanDate v
      in if s = [] then None
         else try_layouts parse_time (map (\<lambda>l. (l, hasZone l)) extra @ dateLayouts) s)"

section \<open>Lines\<close>

definition splitLine :: "string \<Rightarrow> (string \<times> string) option" where
  "splitLine line =
     (let trimmed = trim_space (trim_right line [CHR 0x0D])
      in if trimmed = [] then None
         else if has_prefix trimmed ''%'' \<or> has_prefix trimmed ''#'' \<or> has_prefix trimmed ''>>>'' \<or>
                 has_prefix trimmed ''--'' then None
         else case (if has_prefix trimmed ''['' then index_of trimmed '']'' else None) of
           Some e \<Rightarrow> Some (take (e + 1) trimmed, trim_space (drop (e + 1) trimmed))
         | None \<Rightarrow>
             (case index_of trimmed '':'' of
                None \<Rightarrow> None
              | Some i \<Rightarrow>
                  if i = 0 then None
                  else (let label = trim_space (take i trimmed); v = trim_space (drop (i + 1) trimmed)
                        in if contains_any label ''.!?'' \<and> \<not> has_prefix label ''['' then None
                           else if 60 < length label then None
                           else Some (label, v))))"

definition isProseLabel :: "string \<Rightarrow> bool" where
  "isProseLabel label =
     (let l = to_lower label
      in 5 \<le> length (filter (\<lambda>c. c = CHR '' '') l) \<or>
         list_ex (contains l)
           [''notice'', ''terms of use'', ''by submitting'', ''important'', ''disclaimer'', ''copyright'',
            ''http'', ''https'', ''www'', ''for more information'', ''the data in'',
            ''this data is provided'', ''note'', ''warning''])"

fun prefixed_synonym :: "string list \<Rightarrow> string \<Rightarrow> string" where
  "prefixed_synonym [] l = []"
| "prefixed_synonym (prefix # rest) l =
     (case (if has_prefix l prefix then map_of synonyms (trim_prefix l prefix) else None) of
        Some f \<Rightarrow> f
      | None \<Rightarrow> prefixed_synonym rest l)"

definition canonical :: "string \<Rightarrow> (string \<times> string) list \<Rightarrow> string" where
  "canonical label labels =
     (let l = to_lower (trim_space label)
      in case map_of labels l of
           Some f \<Rightarrow> f
         | None \<Rightarrow>
             (case map_of synonyms l of
                Some f \<Rightarrow> f
              | None \<Rightarrow> prefixed_synonym [''registry '', ''registrar '', ''domain ''] l))"

text \<open>The block under a bare label, at most 20 lines of it; each value stands for a consumed line.\<close>

fun continuation :: "nat \<Rightarrow> string list \<Rightarrow> string list" where
  "continuation 0 rest = []"
| "continuation (Suc k) [] = []"
| "continuation (Suc k) (line # rest) =
     (let raw = trim_right line [CHR 0x0D]; trimmed = trim_space raw
      in if trimmed = [] then []
         else if \<not> has_prefix raw '' '' \<and> \<not> has_prefix raw [CHR 0x09] then []
         else if contains trimmed '':'' \<or> has_prefix trimmed ''%'' \<or> has_prefix trimmed ''#'' then []
         else trimmed # continuation k rest)"

definition continuationValues :: "string list \<Rightarrow> string list \<times> nat" where
  "continuationValues rest = (let vals = continuation 20 rest in (vals, length vals))"

definition appendUnique :: "string list \<Rightarrow> string \<Rightarrow> string list" where
  "appendUnique dst v = (if list_ex (\<lambda>existing. equal_fold existing v) dst then dst else dst @ [v])"

definition field_values :: "fields \<Rightarrow> string \<Rightarrow> string list" where
  "field_values fs key = (case fs key of Some vs \<Rightarrow> vs | None \<Rightarrow> [])"

definition record_field :: "fields \<Rightarrow> string \<Rightarrow> string \<Rightarrow> fields" where
  "record_field fs key v =
     (if v = [] then fs
      else if key \<in> set multiValued then fs(key \<mapsto> appendUnique (field_values fs key) v)
      else if fs key = None then fs(key \<mapsto> [v])
      else fs)"

text \<open>The loop over the lines, with the fields and the unknown labels so far.\<close>

function parse_lines :: "(string \<times> string) list \<Rightarrow> string list \<Rightarrow> fields \<times> string list \<Rightarrow> fields \<times> string list" where
  "parse_lines labels [] st = st"
| "parse_lines labels (line # rest) st =
     (case st of (fs, unknown) \<Rightarrow>
        (case splitLine line of
           None \<Rightarrow> parse_lines labels rest (fs, unknown)
         | Some (label, v) \<Rightarrow>
             (let key = canonical label labels
              in if key = [] then
                   parse_lines labels rest (fs, if isProseLabel label then unknown else unknown @ [label])
                 else if v = [] then
                   (case continuationValues rest of (vals, consumed) \<Rightarrow>
                      parse_lines labels (drop consumed rest)
                        (foldl (\<lambda>fs v. record_field fs key v) fs vals, unknown))
                 else parse_lines labels rest (record_field fs key v, unknown))))"
  by pat_completeness auto
termination
  by (relation "measure (\<lambda>(labels, ls, st). length ls)") auto

section \<open>Typed members\<close>

definition first :: "fields \<Rightarrow> string \<Rightarrow> string" where
  "first fs field = (case field_values fs field of [] \<Rightarrow> [] | v # _ \<Rightarrow> v)"

definition nameserver_host :: "string \<Rightarrow> string" where
  "nameserver_host v =
     (let h = trim_space v;
          h = (case index_any h [CHR '' '', CHR 0x09, CHR ''[''] of Some i \<Rightarrow> if 0 < i then take i h else h | None \<Rightarrow> h)
      in to_lower (trim_suffix (trim_space h) ''.''))"

fun normalizeNameservers :: "string list \<Rightarrow> string list \<Rightarrow> string list" where
  "normalizeNameservers out [] = out"
| "normalizeNameservers out (v # vs) =
     (let h = nameserver_host v
      in if h = [] \<or> \<not> contains h ''.'' then normalizeNameservers out vs
         else normalizeNameservers (appendUnique out h) vs)"

definition dnssecSigned :: "string \<Rightarrow> bool" where
  "dnssecSigned v =
     (let l = to_lower (trim_space v)
      in if has_prefix l ''unsigned'' \<or> l = ''no'' \<or> l = ''false'' \<or> l = ''unsigneddelegation'' \<or>
            contains l ''unsigned'' \<or> contains l ''not signed'' then False
         else has_prefix l ''signed'' \<or> l = ''yes'' \<or> l = ''true'' \<or> contains l ''signeddelegation'' \<or>
            contains l ''signed'')"

definition redactionMarker :: "string \<Rightarrow> string option" where
  "redactionMarker v =
     (let l = to_lower (trim_space v) in if l = [] then None else List.find (contains l) redactionMarkers)"

fun redaction_reason :: "string list \<Rightarrow> string option \<Rightarrow> string option" where
  "redaction_reason [] reason = reason"
| "redaction_reason (v # vs) reason =
     redaction_reason vs (case redactionMarker v of Some m \<Rightarrow> Some m | None \<Rightarrow> reason)"

definition unmark :: "string \<Rightarrow> string" where
  "unmark v = (if redactionMarker v = None then v else [])"

definition build_contact ::
    "string \<Rightarrow> string \<Rightarrow> string \<Rightarrow> string \<Rightarrow> string \<Rightarrow> string \<Rightarrow> contact option" where
  "build_contact role name org email phone country =
     (if name = [] \<and> org = [] \<and> email = [] \<and> phone = [] \<and> country = [] then None
      else case redaction_reason [name, org, email] None of
        None \<Rightarrow>
          Some \<lparr>ct_Role = role, ct_Redacted = False, ct_Reason = [], ct_Name = name, ct_Organization = org,
                ct_Email = to_lower email, ct_Phone = phone, ct_Country = to_upper country\<rparr>
      | Some m \<Rightarrow>
          Some \<lparr>ct_Role = role, ct_Redacted = True, ct_Reason = m, ct_Name = unmark name,
                ct_Organization = unmark org, ct_Email = unmark (to_lower email), ct_Phone = phone,
                ct_Country = to_upper country\<rparr>)"

definition contact_of ::
    "fields \<Rightarrow> string \<Rightarrow> string \<Rightarrow> string \<Rightarrow> string \<Rightarrow> string \<Rightarrow> string \<Rightarrow> contact option" where
  "contact_of fs role nameF orgF emailF phoneF countryF =
     (let get = (\<lambda>f. if f = [] then [] else first fs f)
      in build_contact role (get nameF) (get orgF) (get emailF) (get phoneF) (get countryF))"

definition date_of ::
    "(string \<Rightarrow> string \<Rightarrow> time option) \<Rightarrow> string list \<Rightarrow> fields \<Rightarrow> string \<Rightarrow> (time \<times> bool) option" where
  "date_of parse_time layouts fs field =
     (let v = first fs field in if v = [] then None else ParseDate parse_time v layouts)"

definition promote ::
    "(string \<Rightarrow> string \<Rightarrow> time option) \<Rightarrow> string list \<Rightarrow> parsed \<Rightarrow> parsed" where
  "promote parse_time layouts p =
     (let fs = pa_Fields p;
          created = date_of parse_time layouts fs FCreated; expires = date_of parse_time layouts fs FExpires;
          updated = date_of parse_time layouts fs FUpdated; transferred = date_of parse_time layouts fs FTransferred
      in p\<lparr>pa_DomainName := to_lower (first fs FDomain),
           pa_RegistryDomainID := first fs FRegistryDomainID,
           pa_RegistrarName := first fs FRegistrar,
           pa_RegistrarURL := first fs FRegistrarURL,
           pa_AbuseEmail := to_lower (first fs FAbuseEmail),
           pa_AbusePhone := first fs FAbusePhone,
           pa_RegistrarIANAID :=
             (if first fs FRegistrarIANAID = [] then pa_RegistrarIANAID p
              else case atoi (trim_space (first fs FRegistrarIANAID)) of Some n \<Rightarrow> n | None \<Rightarrow> pa_RegistrarIANAID p),
           pa_Statuses := field_values fs FStatus,
           pa_Nameservers := normalizeNameservers [] (field_values fs FNameserver),
           pa_DNSSECStated := (first fs FDNSSEC \<noteq> []),
           pa_DNSSECSigned := (first fs FDNSSEC \<noteq> [] \<and> dnssecSigned (first fs FDNSSEC)),
           pa_Created := map_option fst created,
           pa_Expires := map_option fst expires,
           pa_Updated := map_option fst updated,
           pa_Transferred := map_option fst transferred,
           pa_TimezoneAssumed :=
             list_ex (\<lambda>d. case d of Some (t, assumed) \<Rightarrow> assumed | None \<Rightarrow> False) [created, expires, updated, transferred],
           pa_Registrant := contact_of fs ''registrant'' FRegistrantName FRegistrantOrg FRegistrantEmail
             FRegistrantPhone FRegistrantCountry,
           pa_Admin := contact_of fs ''administrative'' FAdminName [] FAdminEmail [] [],
           pa_Tech := contact_of fs ''technical'' FTechName [] FTechEmail [] []\<rparr>)"

section \<open>Confidence\<close>

definition round2 :: "rat \<Rightarrow> rat" where
  "round2 f = fl64 (of_int \<lfloor>fl64 (fl64 (f * 100) + 1 / 2)\<rfloor> / 100)"

definition score_base :: "bool \<Rightarrow> nat \<Rightarrow> rat" where
  "score_base hasTemplate found =
     (let base = fl64 (of_nat found / 6)
      in if hasTemplate then fl64 (fl64 (base * fl64 (9 / 10)) + fl64 (1 / 10))
         else fl64 (base * fl64 (85 / 100)))"

definition score :: "fields \<Rightarrow> string list \<Rightarrow> bool \<Rightarrow> rat" where
  "score fs unknown hasTemplate =
     (let found = length (filter (\<lambda>f. field_values fs f \<noteq> []) coreFields); n = length unknown
      in if found = 0 then 0
         else
           (let base = score_base hasTemplate found;
                penalty = fl64 (of_nat n * fl64 (1 / 100));
                base = (if 0 < n then fl64 (base - (if fl64 (15 / 100) < penalty then fl64 (15 / 100) else penalty)) else base);
                base = (if base < fl64 (5 / 100) then fl64 (5 / 100) else base);
                base = (if 1 < base then 1 else base)
            in round2 base))"

section \<open>The parser\<close>

definition empty_parsed :: parsed where
  "empty_parsed = \<lparr>pa_Template = ''heuristic'', pa_Confidence = 0, pa_DomainName = [], pa_RegistryDomainID = [],
     pa_RegistrarName = [], pa_RegistrarIANAID = 0, pa_RegistrarURL = [], pa_AbuseEmail = [], pa_AbusePhone = [],
     pa_Statuses = [], pa_Nameservers = [], pa_DNSSECSigned = False, pa_DNSSECStated = False, pa_Created = None,
     pa_Updated = None, pa_Expires = None, pa_Transferred = None, pa_TimezoneAssumed = False,
     pa_Registrant = None, pa_Admin = None, pa_Tech = None, pa_Fields = Map.empty, pa_UnknownLabels = []\<rparr>"

definition Parse :: "(string \<Rightarrow> string \<Rightarrow> time option) \<Rightarrow> string \<Rightarrow> string \<Rightarrow> parsed" where
  "Parse parse_time host raw =
     (if raw = [] then empty_parsed
      else
        (let tpl = TemplateLookup host;
             labels = (case tpl of Some t \<Rightarrow> tp_Labels t | None \<Rightarrow> []);
             layouts = (case tpl of Some t \<Rightarrow> tp_DateLayouts t | None \<Rightarrow> []);
             template = (case tpl of Some _ \<Rightarrow> normalizeHostKey host | None \<Rightarrow> ''heuristic'')
         in case parse_lines labels (split_at (CHR 0x0A) raw) (Map.empty, []) of (fs, unknown) \<Rightarrow>
              (let p = promote parse_time layouts
                         (empty_parsed\<lparr>pa_Template := template, pa_Fields := fs, pa_UnknownLabels := unknown\<rparr>)
               in p\<lparr>pa_Confidence := score fs unknown (tpl \<noteq> None)\<rparr>)))"

section \<open>Fields\<close>

text \<open>Where a value can come from: the value part of a line, or a whole line of a block.\<close>

definition from_line :: "string list \<Rightarrow> string \<Rightarrow> bool" where
  "from_line ls v \<longleftrightarrow>
     (\<exists>line \<in> set ls. (\<exists>l. splitLine line = Some (l, v)) \<or> v = trim_space (trim_right line [CHR 0x0D]))"

definition fields_ok :: "string list \<Rightarrow> fields \<Rightarrow> bool" where
  "fields_ok ls fs \<longleftrightarrow>
     (\<forall>key vs. fs key = Some vs \<longrightarrow>
        vs \<noteq> [] \<and> distinct (map to_lower vs) \<and> (\<forall>v \<in> set vs. v \<noteq> [] \<and> from_line ls v) \<and>
        (key \<notin> set multiValued \<longrightarrow> length vs = 1))"

lemma fields_okD: "fields_ok ls fs \<Longrightarrow> fs key = Some vs \<Longrightarrow> vs \<noteq> [] \<and> distinct (map to_lower vs) \<and>
    (\<forall>v \<in> set vs. v \<noteq> [] \<and> from_line ls v) \<and> (key \<notin> set multiValued \<longrightarrow> length vs = 1)"
  unfolding fields_ok_def by blast

lemma fields_ok_update:
  assumes "fields_ok ls fs" and "vs \<noteq> []" and "distinct (map to_lower vs)" and "\<forall>v \<in> set vs. v \<noteq> [] \<and> from_line ls v"
    and "key \<notin> set multiValued \<Longrightarrow> length vs = 1"
  shows "fields_ok ls (fs(key \<mapsto> vs))"
  using assms unfolding fields_ok_def by auto

lemma appendUnique_distinct: "distinct (map to_lower vs) \<Longrightarrow> distinct (map to_lower (appendUnique vs v))"
  by (auto simp: appendUnique_def equal_fold_def list_ex_iff)

lemma appendUnique_set: "set (appendUnique vs v) \<subseteq> insert v (set vs)"
  by (auto simp: appendUnique_def)

lemma record_field_ok:
  assumes "fields_ok ls fs" and "from_line ls v"
  shows "fields_ok ls (record_field fs key v)"
proof (cases "v = []")
  case False
  have vals: "distinct (map to_lower (field_values fs key))" "\<forall>w \<in> set (field_values fs key). w \<noteq> [] \<and> from_line ls w"
    by (cases "fs key"; use fields_okD [OF assms(1), of key] in \<open>simp add: field_values_def\<close>)+
  have "fields_ok ls (fs(key \<mapsto> appendUnique (field_values fs key) v))" if "key \<in> set multiValued"
  proof (rule fields_ok_update [OF assms(1)])
    show "appendUnique (field_values fs key) v \<noteq> []" by (auto simp: appendUnique_def)
    show "\<forall>w \<in> set (appendUnique (field_values fs key) v). w \<noteq> [] \<and> from_line ls w"
      using vals(2) appendUnique_set assms(2) False by blast
  qed (use vals(1) that appendUnique_distinct in auto)
  moreover have "fields_ok ls (fs(key \<mapsto> [v]))"
    by (rule fields_ok_update [OF assms(1)]) (use assms(2) False in auto)
  ultimately show ?thesis using assms(1) False by (simp add: record_field_def)
qed (simp add: record_field_def assms(1))

lemma record_fields_ok:
  "fields_ok ls fs \<Longrightarrow> \<forall>v \<in> set vals. from_line ls v \<Longrightarrow>
   fields_ok ls (foldl (\<lambda>fs v. record_field fs key v) fs vals)"
  by (induction vals arbitrary: fs) (auto intro: record_field_ok)

lemma continuation_from: "v \<in> set (continuation k rest) \<Longrightarrow> from_line rest v"
  by (induction k rest rule: continuation.induct) (auto simp: Let_def from_line_def split: if_splits)

lemma continuation_bound: "length (continuation k rest) \<le> k"
  by (induction k rest rule: continuation.induct) (auto simp: Let_def)

lemma from_line_mono: "from_line ls v \<Longrightarrow> set ls \<subseteq> set ls' \<Longrightarrow> from_line ls' v"
  by (auto simp: from_line_def)

lemma parse_lines_ok:
  assumes "fields_ok ls fs" and "set lines \<subseteq> set ls"
  shows "fields_ok ls (fst (parse_lines labels lines (fs, unknown)))"
  using assms
proof (induction lines arbitrary: fs unknown rule: length_induct)
  case (1 lines)
  show ?case
  proof (cases lines)
    case (Cons line rest)
    have rest: "set rest \<subseteq> set ls" "line \<in> set ls" using "1.prems"(2) Cons by auto
    have IH: "fields_ok ls fs' \<Longrightarrow> fields_ok ls (fst (parse_lines labels (drop n rest) (fs', u)))" for fs' u n
      using "1.IH" [rule_format, of "drop n rest" fs' u] Cons rest(1) set_drop_subset [of n rest] by auto
    note IH0 = IH [of _ 0, simplified]
    show ?thesis
    proof (cases "splitLine line")
      case None
      then show ?thesis using IH0 "1.prems"(1) Cons by simp
    next
      case (Some lv)
      obtain label v where lv: "lv = (label, v)" by fastforce
      define key where "key = canonical label labels"
      have v: "from_line ls v" using Some lv rest(2) by (auto simp: from_line_def)
      define vals where "vals = continuation 20 rest"
      have "fields_ok ls (foldl (\<lambda>fs v. record_field fs key v) fs vals)"
        using record_fields_ok [OF "1.prems"(1)] continuation_from from_line_mono rest(1)
        unfolding vals_def by blast
      then show ?thesis
        using IH IH0 "1.prems"(1) record_field_ok [OF "1.prems"(1) v, of key] Cons Some lv
        by (simp add: key_def [symmetric] continuationValues_def vals_def [symmetric] Let_def)
    qed
  qed (use "1.prems" in simp)
qed

section \<open>Contacts and nameservers\<close>

lemma redactionMarker_lower: "redactionMarker (to_lower v) = redactionMarker v"
  by (simp add: redactionMarker_def trim_space_to_lower)

lemma redactionMarker_empty [simp]: "redactionMarker [] = None"
  by (simp add: redactionMarker_def trim_space_def trim_right_by_def to_lower_def)

lemma unmark_clean [simp]: "redactionMarker (unmark v) = None"
  by (simp add: unmark_def)

lemma redaction_reason_none:
  "redaction_reason vs r = None \<longleftrightarrow> r = None \<and> (\<forall>v \<in> set vs. redactionMarker v = None)"
  by (induction vs arbitrary: r) (auto split: option.split)

lemma build_contact_clean:
  assumes "build_contact role name org email phone country = Some c"
  shows "redactionMarker (ct_Name c) = None \<and> redactionMarker (ct_Organization c) = None \<and>
    redactionMarker (ct_Email c) = None"
proof (cases "redaction_reason [name, org, email] None")
  case None
  moreover from this have "\<forall>v \<in> set [name, org, email]. redactionMarker v = None"
    unfolding redaction_reason_none by simp
  ultimately show ?thesis
    using assms by (auto simp: build_contact_def redactionMarker_lower simp del: redaction_reason.simps split: if_splits)
next
  case (Some m)
  then show ?thesis
    using assms by (auto simp: build_contact_def simp del: redaction_reason.simps split: if_splits)
qed

lemma contact_of_clean:
  "contact_of fs role nf orf ef pf cf = Some c \<Longrightarrow>
   redactionMarker (ct_Name c) = None \<and> redactionMarker (ct_Organization c) = None \<and>
   redactionMarker (ct_Email c) = None"
  unfolding contact_of_def Let_def by (rule build_contact_clean)

lemma normalizeNameservers_ok:
  assumes "\<forall>h \<in> set out. to_lower h = h \<and> CHR ''.'' \<in> set h" and "distinct out"
  shows "(\<forall>h \<in> set (normalizeNameservers out vs). to_lower h = h \<and> CHR ''.'' \<in> set h) \<and>
    distinct (normalizeNameservers out vs)"
  using assms
proof (induction out vs rule: normalizeNameservers.induct)
  case (2 out v vs)
  define h where "h = nameserver_host v"
  have lower: "to_lower h = h" by (simp add: h_def nameserver_host_def Let_def)
  show ?case
  proof (cases "h = [] \<or> \<not> contains h ''.''")
    case True
    then show ?thesis using 2(1) [OF h_def] 2(3,4) by (simp add: h_def [symmetric] Let_def)
  next
    case False
    then have "CHR ''.'' \<in> set h" by (simp add: contains_singleton)
    moreover have "distinct (appendUnique out h)" using 2(4) by (auto simp: appendUnique_def list_ex_iff equal_fold_def)
    moreover have eq: "normalizeNameservers out (v # vs) = normalizeNameservers (appendUnique out h) vs"
      using False by (simp add: h_def Let_def)
    ultimately show ?thesis unfolding eq
      by (intro 2(2) [OF h_def False]) (use 2(3) lower appendUnique_set [of out h] in blast)
  qed
qed simp

section \<open>Properties\<close>



text \<open>A redaction marker is never reported as data. No contact of a parsed response, of any role, has a
  marker as its name, organization or email: where the registry withheld a value the report has none.\<close>

theorem Parse_hides_markers:
  assumes "Some c \<in> {pa_Registrant p, pa_Admin p, pa_Tech p}" and "p = Parse parse_time host raw"
  shows "redactionMarker (ct_Name c) = None \<and> redactionMarker (ct_Organization c) = None \<and>
    redactionMarker (ct_Email c) = None"
proof (cases "raw = []")
  case True
  then show ?thesis using assms by (auto simp: Parse_def empty_parsed_def)
next
  case False
  then obtain fs where "pa_Registrant p = contact_of fs ''registrant'' FRegistrantName FRegistrantOrg FRegistrantEmail
      FRegistrantPhone FRegistrantCountry" "pa_Admin p = contact_of fs ''administrative'' FAdminName [] FAdminEmail [] []"
    "pa_Tech p = contact_of fs ''technical'' FTechName [] FTechEmail [] []"
    by (simp add: assms(2) Parse_def Let_def promote_def split_def)
  then show ?thesis using assms(1) contact_of_clean by (metis empty_iff insert_iff)
qed

text \<open>Nameservers are reported as canonical host names: in lower case, each with a dot, none twice.\<close>

theorem Parse_nameservers_canonical:
  "distinct (pa_Nameservers (Parse parse_time host raw)) \<and>
   list_all (\<lambda>h. to_lower h = h \<and> contains h ''.'') (pa_Nameservers (Parse parse_time host raw))"
proof (cases "raw = []")
  case False
  then obtain vs where "pa_Nameservers (Parse parse_time host raw) = normalizeNameservers [] vs"
    by (simp add: Parse_def Let_def promote_def split_def)
  then show ?thesis using normalizeNameservers_ok [of "[]" vs] by (simp add: list_all_iff contains_singleton)
qed (simp add: Parse_def empty_parsed_def)

end
