(* ===== verification/Report.thy ===== *)
theory Report
  imports Whois_Client Whois_Parse
begin

text \<open>
  The canonical report and the mapping of both protocols onto it: \<open>internal/normalize/report.go\<close>,
  \<open>epp.go\<close>, \<open>fromrdap.go\<close>, \<open>fromwhois.go\<close> and, for networks, \<open>fromnet.go\<close>. The types of the RDAP library appear with the members the
  code reads; a vCard is the values of its accessor methods. \<open>time.Parse\<close> is an argument.
\<close>

section \<open>The report\<close>

datatype tristate = Yes | No | Unknown

datatype protocol = ProtoNone | ProtoRDAP | ProtoWHOIS

record query =
  qu_Input :: string
  qu_RegistrableDomain :: string
  qu_ASCII :: string
  qu_TLD :: string
  qu_PublicSuffix :: string

record dates =
  da_Created :: "time option"
  da_Updated :: "time option"
  da_Expires :: "time option"
  da_Transferred :: "time option"
  da_TimezoneAssumed :: bool

record registrar =
  rr_Name :: string
  rr_IANAID :: int
  rr_URL :: string
  rr_AbuseEmail :: string
  rr_AbusePhone :: string

record nameserver =
  nv_Host :: string
  nv_IPv4 :: "string list"
  nv_IPv6 :: "string list"

record dnssec =
  ds_Signed :: bool
  ds_DSRecords :: nat

record entity =
  en_Role :: string
  en_Redacted :: bool
  en_Reason :: string
  en_Name :: string
  en_Organization :: string
  en_Email :: string
  en_Phone :: string
  en_Country :: string

record source =
  so_Protocol :: protocol
  so_Servers :: "string list"
  so_FetchedAt :: time
  so_Cache :: string
  so_ParseConfidence :: rat
  so_RawAvailable :: bool

text \<open>A warning of a report: a text of its own, or what a lower layer reported.\<close>

datatype report_note =
    Note string
  | RefusedNote guard_error
  | WhoisNote warning
  | WhoisFailed lookup_error

record domainReport =
  rp_Query :: query
  rp_Registered :: tristate
  rp_RegistryDomainID :: string
  rp_Dates :: dates
  rp_Registrar :: "registrar option"
  rp_Statuses :: "string list"
  rp_StatusMeaning :: "string \<rightharpoonup> string"
  rp_Nameservers :: "nameserver list"
  rp_DNSSEC :: "dnssec option"
  rp_Entities :: "entity list"
  rp_Source :: source
  rp_Warnings :: "report_note list"

definition no_dates :: dates where
  "no_dates = \<lparr>da_Created = None, da_Updated = None, da_Expires = None, da_Transferred = None,
     da_TimezoneAssumed = False\<rparr>"

text \<open>A report with the given members and every other at its zero value.\<close>

definition bare_report :: "query \<Rightarrow> tristate \<Rightarrow> source \<Rightarrow> domainReport" where
  "bare_report q registered src =
     \<lparr>rp_Query = q, rp_Registered = registered, rp_RegistryDomainID = [], rp_Dates = no_dates,
      rp_Registrar = None, rp_Statuses = [], rp_StatusMeaning = Map.empty, rp_Nameservers = [],
      rp_DNSSEC = None, rp_Entities = [], rp_Source = src, rp_Warnings = []\<rparr>"

section \<open>Status codes\<close>

definition eppStatusMeaning :: "(string \<times> string) list" where
  "eppStatusMeaning =
     [(''ok'',
       ''Standard status: the domain is active with no pending operations or restrictions''),
      (''active'',
       ''The domain is active''),
      (''inactive'',
       ''The domain has no nameservers delegated and will not resolve''),
      (''clientHold'',
       ''Registrar has asked the registry to not activate the domain in DNS; it will not resolve''),
      (''serverHold'',
       ''Registry is not activating the domain in DNS; it will not resolve''),
      (''clientDeleteProhibited'',
       ''Registrar has locked the domain against deletion''),
      (''serverDeleteProhibited'',
       ''Registry has locked the domain against deletion''),
      (''clientRenewProhibited'',
       ''Registrar has locked the domain against renewal''),
      (''serverRenewProhibited'',
       ''Registry has locked the domain against renewal''),
      (''clientTransferProhibited'',
       ''Registrar has locked the domain against transfer to another registrar (a normal anti-hijacking default, not a problem)''),
      (''serverTransferProhibited'',
       ''Registry has locked the domain against transfer''),
      (''clientUpdateProhibited'',
       ''Registrar has locked the domain against updates''),
      (''serverUpdateProhibited'',
       ''Registry has locked the domain against updates''),
      (''pendingCreate'',
       ''A create request is pending at the registry''),
      (''pendingDelete'',
       ''The domain is scheduled for deletion; it may be in redemption or the pending-delete window''),
      (''pendingRenew'',
       ''A renewal request is pending''),
      (''pendingRestore'',
       ''A restore request from redemption is pending''),
      (''pendingTransfer'',
       ''A transfer to another registrar is pending''),
      (''pendingUpdate'',
       ''An update request is pending''),
      (''redemption period'',
       ''The domain has been deleted and is in the redemption grace period; the previous registrant may still restore it''),
      (''renew period'',
       ''The domain is within the grace period following a renewal''),
      (''transfer period'',
       ''The domain is within the grace period following a transfer''),
      (''add period'',
       ''The domain is within the grace period following initial registration''),
      (''auto renew period'',
       ''The domain is within the grace period following an automatic renewal''),
      (''associated'',
       ''The object is associated with another object''),
      (''validated'',
       ''The registrant'' @ [CHR 0x27] @ ''s contact details have been validated'')]"

definition statusKey :: "string \<Rightarrow> string" where
  "statusKey s = map to_lower_char (filter (\<lambda>r. \<not> (r = CHR '' '' \<or> r = CHR ''_'' \<or> r = CHR ''-'')) s)"

definition normalizedStatusMeaning :: "(string \<times> string) list" where
  "normalizedStatusMeaning = map (\<lambda>(k, v). (statusKey k, v)) eppStatusMeaning"

definition StatusMeanings :: "string list \<Rightarrow> (string \<rightharpoonup> string)" where
  "StatusMeanings statuses =
     (\<lambda>s. if s \<in> set statuses then map_of normalizedStatusMeaning (statusKey s) else None)"

section \<open>From RDAP\<close>

record rdap_vcard =
  vc_Name :: string
  vc_Org :: string
  vc_Email :: string
  vc_Tel :: string
  vc_Country :: string

record rdap_remark =
  rk_Title :: string
  rk_Type :: string
  rk_Description :: "string list"

record rdap_link =
  ln_Rel :: string
  ln_Type :: string
  ln_Href :: string

record rdap_publicID =
  pi_Type :: string
  pi_Identifier :: string

datatype rdap_entity =
  RdapEntity (re_Roles: "string list") (re_VCard: "rdap_vcard option") (re_Remarks: "rdap_remark list")
    (re_PublicIDs: "rdap_publicID list") (re_Links: "rdap_link list") (re_Entities: "rdap_entity list")

record rdap_event =
  ev_Action :: string
  ev_Date :: string

record rdap_nameserver =
  rn_LDHName :: string
  rn_UnicodeName :: string
  rn_IPAddresses :: "(string list \<times> string list) option"

record rdap_secureDNS =
  sd_DelegationSigned :: "bool option"
  sd_DS :: nat

record rdap_domain =
  rd_Handle :: string
  rd_Status :: "string list"
  rd_Events :: "rdap_event list"
  rd_Nameservers :: "rdap_nameserver list"
  rd_SecureDNS :: "rdap_secureDNS option"
  rd_Entities :: "rdap_entity list"
  rd_Links :: "rdap_link list"

definition rdapRedactionMarkers :: "string list" where
  "rdapRedactionMarkers =
     [''redacted'', ''data redacted'', ''not disclosed'', ''withheld'', ''privacy'', ''gdpr masked'',
      ''statutory masking enabled'']"

fun firstNonEmpty :: "string list \<Rightarrow> string" where
  "firstNonEmpty [] = []"
| "firstNonEmpty (v # vs) = (if trim_space v \<noteq> [] then trim_space v else firstNonEmpty vs)"

definition hasRole :: "string list \<Rightarrow> string \<Rightarrow> bool" where
  "hasRole roles want = list_ex (\<lambda>r. equal_fold (trim_space r) want) roles"

definition primaryRole :: "string list \<Rightarrow> string" where
  "primaryRole roles =
     (case roles of
        [] \<Rightarrow> []
      | r # _ \<Rightarrow>
          (case List.find (hasRole roles)
                  [''registrant'', ''administrative'', ''technical'', ''abuse'', ''registrar'', ''reseller'', ''billing''] of
             Some p \<Rightarrow> p
           | None \<Rightarrow> to_lower r))"

fun ianaIDFrom :: "rdap_publicID list \<Rightarrow> int" where
  "ianaIDFrom [] = 0"
| "ianaIDFrom (p # ps) =
     (case (if contains (to_lower (pi_Type p)) ''iana'' then atoi (trim_space (pi_Identifier p)) else None) of
        Some n \<Rightarrow> n
      | None \<Rightarrow> ianaIDFrom ps)"

definition marked :: "string \<Rightarrow> bool" where
  "marked v = list_ex (contains (to_lower v)) rdapRedactionMarkers"

definition remark_text :: "rdap_remark \<Rightarrow> string" where
  "remark_text r = rk_Title r @ '' '' @ join (rk_Description r) '' '' @ '' '' @ rk_Type r"

definition detectRedaction :: "entity \<Rightarrow> rdap_remark list \<Rightarrow> string option" where
  "detectRedaction ent remarks =
     (case List.find (\<lambda>r. marked (remark_text r)) remarks of
        Some r \<Rightarrow> Some (firstNonEmpty [rk_Title r, ''withheld by the registry''])
      | None \<Rightarrow>
          if list_ex marked [en_Name ent, en_Organization ent, en_Email ent]
          then Some ''withheld by the registry'' else None)"

definition rdap_contact :: "rdap_entity \<Rightarrow> entity" where
  "rdap_contact e =
     (let ent = \<lparr>en_Role = primaryRole (re_Roles e), en_Redacted = False, en_Reason = [], en_Name = [],
            en_Organization = [], en_Email = [], en_Phone = [], en_Country = []\<rparr>;
          ent = (case re_VCard e of
                   None \<Rightarrow> ent
                 | Some v \<Rightarrow> ent\<lparr>en_Name := vc_Name v, en_Organization := vc_Org v, en_Email := vc_Email v,
                                en_Phone := vc_Tel v, en_Country := vc_Country v\<rparr>)
      in case detectRedaction ent (re_Remarks e) of
           None \<Rightarrow> ent
         | Some reason \<Rightarrow> ent\<lparr>en_Redacted := True, en_Reason := reason, en_Name := [], en_Organization := [],
                              en_Email := [], en_Phone := []\<rparr>)"

text \<open>The abuse contact: the last nested entity with the role and a card.\<close>

fun abuse_contact :: "rdap_entity list \<Rightarrow> string \<times> string \<Rightarrow> string \<times> string" where
  "abuse_contact [] acc = acc"
| "abuse_contact (sub # subs) acc =
     abuse_contact subs
       (case (if hasRole (re_Roles sub) ''abuse'' then re_VCard sub else None) of
          Some v \<Rightarrow> (vc_Email v, vc_Tel v)
        | None \<Rightarrow> acc)"

definition registrar_of :: "rdap_entity \<Rightarrow> entity \<Rightarrow> registrar" where
  "registrar_of e ent =
     (let name = firstNonEmpty [en_Organization ent, en_Name ent];
          name = (case re_VCard e of Some v \<Rightarrow> if name = [] then vc_Name v else name | None \<Rightarrow> name);
          abuse = abuse_contact (re_Entities e) ([], [])
      in \<lparr>rr_Name = name, rr_IANAID = ianaIDFrom (re_PublicIDs e),
          rr_URL = (case List.find (\<lambda>l. equal_fold (ln_Rel l) ''about'' \<and> has_prefix (ln_Href l) ''http'') (re_Links e) of
                      Some l \<Rightarrow> ln_Href l | None \<Rightarrow> []),
          rr_AbuseEmail = fst abuse, rr_AbusePhone = snd abuse\<rparr>)"

definition entityFromRDAP :: "rdap_entity \<Rightarrow> (entity \<times> registrar option) option" where
  "entityFromRDAP e =
     (if primaryRole (re_Roles e) = [] then None
      else (let ent = rdap_contact e
            in Some (ent, if en_Role ent = ''registrar'' then Some (registrar_of e ent) else None)))"

definition rdapTimeLayouts :: "(string \<times> bool) list" where
  "rdapTimeLayouts =
     [(''2006-01-02T15:04:05Z07:00'', True), (''2006-01-02T15:04:05Z0700'', True),
      (''2006-01-02T15:04:05'', False), (''2006-01-02 15:04:05'', False), (''2006-01-02'', False)]"

definition parseRDAPTime :: "(string \<Rightarrow> string \<Rightarrow> time option) \<Rightarrow> string \<Rightarrow> (time \<times> bool) option" where
  "parseRDAPTime parse_time s =
     (let s = trim_space s in if s = [] then None else try_layouts parse_time rdapTimeLayouts s)"

definition set_date :: "string \<Rightarrow> time \<Rightarrow> dates \<Rightarrow> dates" where
  "set_date action t d =
     (let a = to_lower (trim_space action)
      in if a = ''registration'' then d\<lparr>da_Created := Some t\<rparr>
         else if a = ''expiration'' then d\<lparr>da_Expires := Some t\<rparr>
         else if a = ''last changed'' then d\<lparr>da_Updated := Some t\<rparr>
         else if a = ''transfer'' then d\<lparr>da_Transferred := Some t\<rparr>
         else d)"

fun datesFromEvents ::
    "(string \<Rightarrow> string \<Rightarrow> time option) \<Rightarrow> rdap_event list \<Rightarrow> dates \<times> report_note list \<Rightarrow> dates \<times> report_note list" where
  "datesFromEvents parse_time [] acc = acc"
| "datesFromEvents parse_time (ev # evs) (out, warnings) =
     (case parseRDAPTime parse_time (ev_Date ev) of
        None \<Rightarrow>
          datesFromEvents parse_time evs
            (out, if ev_Date ev = [] then warnings
                  else warnings @ [Note (''unparseable '' @ ev_Action ev @ '' date from registry: '' @ ev_Date ev)])
      | Some (t, assumedTZ) \<Rightarrow>
          datesFromEvents parse_time evs
            (set_date (ev_Action ev) t (if assumedTZ then out\<lparr>da_TimezoneAssumed := True\<rparr> else out), warnings))"

definition nameserver_of :: "rdap_nameserver \<Rightarrow> nameserver option" where
  "nameserver_of ns =
     (let host = to_lower (firstNonEmpty [rn_LDHName ns, rn_UnicodeName ns])
      in if host = [] then None
         else Some (case rn_IPAddresses ns of
                      None \<Rightarrow> \<lparr>nv_Host = host, nv_IPv4 = [], nv_IPv6 = []\<rparr>
                    | Some (v4, v6) \<Rightarrow> \<lparr>nv_Host = host, nv_IPv4 = v4, nv_IPv6 = v6\<rparr>))"

definition FromRDAP ::
    "(string \<Rightarrow> string \<Rightarrow> time option) \<Rightarrow> query \<Rightarrow> rdap_domain option \<Rightarrow> string list \<Rightarrow> time \<Rightarrow> string \<Rightarrow> domainReport" where
  "FromRDAP parse_time q d servers fetchedAt cacheState =
     (let src = \<lparr>so_Protocol = ProtoRDAP, so_Servers = servers, so_FetchedAt = fetchedAt, so_Cache = cacheState,
            so_ParseConfidence = 1, so_RawAvailable = True\<rparr>
      in case d of
           None \<Rightarrow> bare_report q Unknown src
         | Some d \<Rightarrow>
             (let dw = datesFromEvents parse_time (rd_Events d) (no_dates, []);
                  ents = List.map_filter entityFromRDAP (rd_Entities d)
              in (bare_report q Yes src)
                   \<lparr>rp_RegistryDomainID := rd_Handle d, rp_Statuses := rd_Status d,
                    rp_StatusMeaning := StatusMeanings (rd_Status d),
                    rp_Dates := fst dw, rp_Warnings := snd dw,
                    rp_Nameservers := List.map_filter nameserver_of (rd_Nameservers d),
                    rp_DNSSEC := map_option (\<lambda>s. \<lparr>ds_Signed = (sd_DelegationSigned s = Some True),
                                                  ds_DSRecords = sd_DS s\<rparr>) (rd_SecureDNS d),
                    rp_Registrar := (case List.map_filter snd ents of [] \<Rightarrow> None | r # _ \<Rightarrow> Some r),
                    rp_Entities := map fst ents\<rparr>))"

section \<open>From WHOIS\<close>

definition entity_of :: "contact \<Rightarrow> entity" where
  "entity_of c = \<lparr>en_Role = ct_Role c, en_Redacted = ct_Redacted c, en_Reason = ct_Reason c, en_Name = ct_Name c,
     en_Organization = ct_Organization c, en_Email = ct_Email c, en_Phone = ct_Phone c, en_Country = ct_Country c\<rparr>"

definition whois_registrar :: "parsed \<Rightarrow> registrar option" where
  "whois_registrar p =
     (if pa_RegistrarName p \<noteq> [] \<or> pa_RegistrarIANAID p \<noteq> 0 \<or> pa_AbuseEmail p \<noteq> []
      then Some \<lparr>rr_Name = pa_RegistrarName p, rr_IANAID = pa_RegistrarIANAID p, rr_URL = pa_RegistrarURL p,
                 rr_AbuseEmail = pa_AbuseEmail p, rr_AbusePhone = pa_AbusePhone p\<rparr>
      else None)"

definition whois_notes :: "parsed \<Rightarrow> report_note list" where
  "whois_notes p =
     (if pa_Confidence p < 1 / 2 then
        [Note ''WHOIS response parsed with low confidence; prefer the raw text via whois_raw for anything load-bearing'']
      else []) @
     (if pa_TimezoneAssumed p then [Note ''at least one date carried no timezone and was read as UTC''] else [])"

definition FromWHOIS ::
    "query \<Rightarrow> parsed option \<Rightarrow> tristate \<Rightarrow> string list \<Rightarrow> time \<Rightarrow> string \<Rightarrow> bool \<Rightarrow> domainReport" where
  "FromWHOIS q p registered servers fetchedAt cacheState rawAvailable =
     (let src = \<lparr>so_Protocol = ProtoWHOIS, so_Servers = servers, so_FetchedAt = fetchedAt, so_Cache = cacheState,
            so_ParseConfidence = 0, so_RawAvailable = rawAvailable\<rparr>
      in case p of
           None \<Rightarrow> bare_report q Unknown src
         | Some p \<Rightarrow>
             (bare_report q registered (src\<lparr>so_ParseConfidence := pa_Confidence p\<rparr>))
               \<lparr>rp_RegistryDomainID := pa_RegistryDomainID p, rp_Statuses := pa_Statuses p,
                rp_StatusMeaning := StatusMeanings (pa_Statuses p),
                rp_Dates := \<lparr>da_Created = pa_Created p, da_Updated = pa_Updated p, da_Expires = pa_Expires p,
                             da_Transferred = pa_Transferred p, da_TimezoneAssumed = pa_TimezoneAssumed p\<rparr>,
                rp_Nameservers := map (\<lambda>h. \<lparr>nv_Host = h, nv_IPv4 = [], nv_IPv6 = []\<rparr>) (pa_Nameservers p),
                rp_DNSSEC := (if pa_DNSSECStated p then Some \<lparr>ds_Signed = pa_DNSSECSigned p, ds_DSRecords = 0\<rparr> else None),
                rp_Registrar := whois_registrar p,
                rp_Entities := map entity_of (List.map_filter id [pa_Registrant p, pa_Admin p, pa_Tech p]),
                rp_Warnings := whois_notes p\<rparr>)"

section \<open>Networks\<close>

record netQuery =
  nq_Input :: string
  nq_Normalized :: string

record netReport =
  np_Query :: netQuery
  np_Kind :: string
  np_Handle :: string
  np_Name :: string
  np_StartAddress :: string
  np_EndAddress :: string
  np_ASNRange :: string
  np_IPVersion :: string
  np_Type :: string
  np_Country :: string
  np_Statuses :: "string list"
  np_ParentHandle :: string
  np_Dates :: dates
  np_Entities :: "entity list"
  np_Source :: source
  np_Warnings :: "report_note list"

record rdap_network =
  nw_Handle :: string
  nw_Name :: string
  nw_StartAddress :: string
  nw_EndAddress :: string
  nw_IPVersion :: string
  nw_Type :: string
  nw_Country :: string
  nw_Status :: "string list"
  nw_ParentHandle :: string
  nw_Events :: "rdap_event list"
  nw_Entities :: "rdap_entity list"

record rdap_autnum =
  an_Handle :: string
  an_Name :: string
  an_Type :: string
  an_Country :: string
  an_Status :: "string list"
  an_Start :: "nat option"
  an_End :: "nat option"
  an_Events :: "rdap_event list"
  an_Entities :: "rdap_entity list"

definition entitiesFrom :: "rdap_entity list \<Rightarrow> entity list" where
  "entitiesFrom es = map fst (List.map_filter entityFromRDAP es)"

definition formatASNRange :: "nat \<Rightarrow> nat \<Rightarrow> string" where
  "formatASNRange start end' =
     (if start = end' then format_uint start else format_uint start @ ''-'' @ format_uint end')"

text \<open>A report with the given members and every other at its zero value.\<close>

definition bare_net :: "netQuery \<Rightarrow> string \<Rightarrow> string list \<Rightarrow> time \<Rightarrow> string \<Rightarrow> netReport" where
  "bare_net q kind servers fetchedAt cacheState =
     \<lparr>np_Query = q, np_Kind = kind, np_Handle = [], np_Name = [], np_StartAddress = [], np_EndAddress = [],
      np_ASNRange = [], np_IPVersion = [], np_Type = [], np_Country = [], np_Statuses = [], np_ParentHandle = [],
      np_Dates = no_dates, np_Entities = [],
      np_Source = \<lparr>so_Protocol = ProtoRDAP, so_Servers = servers, so_FetchedAt = fetchedAt, so_Cache = cacheState,
        so_ParseConfidence = 1, so_RawAvailable = True\<rparr>,
      np_Warnings = []\<rparr>"

definition FromRDAPIPNetwork ::
    "(string \<Rightarrow> string \<Rightarrow> time option) \<Rightarrow> netQuery \<Rightarrow> string \<Rightarrow> rdap_network option \<Rightarrow> string list \<Rightarrow> time \<Rightarrow>
     string \<Rightarrow> netReport" where
  "FromRDAPIPNetwork parse_time q kind n servers fetchedAt cacheState =
     (let rep = bare_net q kind servers fetchedAt cacheState
      in case n of
           None \<Rightarrow> rep\<lparr>np_Warnings := [Note ''the RIR returned no network object'']\<rparr>
         | Some n \<Rightarrow>
             (let dw = datesFromEvents parse_time (nw_Events n) (no_dates, [])
              in rep\<lparr>np_Handle := nw_Handle n, np_Name := nw_Name n, np_StartAddress := nw_StartAddress n,
                     np_EndAddress := nw_EndAddress n, np_IPVersion := nw_IPVersion n, np_Type := nw_Type n,
                     np_Country := to_upper (nw_Country n), np_Statuses := nw_Status n,
                     np_ParentHandle := nw_ParentHandle n, np_Dates := fst dw, np_Warnings := snd dw,
                     np_Entities := entitiesFrom (nw_Entities n)\<rparr>))"

definition FromRDAPAutnum ::
    "(string \<Rightarrow> string \<Rightarrow> time option) \<Rightarrow> netQuery \<Rightarrow> rdap_autnum option \<Rightarrow> string list \<Rightarrow> time \<Rightarrow> string \<Rightarrow>
     netReport" where
  "FromRDAPAutnum parse_time q a servers fetchedAt cacheState =
     (let rep = bare_net q ''asn'' servers fetchedAt cacheState
      in case a of
           None \<Rightarrow> rep\<lparr>np_Warnings := [Note ''the RIR returned no autnum object'']\<rparr>
         | Some a \<Rightarrow>
             (let dw = datesFromEvents parse_time (an_Events a) (no_dates, [])
              in rep\<lparr>np_Handle := an_Handle a, np_Name := an_Name a, np_Type := an_Type a,
                     np_Country := to_upper (an_Country a), np_Statuses := an_Status a,
                     np_ASNRange := (case (an_Start a, an_End a) of
                                       (Some lo, Some hi) \<Rightarrow> formatASNRange lo hi | _ \<Rightarrow> []),
                     np_Dates := fst dw, np_Warnings := snd dw,
                     np_Entities := entitiesFrom (an_Entities a)\<rparr>))"

section \<open>Withheld contacts\<close>

definition well_redacted :: "entity \<Rightarrow> bool" where
  "well_redacted ent =
     (if en_Redacted ent
      then en_Name ent = [] \<and> en_Organization ent = [] \<and> en_Email ent = [] \<and> en_Phone ent = [] \<and> en_Reason ent \<noteq> []
      else \<not> marked (en_Name ent) \<and> \<not> marked (en_Organization ent) \<and> \<not> marked (en_Email ent) \<and> en_Reason ent = [])"

lemma withheld_text: "trim_space ''withheld by the registry'' \<noteq> []"
  by code_simp

lemma detectRedaction_reason: "detectRedaction ent remarks = Some reason \<Longrightarrow> reason \<noteq> []"
  by (auto simp: detectRedaction_def withheld_text split: option.splits if_splits)

lemma detectRedaction_none:
  "detectRedaction ent remarks = None \<Longrightarrow>
     \<not> marked (en_Name ent) \<and> \<not> marked (en_Organization ent) \<and> \<not> marked (en_Email ent)"
  by (auto simp: detectRedaction_def split: option.splits if_splits)

lemma rdap_contact_redacted: "well_redacted (rdap_contact e)"
  using detectRedaction_reason detectRedaction_none
  by (auto simp: rdap_contact_def well_redacted_def Let_def split: option.splits; fastforce)

lemma entityFromRDAP_contact: "entityFromRDAP e = Some p \<Longrightarrow> fst p = rdap_contact e"
  by (auto simp: entityFromRDAP_def Let_def split: if_splits)

lemma entitiesFrom_redacted: "list_all well_redacted (entitiesFrom es)"
  using rdap_contact_redacted entityFromRDAP_contact
  by (induction es) (auto simp: entitiesFrom_def List.map_filter_def)

lemma FromRDAP_entities:
  "rp_Entities (FromRDAP pt q d servers t c) = (case d of None \<Rightarrow> [] | Some d \<Rightarrow> entitiesFrom (rd_Entities d))"
  by (simp add: FromRDAP_def Let_def bare_report_def entitiesFrom_def split: option.split)

section \<open>Dates\<close>

text \<open>The reference: the dates of the events with an action, in order.\<close>

definition dated :: "(string \<Rightarrow> string \<Rightarrow> time option) \<Rightarrow> string \<Rightarrow> rdap_event list \<Rightarrow> time list" where
  "dated parse_time action evs =
     List.map_filter (\<lambda>ev. if to_lower (trim_space (ev_Action ev)) = action
                           then map_option fst (parseRDAPTime parse_time (ev_Date ev)) else None) evs"

definition last_of :: "'a option \<Rightarrow> 'a list \<Rightarrow> 'a option" where
  "last_of d xs = (if xs = [] then d else Some (last xs))"

lemma last_of_simps [simp]: "last_of d [] = d" "last_of d (x # xs) = last_of (Some x) xs"
  by (simp_all add: last_of_def)

lemma dated_simps [simp]:
  "dated pt a [] = []"
  "dated pt a (ev # evs) =
     (if to_lower (trim_space (ev_Action ev)) = a
      then (case parseRDAPTime pt (ev_Date ev) of None \<Rightarrow> dated pt a evs | Some p \<Rightarrow> fst p # dated pt a evs)
      else dated pt a evs)"
  by (simp_all add: dated_def map_filter_simps split: option.split)

definition unreadable :: "(string \<Rightarrow> string \<Rightarrow> time option) \<Rightarrow> rdap_event \<Rightarrow> bool" where
  "unreadable parse_time ev \<longleftrightarrow> ev_Date ev \<noteq> [] \<and> parseRDAPTime parse_time (ev_Date ev) = None"

lemma datesFromEvents_dates:
  defines "r \<equiv> (\<lambda>pt evs d w. datesFromEvents pt evs (d, w))"
  shows "da_Created (fst (r pt evs d w)) = last_of (da_Created d) (dated pt ''registration'' evs)"
    and "da_Expires (fst (r pt evs d w)) = last_of (da_Expires d) (dated pt ''expiration'' evs)"
    and "da_Updated (fst (r pt evs d w)) = last_of (da_Updated d) (dated pt ''last changed'' evs)"
    and "da_Transferred (fst (r pt evs d w)) = last_of (da_Transferred d) (dated pt ''transfer'' evs)"
    and "da_TimezoneAssumed (fst (r pt evs d w)) \<longleftrightarrow>
           da_TimezoneAssumed d \<or> list_ex (\<lambda>ev. map_option snd (parseRDAPTime pt (ev_Date ev)) = Some True) evs"
    and "length (snd (r pt evs d w)) = length w + length (filter (unreadable pt) evs)"
  unfolding r_def
  by (induction evs arbitrary: d w)
    (auto simp: set_date_def unreadable_def Let_def split: option.splits prod.splits)

section \<open>Properties\<close>


text \<open>The registrar of the same report keeps the placeholder: with the entity's own fields emptied, its name
  is read from the card again.\<close>

lemma redacted_registrar_keeps_name:
  "(case entityFromRDAP (RdapEntity [''registrar''] (Some \<lparr>vc_Name = ''REDACTED FOR PRIVACY'', vc_Org = [],
       vc_Email = [], vc_Tel = [], vc_Country = []\<rparr>) [] [] [] []) of
      Some (ent, Some r) \<Rightarrow> en_Redacted ent \<and> en_Name ent = [] \<and> rr_Name r = ''REDACTED FOR PRIVACY''
    | _ \<Rightarrow> False)"
  by code_simp

text \<open>The dates are exactly those of the events. Each date of the report is that of the last event with its
  action whose date can be read, and is absent when there is none; a time zone is reported as
  assumed exactly when one of the dates read has none; and every date that cannot be read gives one
  warning.\<close>

theorem datesFromEvents_exact:
  "(case datesFromEvents pt evs (no_dates, []) of (ds, ws) \<Rightarrow>
      da_Created ds = last_of None (dated pt ''registration'' evs) \<and>
      da_Expires ds = last_of None (dated pt ''expiration'' evs) \<and>
      da_Updated ds = last_of None (dated pt ''last changed'' evs) \<and>
      da_Transferred ds = last_of None (dated pt ''transfer'' evs) \<and>
      da_TimezoneAssumed ds = list_ex (\<lambda>ev. map_option snd (parseRDAPTime pt (ev_Date ev)) = Some True) evs \<and>
      length ws = length (filter (unreadable pt) evs))"
  using datesFromEvents_dates [of pt evs no_dates "[]"]
  by (simp add: no_dates_def split_beta)

text \<open>Both spellings of a status get the same expansion.\<close>

lemma StatusMeanings_spelling:
  "statusKey s = statusKey s' \<Longrightarrow> s \<in> set ss \<Longrightarrow> s' \<in> set ss \<Longrightarrow> StatusMeanings ss s = StatusMeanings ss s'"
  by (simp add: StatusMeanings_def)

end
