(* ===== verification/Rdap_Client.thy ===== *)
theory Rdap_Client
  imports Rdap_Registry Report
begin

text \<open>
  Queries to RDAP services: \<open>internal/rdapx/client.go\<close>, the lookup half of \<open>netquery.go\<close>, and the policy
  of the HTTP client (\<open>guard.go\<close>). The client of \<open>github.com/openrdap/rdap\<close> is a parameter: the reply it
  gives to the \<open>i\<close>-th request of a lookup, with the members the code reads. \<open>url.Parse\<close> is an argument.
\<close>

section \<open>The HTTP client's policy\<close>

definition maxRedirects :: nat where "maxRedirects = 2"
definition MaxBodyBytes :: nat where "MaxBodyBytes = 5242880"

datatype redirect_refusal = TooManyRedirects | InsecureRedirect

text \<open>\<open>via\<close> is the number of requests made so far.\<close>

definition CheckRedirect :: "bool \<Rightarrow> nat \<Rightarrow> string \<Rightarrow> redirect_refusal option" where
  "CheckRedirect allowPrivate via scheme =
     (if maxRedirects \<le> via then Some TooManyRedirects
      else if scheme \<noteq> ''https'' \<and> \<not> allowPrivate then Some InsecureRedirect
      else None)"

definition limited_body :: "string \<Rightarrow> string" where
  "limited_body body = take MaxBodyBytes body"

section \<open>Replies\<close>

datatype clientErrorKind = ObjectDoesNotExist | BootstrapNoMatch | BootstrapNotSupported | OtherClientError nat

text \<open>An error of the library: its \<open>ClientError\<close>, by pointer or by value, or any other.\<close>

datatype rdap_error =
    ClientErrorPtr clientErrorKind string
  | ClientErrorVal clientErrorKind string
  | PlainError string

fun clientErrorType :: "rdap_error \<Rightarrow> clientErrorKind option" where
  "clientErrorType (ClientErrorPtr t _) = Some t"
| "clientErrorType (ClientErrorVal t _) = Some t"
| "clientErrorType (PlainError _) = None"

fun error_text :: "rdap_error \<Rightarrow> string" where
  "error_text (ClientErrorPtr _ s) = s"
| "error_text (ClientErrorVal _ s) = s"
| "error_text (PlainError s) = s"

datatype rdap_object =
    NoObject
  | DomainObject "rdap_domain option"
  | NetworkObject "rdap_network option"
  | AutnumObject "rdap_autnum option"
  | OtherObject string

fun type_name :: "rdap_object \<Rightarrow> string" where
  "type_name NoObject = ''<nil>''"
| "type_name (DomainObject _) = ''*rdap.Domain''"
| "type_name (NetworkObject _) = ''*rdap.IPNetwork''"
| "type_name (AutnumObject _) = ''*rdap.Autnum''"
| "type_name (OtherObject s) = s"

text \<open>One HTTP exchange: the final URL, the body, the status and \<open>Retry-After\<close> header if a response came.\<close>

record http_exchange =
  hx_URL :: string
  hx_Body :: "string option"
  hx_Response :: "(int \<times> string) option"

record rdap_response =
  rv_Object :: rdap_object
  rv_HTTP :: "http_exchange option list"

type_synonym rdap_reply = "rdap_response option \<times> rdap_error option"

datatype rdap_request =
    DomainRequest string string
  | RawRequest string
  | AutnumRequest nat string
  | NetRequest "ipnet option" string
  | AddressRequest "ip option" string

definition last_exchange :: "rdap_response option \<Rightarrow> http_exchange option" where
  "last_exchange resp =
     (case resp of None \<Rightarrow> None | Some r \<Rightarrow> if rv_HTTP r = [] then None else last (rv_HTTP r))"

definition statusOf :: "rdap_response option \<Rightarrow> int" where
  "statusOf resp =
     (case last_exchange resp of
        None \<Rightarrow> 0
      | Some x \<Rightarrow> (case hx_Response x of None \<Rightarrow> 0 | Some (code, _) \<Rightarrow> code))"

definition retryAfterOf :: "rdap_response option \<Rightarrow> string" where
  "retryAfterOf resp =
     (case last_exchange resp of
        None \<Rightarrow> []
      | Some x \<Rightarrow> (case hx_Response x of None \<Rightarrow> [] | Some (_, h) \<Rightarrow> h))"

definition truncate_text :: "string \<Rightarrow> nat \<Rightarrow> string" where
  "truncate_text s n = (if length s \<le> n then s else take n s @ [CHR 0xE2, CHR 0x80, CHR 0xA6])"

definition DefaultUserAgent :: "string \<Rightarrow> string" where
  "DefaultUserAgent version =
     (let v = trim_space version; v = (if v = [] then ''dev'' else v)
      in ''whois-mcp/'' @ v @ '' (+https://github.com/qjam/whois-mcp)'')"

section \<open>One guarded request\<close>

text \<open>What a lookup reads from outside, by the number of the endpoint: the library's reply, the guard's
  draws, and the context's error after the request.\<close>

record rdap_env =
  xv_reply :: "nat \<Rightarrow> rdap_request \<Rightarrow> rdap_reply"
  xv_draws :: "nat \<Rightarrow> guard_draws"
  xv_ctxErr :: "nat \<Rightarrow> string option"

datatype do_error = Upstream rdap_error | Refused guard_error

definition guarded_do ::
    "'b platform \<Rightarrow> rdap_env \<Rightarrow> 'b guard option \<Rightarrow> nat \<Rightarrow> string \<Rightarrow> rdap_request \<Rightarrow>
     rdap_response option \<times> do_error option \<times> 'b guard option" where
  "guarded_do P env g i base req =
     (case xv_reply env i req of (resp, err) \<Rightarrow>
        (let out = \<lparr>oc_Status = statusOf resp, oc_RetryAfter = retryAfterOf resp,
                    oc_Err = map_option error_text err\<rparr>
         in case GuardDo (pf_rate P) (pf_parseTime P) (pf_int64n P) g base ((xv_draws env i)\<lparr>gr_outcome := out\<rparr>) of
              (gerr, called, g') \<Rightarrow>
                if called then (resp, map_option Upstream err, g')
                else (None, map_option Refused gerr, g')))"

fun isPolicyRejection :: "do_error \<Rightarrow> bool" where
  "isPolicyRejection (Refused (GuardOpen _)) = True"
| "isPolicyRejection (Refused (GuardLimited (ErrThrottled _ _))) = True"
| "isPolicyRejection (Refused (GuardLimited (ErrWouldExceedDeadline _ _))) = True"
| "isPolicyRejection _ = False"

fun do_kind :: "do_error \<Rightarrow> clientErrorKind option" where
  "do_kind (Upstream e) = clientErrorType e"
| "do_kind (Refused _) = None"

fun do_note :: "nat \<Rightarrow> do_error \<Rightarrow> report_note" where
  "do_note n (Upstream e) = Note (truncate_text (error_text e) n)"
| "do_note n (Refused e) = RefusedNote e"

section \<open>The domain query\<close>

record rdap_result =
  rq_Domain :: "rdap_domain option"
  rq_Raw :: string
  rq_Servers :: "string list"
  rq_Registered :: tristate
  rq_Warnings :: "report_note list"

definition empty_rdap :: rdap_result where
  "empty_rdap = \<lparr>rq_Domain = None, rq_Raw = [], rq_Servers = [], rq_Registered = Unknown, rq_Warnings = []\<rparr>"

definition rdap_warn :: "rdap_result \<Rightarrow> report_note \<Rightarrow> rdap_result" where
  "rdap_warn res n = res\<lparr>rq_Warnings := rq_Warnings res @ [n]\<rparr>"

text \<open>The body and the URL of the last exchange replace the ones recorded.\<close>

definition capture :: "rdap_response option \<Rightarrow> string \<times> string list \<Rightarrow> string \<times> string list" where
  "capture resp rs =
     (case last_exchange resp of
        None \<Rightarrow> rs
      | Some x \<Rightarrow>
          (case hx_Body x of Some b \<Rightarrow> b | None \<Rightarrow> fst rs,
           if hx_URL x \<noteq> [] then butlast (snd rs) @ [hx_URL x] else snd rs))"

definition captured :: "rdap_response option \<Rightarrow> rdap_result \<Rightarrow> rdap_result" where
  "captured resp res =
     (case capture resp (rq_Raw res, rq_Servers res) of
        (raw, servers) \<Rightarrow> res\<lparr>rq_Raw := raw, rq_Servers := servers\<rparr>)"

record rdap_url =
  ru_Scheme :: string
  ru_Host :: string
  ru_String :: string
  ru_Redacted :: string

fun registrar_links :: "rdap_link list \<Rightarrow> string" where
  "registrar_links [] = []"
| "registrar_links (l # ls) =
     (if equal_fold (trim_space (ln_Rel l)) ''related'' \<and> contains (to_lower (ln_Type l)) ''rdap+json''
         \<and> trim_space (ln_Href l) \<noteq> []
      then trim_space (ln_Href l) else registrar_links ls)"

definition registrarLink :: "rdap_domain option \<Rightarrow> string" where
  "registrarLink d = (case d of None \<Rightarrow> [] | Some d \<Rightarrow> registrar_links (rd_Links d))"

text \<open>The merge: the registrar's entities when it has more of them, its other members in the gaps.\<close>

definition fill_gaps :: "rdap_domain \<Rightarrow> rdap_domain \<Rightarrow> rdap_domain" where
  "fill_gaps d other =
     d\<lparr>rd_Entities := (if length (rd_Entities d) < length (rd_Entities other) then rd_Entities other else rd_Entities d),
       rd_Nameservers := (if rd_Nameservers d = [] then rd_Nameservers other else rd_Nameservers d),
       rd_Events := (if rd_Events d = [] then rd_Events other else rd_Events d),
       rd_Status := (if rd_Status d = [] then rd_Status other else rd_Status d),
       rd_SecureDNS := (if rd_SecureDNS d = None then rd_SecureDNS other else rd_SecureDNS d)\<rparr>"

definition followRegistrarHop ::
    "(string \<Rightarrow> rdap_url option) \<Rightarrow> rdap_env \<Rightarrow> nat \<Rightarrow> rdap_result \<Rightarrow> rdap_result" where
  "followRegistrarHop parse_url env i res =
     (let href = registrarLink (rq_Domain res)
      in if href = [] then res
         else case parse_url href of
           None \<Rightarrow> rdap_warn res (Note (''registrar referral URL is unparseable: '' @ truncate_text href 120))
         | Some u \<Rightarrow>
             if \<not> equal_fold (ru_Scheme u) ''https'' then
               rdap_warn res (Note (''refusing non-https registrar referral to '' @ ru_Redacted u))
             else
               (case xv_reply env i (RawRequest (ru_String u)) of
                  (_, Some err) \<Rightarrow>
                    rdap_warn res (Note (''registrar referral to '' @ ru_Host u @ '' failed ('' @
                      truncate_text (error_text err) 160 @ ''); reporting registry data only''))
                | (resp, None) \<Rightarrow>
                    (case map_option rv_Object resp of
                       Some (DomainObject (Some other)) \<Rightarrow>
                         res\<lparr>rq_Servers := rq_Servers res @ [ru_String u],
                             rq_Domain := map_option (\<lambda>d. fill_gaps d other) (rq_Domain res)\<rparr>
                     | _ \<Rightarrow>
                         rdap_warn res (Note (''registrar referral to '' @ ru_Host u @
                           '' did not return a domain object; reporting registry data only'')))))"

datatype last_failure = NoServiceFailure | OtherFailure
datatype rdap_failure = ErrNoRDAPService | ContextError string | NilResponse

definition conclude :: "last_failure option \<Rightarrow> rdap_result \<Rightarrow> rdap_failure + rdap_result" where
  "conclude lastErr res =
     (case lastErr of
        Some NoServiceFailure \<Rightarrow> Inl ErrNoRDAPService
      | Some OtherFailure \<Rightarrow>
          Inr (rdap_warn (res\<lparr>rq_Registered := Unknown\<rparr>)
                 (Note ''registration status could not be determined from RDAP; treat as unknown''))
      | None \<Rightarrow> Inr (res\<lparr>rq_Registered := Unknown\<rparr>))"

text \<open>The loop over the base URLs; \<open>follow\<close> is whether the registrar's record is wanted.\<close>

fun query_bases ::
    "'b platform \<Rightarrow> (string \<Rightarrow> rdap_url option) \<Rightarrow> rdap_env \<Rightarrow> string \<Rightarrow> bool \<Rightarrow> string list \<Rightarrow> nat \<Rightarrow>
     last_failure option \<Rightarrow> rdap_result \<Rightarrow> 'b guard option \<Rightarrow> (rdap_failure + rdap_result) \<times> 'b guard option" where
  "query_bases P parse_url env ascii follow [] i lastErr res g = (conclude lastErr res, g)"
| "query_bases P parse_url env ascii follow (base # bases) i lastErr res g =
     (case parse_url base of
        None \<Rightarrow> query_bases P parse_url env ascii follow bases (i + 1) (Some OtherFailure) res g
      | Some _ \<Rightarrow>
          (let res = res\<lparr>rq_Servers := rq_Servers res @ [base]\<rparr>
           in case guarded_do P env g i base (DomainRequest ascii base) of
                (resp, None, g) \<Rightarrow>
                  (let res = captured resp res
                   in case resp of
                        None \<Rightarrow> (Inl NilResponse, g)
                      | Some r \<Rightarrow>
                          (case rv_Object r of
                             DomainObject d \<Rightarrow>
                               (let res = res\<lparr>rq_Domain := d, rq_Registered := Yes\<rparr>
                                in (Inr (if follow then followRegistrarHop parse_url env i res else res), g))
                           | obj \<Rightarrow>
                               query_bases P parse_url env ascii follow bases (i + 1) (Some OtherFailure)
                                 (rdap_warn res (Note (''unexpected RDAP object type '' @ type_name obj @ '' from '' @ base))) g))
              | (resp, Some e, g) \<Rightarrow>
                  if isPolicyRejection e then
                    query_bases P parse_url env ascii follow bases (i + 1) (Some OtherFailure)
                      (rdap_warn res (do_note 200 e)) g
                  else
                    (let res = captured resp res
                     in if do_kind e = Some ObjectDoesNotExist then (Inr (res\<lparr>rq_Registered := No\<rparr>), g)
                        else if do_kind e = Some BootstrapNoMatch \<or> do_kind e = Some BootstrapNotSupported then
                          query_bases P parse_url env ascii follow bases (i + 1) (Some NoServiceFailure)
                            (rdap_warn res (case e of Upstream e \<Rightarrow> Note (error_text e) | Refused e \<Rightarrow> RefusedNote e)) g
                        else
                          (case xv_ctxErr env i of
                             Some cerr \<Rightarrow> (Inl (ContextError cerr), g)
                           | None \<Rightarrow>
                               query_bases P parse_url env ascii follow bases (i + 1) (Some OtherFailure)
                                 (rdap_warn res (do_note 300 e)) g))))"

record rdap_client =
  cl_reg :: registry
  cl_followRegistrar :: bool

definition QueryWithOptions ::
    "'b platform \<Rightarrow> (string \<Rightarrow> rdap_url option) \<Rightarrow> rdap_env \<Rightarrow> rdap_client \<Rightarrow> query \<Rightarrow> bool \<Rightarrow> 'b guard option \<Rightarrow>
     (rdap_failure + rdap_result) \<times> 'b guard option" where
  "QueryWithOptions P parse_url env c q skipRegistrarReferral g =
     (case Lookup (cl_reg c) (qu_TLD q) of
        None \<Rightarrow> (Inl ErrNoRDAPService, g)
      | Some bases \<Rightarrow>
          query_bases P parse_url env (qu_ASCII q) (cl_followRegistrar c \<and> \<not> skipRegistrarReferral) bases 0 None
            empty_rdap g)"

section \<open>The network query\<close>

record netResult =
  nx_Resource :: resource
  nx_Object :: rdap_object
  nx_Raw :: string
  nx_Servers :: "string list"
  nx_Warnings :: "report_note list"

datatype net_failure =
    NoNetRegistry
  | ErrNoRDAPForResource resource string
  | NetContextError string
  | LookingUp resource
  | NetNilResponse

definition requestFor :: "resource \<Rightarrow> string \<Rightarrow> rdap_request" where
  "requestFor res base =
     (case rc_Kind res of
        KindASN \<Rightarrow> AutnumRequest (rc_ASN res) base
      | KindPrefix \<Rightarrow> NetRequest (rc_Prefix res) base
      | KindIP \<Rightarrow> AddressRequest (rc_IP res) base)"

fun resource_bases ::
    "'b platform \<Rightarrow> (string \<Rightarrow> rdap_url option) \<Rightarrow> rdap_env \<Rightarrow> string list \<Rightarrow> nat \<Rightarrow> netResult \<Rightarrow>
     'b guard option \<Rightarrow> (net_failure + netResult) \<times> 'b guard option" where
  "resource_bases P parse_url env [] i out g = (Inl (LookingUp (nx_Resource out)), g)"
| "resource_bases P parse_url env (base # bases) i out g =
     (case parse_url base of
        None \<Rightarrow> resource_bases P parse_url env bases (i + 1) out g
      | Some _ \<Rightarrow>
          (let out = out\<lparr>nx_Servers := nx_Servers out @ [base]\<rparr>
           in case guarded_do P env g i base (requestFor (nx_Resource out) base) of
                (resp, None, g) \<Rightarrow>
                  (case resp of
                     None \<Rightarrow> (Inl NetNilResponse, g)
                   | Some r \<Rightarrow>
                       (case capture resp (nx_Raw out, nx_Servers out) of (raw, servers) \<Rightarrow>
                          (Inr (out\<lparr>nx_Raw := raw, nx_Servers := servers, nx_Object := rv_Object r\<rparr>), g)))
              | (resp, Some e, g) \<Rightarrow>
                  if isPolicyRejection e then
                    resource_bases P parse_url env bases (i + 1)
                      (out\<lparr>nx_Warnings := nx_Warnings out @ [do_note 200 e]\<rparr>) g
                  else
                    (case xv_ctxErr env i of
                       Some cerr \<Rightarrow> (Inl (NetContextError cerr), g)
                     | None \<Rightarrow>
                         (case capture resp (nx_Raw out, nx_Servers out) of (raw, servers) \<Rightarrow>
                            resource_bases P parse_url env bases (i + 1)
                              (out\<lparr>nx_Raw := raw, nx_Servers := servers,
                                   nx_Warnings := nx_Warnings out @ [do_note 300 e]\<rparr>) g))))"

definition QueryResource ::
    "'b platform \<Rightarrow> (string \<Rightarrow> rdap_url option) \<Rightarrow> rdap_env \<Rightarrow> netRegistry option \<Rightarrow> resource \<Rightarrow> 'b guard option \<Rightarrow>
     (net_failure + netResult) \<times> 'b guard option" where
  "QueryResource P parse_url env netReg res g =
     (case netReg of
        None \<Rightarrow> (Inl NoNetRegistry, g)
      | Some reg \<Rightarrow>
          (let reason = (if rc_Kind res \<noteq> KindASN then BlockReason (rc_IP res) else [])
           in if reason \<noteq> [] then (Inl (ErrNoRDAPForResource res reason), g)
              else case (if rc_Kind res = KindASN then LookupASN reg (rc_ASN res) else LookupIP reg (rc_IP res)) of
                None \<Rightarrow> (Inl (ErrNoRDAPForResource res []), g)
              | Some bases \<Rightarrow>
                  resource_bases P parse_url env bases 0
                    \<lparr>nx_Resource = res, nx_Object = NoObject, nx_Raw = [], nx_Servers = [], nx_Warnings = []\<rparr> g))"

section \<open>What an answer rests on\<close>

text \<open>The reply of endpoint \<open>i\<close> to the question for a domain.\<close>

definition says_absent :: "rdap_env \<Rightarrow> string \<Rightarrow> nat \<Rightarrow> string \<Rightarrow> bool" where
  "says_absent env ascii i base \<longleftrightarrow>
     (case snd (xv_reply env i (DomainRequest ascii base)) of
        Some e \<Rightarrow> clientErrorType e = Some ObjectDoesNotExist | None \<Rightarrow> False)"

definition says_present :: "rdap_env \<Rightarrow> string \<Rightarrow> nat \<Rightarrow> string \<Rightarrow> bool" where
  "says_present env ascii i base \<longleftrightarrow>
     (case xv_reply env i (DomainRequest ascii base) of
        (Some r, None) \<Rightarrow> (case rv_Object r of DomainObject _ \<Rightarrow> True | _ \<Rightarrow> False) | _ \<Rightarrow> False)"

lemma GuardDo_called:
  "GuardDo R pt rnd g host dr = (e, True, g') \<Longrightarrow> e = map_option GuardUpstream (oc_Err (gr_outcome dr))"
  by (auto simp: GuardDo_def guarded_call_def Let_def split: option.splits prod.splits sum.splits)

lemma GuardDo_refused: "GuardDo R pt rnd g host dr = (e, False, g') \<Longrightarrow> e \<noteq> None"
  by (auto simp: GuardDo_def guarded_call_def Let_def split: option.splits prod.splits sum.splits)

lemma guarded_do_ok:
  "guarded_do P env g i base req = (resp, None, g') \<Longrightarrow> xv_reply env i req = (resp, None)"
  using GuardDo_refused by (fastforce simp: guarded_do_def Let_def split: prod.splits if_splits)

lemma guarded_do_err:
  assumes "guarded_do P env g i base req = (resp, Some e, g')" and "do_kind e = Some k"
  shows "\<exists>x. xv_reply env i req = (resp, Some x) \<and> clientErrorType x = Some k"
  using assms by (auto simp: guarded_do_def Let_def split: prod.splits if_splits)

lemma captured_simps [simp]:
  "rq_Registered (captured resp res) = rq_Registered res" "rq_Domain (captured resp res) = rq_Domain res"
  "rq_Registered (rdap_warn res n) = rq_Registered res" "rq_Domain (rdap_warn res n) = rq_Domain res"
  by (simp_all add: captured_def rdap_warn_def split: prod.split)

lemma followRegistrarHop_registered [simp]:
  "rq_Registered (followRegistrarHop pu env i res) = rq_Registered res"
  by (simp add: followRegistrarHop_def rdap_warn_def Let_def split: option.split prod.split rdap_object.split)

lemma conclude_unknown: "conclude le res = Inr res' \<Longrightarrow> rq_Registered res' = Unknown \<and> rq_Domain res' = rq_Domain res"
  by (auto simp: conclude_def rdap_warn_def split: option.splits last_failure.splits)

text \<open>What the loop over the endpoints from number \<open>i\<close> can end with.\<close>

definition answer_ok :: "rdap_env \<Rightarrow> string \<Rightarrow> string list \<Rightarrow> nat \<Rightarrow> rdap_result \<Rightarrow> bool" where
  "answer_ok env ascii bases i res \<longleftrightarrow>
     (case rq_Registered res of
        No \<Rightarrow> rq_Domain res = None \<and> (\<exists>j < length bases. says_absent env ascii (i + j) (bases ! j))
      | Yes \<Rightarrow> (\<exists>j < length bases. says_present env ascii (i + j) (bases ! j))
      | Unknown \<Rightarrow> rq_Domain res = None)"

lemma answer_ok_Cons: "answer_ok env ascii bases (i + 1) res \<Longrightarrow> answer_ok env ascii (base # bases) i res"
  by (auto simp: answer_ok_def less_Suc_eq_0_disj split: tristate.splits)

lemma answer_ok_absent:
  "rq_Domain res = None \<Longrightarrow> says_absent env ascii i base \<Longrightarrow>
     answer_ok env ascii (base # bases) i (res\<lparr>rq_Registered := No\<rparr>)"
  by (auto simp: answer_ok_def intro: exI [of _ 0])

lemma answer_ok_present:
  "rq_Registered res = Yes \<Longrightarrow> says_present env ascii i base \<Longrightarrow> answer_ok env ascii (base # bases) i res"
  by (auto simp: answer_ok_def intro: exI [of _ 0])

lemma query_bases_ok:
  assumes "query_bases P pu env ascii follow bases i le res g = (Inr res', g')"
    and "rq_Domain res = None"
  shows "answer_ok env ascii bases i res'"
  using assms
proof (induction bases arbitrary: i le res g)
  case Nil
  then show ?case using conclude_unknown by (fastforce simp: answer_ok_def)
next
  case (Cons base bases)
  have IH: "answer_ok env ascii (base # bases) i res'"
    if "query_bases P pu env ascii follow bases (Suc i) le r h = (Inr res', g')" "rq_Domain r = None" for le r h
    using Cons.IH [OF that] answer_ok_Cons by simp
  show ?case
  proof (cases "pu base")
    case None
    then show ?thesis using Cons.prems IH by simp
  next
    case (Some u)
    obtain resp e h where gd: "guarded_do P env g i base (DomainRequest ascii base) = (resp, e, h)"
      by (metis prod_cases3)
    show ?thesis
    proof (cases e)
      case None
      with gd have reply: "xv_reply env i (DomainRequest ascii base) = (resp, None)"
        using guarded_do_ok by metis
      with Cons.prems gd Some None show ?thesis
        by (auto simp: Let_def says_present_def split: option.splits rdap_object.splits
            dest: IH intro: answer_ok_present)
    next
      case (Some e')
      have "says_absent env ascii i base" if "do_kind e' = Some ObjectDoesNotExist"
        using guarded_do_err [OF gd [unfolded Some] that] by (auto simp: says_absent_def)
      with Cons.prems gd Some \<open>pu base = Some u\<close> show ?thesis
        by (auto simp: Let_def split: option.splits if_splits dest: IH intro: answer_ok_absent)
    qed
  qed
qed

section \<open>Endpoints in order\<close>

text \<open>A reply that settles nothing: an error other than the explicit one, or an object that is no domain.\<close>

definition indefinite :: "rdap_env \<Rightarrow> string \<Rightarrow> nat \<Rightarrow> string \<Rightarrow> bool" where
  "indefinite env ascii i base \<longleftrightarrow>
     xv_ctxErr env i = None \<and>
     (case xv_reply env i (DomainRequest ascii base) of
        (_, Some e) \<Rightarrow> clientErrorType e \<noteq> Some ObjectDoesNotExist
      | (Some r, None) \<Rightarrow> (case rv_Object r of DomainObject _ \<Rightarrow> False | _ \<Rightarrow> True)
      | (None, None) \<Rightarrow> False)"

lemma unguarded_do:
  "guarded_do P env None i base req =
     (fst (xv_reply env i req), map_option Upstream (snd (xv_reply env i req)), None)"
  by (simp add: guarded_do_def GuardDo_def Let_def split: prod.split)

lemma query_bases_skip:
  assumes "indefinite env ascii i base"
  shows "\<exists>le' res'.
    query_bases P pu env ascii follow (base # bases) i le res None =
      query_bases P pu env ascii follow bases (i + 1) le' res' None"
proof (cases "pu base")
  case None
  then show ?thesis by auto
next
  case (Some u)
  obtain resp err where reply: "xv_reply env i (DomainRequest ascii base) = (resp, err)" by fastforce
  with assms show ?thesis
    by (cases err; cases resp)
      (auto simp: indefinite_def unguarded_do Some Let_def split: rdap_object.splits intro!: exI)
qed

lemma query_bases_settled:
  assumes "pu base = Some u"
  shows "says_absent env ascii i base \<Longrightarrow>
      \<exists>r. query_bases P pu env ascii follow (base # bases) i le res None = (Inr r, None) \<and> rq_Registered r = No"
    and "says_present env ascii i base \<Longrightarrow>
      \<exists>r. query_bases P pu env ascii follow (base # bases) i le res None = (Inr r, None) \<and> rq_Registered r = Yes"
  using assms
  by (auto simp: says_absent_def says_present_def unguarded_do Let_def
      split: option.splits prod.splits rdap_object.splits)

lemma query_bases_first:
  assumes "j < length bases" and "\<forall>k < j. indefinite env ascii (i + k) (bases ! k)" and "pu (bases ! j) = Some u"
  shows "says_absent env ascii (i + j) (bases ! j) \<Longrightarrow>
      \<exists>r. query_bases P pu env ascii follow bases i le res None = (Inr r, None) \<and> rq_Registered r = No"
    and "says_present env ascii (i + j) (bases ! j) \<Longrightarrow>
      \<exists>r. query_bases P pu env ascii follow bases i le res None = (Inr r, None) \<and> rq_Registered r = Yes"
proof -
  have "\<exists>le' res'. query_bases P pu env ascii follow bases i le res None =
      query_bases P pu env ascii follow (drop j bases) (i + j) le' res' None"
    using assms(1,2)
  proof (induction j)
    case (Suc j)
    then obtain le' res' where IH: "query_bases P pu env ascii follow bases i le res None =
        query_bases P pu env ascii follow (drop j bases) (i + j) le' res' None" by auto
    have "drop j bases = bases ! j # drop (Suc j) bases" using Suc.prems(1) by (simp add: Cons_nth_drop_Suc)
    moreover have "indefinite env ascii (i + j) (bases ! j)" using Suc.prems(2) by simp
    ultimately show ?case
      using query_bases_skip [of env ascii "i + j" "bases ! j" P pu follow "drop (Suc j) bases" le' res'] IH by auto
  qed auto
  moreover have "drop j bases = bases ! j # drop (Suc j) bases" using assms(1) by (simp add: Cons_nth_drop_Suc)
  ultimately show
    "says_absent env ascii (i + j) (bases ! j) \<Longrightarrow>
      \<exists>r. query_bases P pu env ascii follow bases i le res None = (Inr r, None) \<and> rq_Registered r = No"
    "says_present env ascii (i + j) (bases ! j) \<Longrightarrow>
      \<exists>r. query_bases P pu env ascii follow bases i le res None = (Inr r, None) \<and> rq_Registered r = Yes"
    using query_bases_settled [where pu = pu and base = "bases ! j", OF assms(3)] by metis+
qed

section \<open>The registrar's record\<close>

definition kept :: "'a list \<Rightarrow> 'a list \<Rightarrow> bool" where
  "kept old new \<longleftrightarrow> old = [] \<or> new = old"

definition supplements :: "rdap_domain \<Rightarrow> rdap_domain \<Rightarrow> bool" where
  "supplements d d' \<longleftrightarrow>
     rd_Handle d' = rd_Handle d \<and> rd_Links d' = rd_Links d \<and>
     kept (rd_Nameservers d) (rd_Nameservers d') \<and> kept (rd_Events d) (rd_Events d') \<and>
     kept (rd_Status d) (rd_Status d') \<and> (rd_SecureDNS d = None \<or> rd_SecureDNS d' = rd_SecureDNS d) \<and>
     (rd_Entities d' = rd_Entities d \<or> length (rd_Entities d) < length (rd_Entities d'))"

lemma fill_gaps_supplements: "supplements d (fill_gaps d other)"
  by (simp add: supplements_def kept_def fill_gaps_def)

lemma supplements_refl: "supplements d d"
  by (simp add: supplements_def kept_def)

lemma QueryWithOptions_answer:
  assumes "QueryWithOptions P pu env c q skip g = (Inr res, g')"
  shows "\<exists>bases. Lookup (cl_reg c) (qu_TLD q) = Some bases \<and> answer_ok env (qu_ASCII q) bases 0 res"
proof -
  from assms obtain bases where l: "Lookup (cl_reg c) (qu_TLD q) = Some bases"
    by (auto simp: QueryWithOptions_def split: option.splits)
  with assms have "query_bases P pu env (qu_ASCII q) (cl_followRegistrar c \<and> \<not> skip) bases 0 None empty_rdap g =
      (Inr res, g')" by (simp add: QueryWithOptions_def)
  from query_bases_ok [OF this] l show ?thesis by (auto simp: empty_rdap_def)
qed

lemma RDAP_evidence:
  assumes "QueryWithOptions P pu env c q skip g = (Inr res, g')" and "rq_Registered res = No"
  shows "\<exists>j base. says_absent env (qu_ASCII q) j base"
  using QueryWithOptions_answer [OF assms(1)] assms(2) by (auto simp: answer_ok_def)

section \<open>A concrete service\<close>

definition demo_rdap_domain :: rdap_domain where
  "demo_rdap_domain = \<lparr>rd_Handle = ''H1'', rd_Status = [''active''], rd_Events = [], rd_Nameservers = [],
     rd_SecureDNS = None, rd_Entities = [],
     rd_Links = [\<lparr>ln_Rel = ''related'', ln_Type = ''application/rdap+json'', ln_Href = ''http://r/''\<rparr>]\<rparr>"

definition demo_parse :: "string \<Rightarrow> rdap_url option" where
  "demo_parse s = Some \<lparr>ru_Scheme = (if has_prefix s ''https:'' then ''https'' else ''http''), ru_Host = ''r'',
     ru_String = s, ru_Redacted = s\<rparr>"

text \<open>The first endpoint is out of order, the second denies the domain.\<close>

definition demo_rdap :: rdap_env where
  "demo_rdap = \<lparr>xv_reply = (\<lambda>i req. if i = 0 then (None, Some (PlainError ''boom''))
        else (None, Some (ClientErrorPtr ObjectDoesNotExist ''404''))),
     xv_draws = (\<lambda>_. demo_draws), xv_ctxErr = (\<lambda>_. None)\<rparr>"

definition demo_client :: rdap_client where
  "demo_client = \<lparr>cl_reg = empty_registry\<lparr>rg_byTLD := [''io'' \<mapsto> [''https://a/'', ''https://b/'']]\<rparr>,
     cl_followRegistrar = True\<rparr>"

definition demo_q :: query where
  "demo_q = \<lparr>qu_Input = ''x.io'', qu_RegistrableDomain = ''x.io'', qu_ASCII = ''x.io'', qu_TLD = ''io'',
     qu_PublicSuffix = ''io''\<rparr>"

lemma demo_bases: "Lookup (cl_reg demo_client) (qu_TLD demo_q) = Some [''https://a/'', ''https://b/'']"
  by code_simp

lemma demo_absent: "says_absent demo_rdap ''x.io'' 1 ''https://b/''" "indefinite demo_rdap ''x.io'' 0 ''https://a/''"
  by code_simp+

lemma demo_ask:
  "fst (QueryWithOptions demo_platform demo_parse demo_rdap demo_client demo_q False None) =
     Inr \<lparr>rq_Domain = None, rq_Raw = [], rq_Servers = [''https://a/'', ''https://b/''], rq_Registered = No,
          rq_Warnings = [Note ''boom'']\<rparr>"
  by (simp add: QueryWithOptions_def demo_bases unguarded_do demo_parse_def demo_rdap_def Let_def empty_rdap_def
      captured_def capture_def last_exchange_def rdap_warn_def truncate_text_def)

section \<open>Properties\<close>

text \<open>Nothing about a domain is guessed. When a query over RDAP reports a domain as not registered,
  an endpoint that the bootstrap registry lists for its TLD has answered with the explicit error
  for an object that does not exist; when it reports it as registered, one has answered without an
  error and with a domain object. Refusals by the own policy, transport failures and replies of another
  shape never become either, whatever the guard, the endpoints and the registrar do, and only a
  registered domain comes with a record.\<close>

theorem RDAP_answers_are_evidence:
  assumes "QueryWithOptions P pu env c q skip g = (Inr res, g')"
  shows "\<exists>bases. Lookup (cl_reg c) (qu_TLD q) = Some bases \<and>
    (case rq_Registered res of
       No \<Rightarrow> rq_Domain res = None \<and> (\<exists>j < length bases. says_absent env (qu_ASCII q) j (bases ! j))
     | Yes \<Rightarrow> (\<exists>j < length bases. says_present env (qu_ASCII q) j (bases ! j))
     | Unknown \<Rightarrow> rq_Domain res = None)"
  using QueryWithOptions_answer [OF assms] by (auto simp: answer_ok_def split: tristate.splits)

theorem RDAP_answers_are_evidence_witness:
  "\<exists>j < 2. says_absent demo_rdap ''x.io'' j ([''https://a/'', ''https://b/''] ! j)"
proof -
  obtain res g' where q: "QueryWithOptions demo_platform demo_parse demo_rdap demo_client demo_q False None = (Inr res, g')"
    and no: "rq_Registered res = No"
    using demo_ask by (metis (no_types, lifting) prod.collapse rdap_result.select_convs(4))
  show ?thesis using RDAP_answers_are_evidence [OF q] no demo_bases
    by (simp add: demo_q_def numeral_2_eq_2)
qed





text \<open>An address that is not public reaches no upstream: the lookup of an address or prefix that the address rule
  blocks ends with an error, before any request and with the guard untouched.\<close>

theorem blocked_address_not_queried:
  assumes "rc_Kind res \<noteq> KindASN" and "BlockReason (rc_IP res) \<noteq> []"
  shows "QueryResource P pu env (Some reg) res g = (Inl (ErrNoRDAPForResource res (BlockReason (rc_IP res))), g)"
  using assms by (simp add: QueryResource_def)

end
