(* ===== verification/Query_Name.thy ===== *)
theory Query_Name
  imports Report
begin

text \<open>
  From a caller's input to the domain that is asked for: \<open>internal/resolve/normalize.go\<close>. The IDNA profile of
  \<open>golang.org/x/net/idna\<close> and the Public Suffix List of \<open>golang.org/x/net/publicsuffix\<close> are parameters.
\<close>

section \<open>The host of an input\<close>

definition after_authority :: "string \<Rightarrow> string" where
  "after_authority s = (case last_index s (CHR ''@'') of Some i \<Rightarrow> drop (i + 1) s | None \<Rightarrow> s)"

definition before_colon :: "string \<Rightarrow> string" where
  "before_colon s = (case index_of s '':'' of Some i \<Rightarrow> take i s | None \<Rightarrow> s)"

definition blanks :: string where
  "blanks = [CHR '' '', CHR 0x09, CHR 0x0A]"

definition tail_marks :: string where
  "tail_marks = ''/?#''"

definition hostFromInput :: "string \<Rightarrow> string" where
  "hostFromInput s =
     (let s = (case index_of s ''://'' of Some i \<Rightarrow> drop (i + 3) s | None \<Rightarrow> s);
          s = (case index_any s tail_marks of Some i \<Rightarrow> take i s | None \<Rightarrow> s);
          s = trim_suffix (before_colon (after_authority s)) ''.''
      in if contains_any s blanks then [] else s)"

definition lastLabel :: "string \<Rightarrow> string" where
  "lastLabel s = (case last_index s (CHR ''.'') of Some i \<Rightarrow> drop (i + 1) s | None \<Rightarrow> s)"

section \<open>The query\<close>

record name_lib =
  nm_toASCII :: "string \<Rightarrow> string option"
  nm_toUnicode :: "string \<Rightarrow> string option"
  nm_publicSuffix :: "string \<Rightarrow> string"
  nm_etldPlusOne :: "string \<Rightarrow> string option"

datatype domain_error = EmptyName | NoHost string | BadName string | NoPublicSuffix string | IsPublicSuffix string

definition or_else :: "'a option \<Rightarrow> 'a \<Rightarrow> 'a" where
  "or_else x d = (case x of Some y \<Rightarrow> y | None \<Rightarrow> d)"

definition NormalizeQuery :: "name_lib \<Rightarrow> string \<Rightarrow> domain_error + query" where
  "NormalizeQuery N input =
     (let raw = trim_space input; host = hostFromInput raw
      in if raw = [] then Inl EmptyName
         else if host = [] then Inl (NoHost input)
         else case nm_toASCII N host of
           None \<Rightarrow> Inl (BadName input)
         | Some ascii \<Rightarrow>
             if \<not> contains ascii ''.'' then Inl (NoPublicSuffix input)
             else (let suffix = nm_publicSuffix N ascii
                   in case nm_etldPlusOne N ascii of
                        None \<Rightarrow> Inl (IsPublicSuffix input)
                      | Some registrable \<Rightarrow>
                          Inr \<lparr>qu_Input = input,
                               qu_RegistrableDomain = or_else (nm_toUnicode N registrable) registrable,
                               qu_ASCII = registrable, qu_TLD = lastLabel suffix,
                               qu_PublicSuffix = or_else (nm_toUnicode N suffix) suffix\<rparr>))"

section \<open>Lemmas\<close>

lemma index_any_append:
  "(\<forall>c \<in> set s. c \<notin> set cs) \<Longrightarrow> c \<in> set cs \<Longrightarrow> index_any (s @ c # t) cs = Some (length s)"
  by (induction s) auto

lemma index_any_none: "(\<forall>c \<in> set s. c \<notin> set cs) \<Longrightarrow> index_any s cs = None"
  by (induction s) auto

lemma last_index_none: "c \<notin> set s \<Longrightarrow> last_index s c = None"
  by (induction s) auto

lemma last_index_append: "c \<notin> set t \<Longrightarrow> last_index (s @ c # t) c = Some (length s)"
  by (induction s) (auto simp: last_index_none)

lemma index_of_colon: "c \<notin> set s \<Longrightarrow> index_of (s @ c # t) (c # p) = (if has_prefix t p then Some (length s) else
    map_option (\<lambda>i. i + length s + 1) (index_of t (c # p)))"
  by (induction s) (auto simp: has_prefix_def option.map_comp comp_def)

lemma trim_space_pad:
  assumes "\<forall>c \<in> set a. is_space c" and "\<forall>c \<in> set b. is_space c" and "\<forall>c \<in> set s. \<not> is_space c"
  shows "trim_space (a @ s @ b) = s"
  using assms
  by (auto simp: trim_space_def trim_right_by_def dropWhile_append dropWhile_none dest: set_dropWhileD)

lemma index_of_set: "index_of s p = Some i \<Longrightarrow> set p \<subseteq> set s"
proof (induction s arbitrary: i)
  case (Cons c s)
  show ?case
  proof (cases "has_prefix (c # s) p")
    case True
    then have "p = take (length p) (c # s)" by (simp add: has_prefix_def)
    then show ?thesis by (metis set_take_subset)
  next
    case False
    with Cons show ?thesis by (auto split: option.splits)
  qed
qed (simp split: if_splits)

lemma tail_marks_set: "CHR ''@'' \<notin> set tail_marks" "CHR '':'' \<notin> set tail_marks" "CHR ''/'' \<in> set tail_marks"
  by (simp_all add: tail_marks_def)

text \<open>An input around a plain name: white space, a scheme, user information, a port, and a path, query or fragment.\<close>

definition plain_name :: "string \<Rightarrow> bool" where
  "plain_name h \<longleftrightarrow> h \<noteq> [] \<and> last h \<noteq> CHR ''.'' \<and> (\<forall>c \<in> set h. \<not> is_space c \<and> c \<notin> set tail_marks \<and> c \<noteq> CHR ''@'' \<and> c \<noteq> CHR '':'')"

definition decorate :: "string option \<Rightarrow> string option \<Rightarrow> string \<Rightarrow> string option \<Rightarrow> string \<Rightarrow> string" where
  "decorate scheme user h port tail =
     (case scheme of None \<Rightarrow> [] | Some s \<Rightarrow> s @ ''://'') @ (case user of None \<Rightarrow> [] | Some u \<Rightarrow> u @ ''@'') @ h @
     (case port of None \<Rightarrow> [] | Some p \<Rightarrow> '':'' @ p) @ tail"

definition decoration_ok :: "string option \<Rightarrow> string option \<Rightarrow> string \<Rightarrow> string option \<Rightarrow> string \<Rightarrow> bool" where
  "decoration_ok scheme user h port tail \<longleftrightarrow>
     (case scheme of None \<Rightarrow> \<not> contains (decorate scheme user h port tail) ''://'' | Some s \<Rightarrow> CHR '':'' \<notin> set s) \<and>
     (case user of None \<Rightarrow> True | Some u \<Rightarrow> \<forall>c \<in> set u. c \<notin> set tail_marks) \<and>
     (case port of None \<Rightarrow> True | Some p \<Rightarrow> \<forall>c \<in> set p. c \<notin> set tail_marks \<and> c \<noteq> CHR ''@'') \<and>
     (tail = [] \<or> hd tail \<in> set tail_marks) \<and>
     (\<forall>c \<in> set (decorate scheme user h port tail). \<not> is_space c)"

lemma plain_suffix: "plain_name h \<Longrightarrow> trim_suffix h ''.'' = h"
  by (cases h rule: rev_cases) (simp_all add: plain_name_def trim_suffix_def has_suffix_def has_prefix_def)

lemma is_space_blank: "c \<in> set blanks \<Longrightarrow> is_space c"
  by (auto simp: blanks_def is_space_def)

lemma plain_blanks: "plain_name h \<Longrightarrow> \<not> contains_any h blanks"
  using is_space_blank by (auto simp: plain_name_def contains_any_def)

lemma scheme_removed:
  "decoration_ok scheme user h port tail \<Longrightarrow>
     (case index_of (decorate scheme user h port tail) ''://'' of
        Some i \<Rightarrow> drop (i + 3) (decorate scheme user h port tail) | None \<Rightarrow> decorate scheme user h port tail) =
     decorate None user h port tail"
  by (cases scheme)
    (auto simp: decoration_ok_def contains_def decorate_def index_of_colon has_prefix_def)

lemma tail_removed:
  assumes "decoration_ok scheme user h port tail" and "plain_name h"
  shows "(case index_any (decorate None user h port tail) tail_marks of
      Some i \<Rightarrow> take i (decorate None user h port tail) | None \<Rightarrow> decorate None user h port tail) =
    decorate None user h port []"
proof -
  let ?b = "decorate None user h port []"
  have d: "decorate None user h port tail = ?b @ tail" by (simp add: decorate_def)
  have b: "\<forall>c \<in> set ?b. c \<notin> set tail_marks"
    using assms tail_marks_set
    by (auto simp: decoration_ok_def decorate_def plain_name_def split: option.splits)
  show ?thesis
  proof (cases tail)
    case Nil
    then show ?thesis using index_any_none [OF b] by simp
  next
    case (Cons c t)
    then have "c \<in> set tail_marks" using assms by (simp add: decoration_ok_def)
    then show ?thesis using index_any_append [OF b] d Cons by simp
  qed
qed

lemma user_and_port_removed:
  assumes "decoration_ok scheme user h port tail" and "plain_name h"
  shows "before_colon (after_authority (decorate None user h port [])) = h"
proof -
  let ?b = "h @ (case port of None \<Rightarrow> [] | Some p \<Rightarrow> '':'' @ p)"
  have at: "CHR ''@'' \<notin> set ?b"
    using assms by (auto simp: decoration_ok_def plain_name_def split: option.splits)
  then have "after_authority (decorate None user h port []) = ?b"
    by (cases user)
      (simp_all add: after_authority_def decorate_def last_index_none [OF at] last_index_append [OF at])
  moreover have "before_colon ?b = h"
  proof (cases port)
    case None
    have "CHR '':'' \<notin> set h" using assms(2) by (auto simp: plain_name_def)
    then have "index_of h '':'' = None" using index_of_singleton by simp
    then show ?thesis using None by (simp add: before_colon_def)
  next
    case (Some p)
    have "CHR '':'' \<notin> set h" using assms(2) by (auto simp: plain_name_def)
    then show ?thesis using Some by (simp add: before_colon_def index_of_colon has_prefix_def)
  qed
  ultimately show ?thesis by simp
qed

lemma hostFromInput_decorate:
  assumes "decoration_ok scheme user h port tail" and "plain_name h"
  shows "hostFromInput (decorate scheme user h port tail) = h"
  using scheme_removed [OF assms(1)] tail_removed [OF assms] user_and_port_removed [OF assms]
    plain_suffix [OF assms(2)] plain_blanks [OF assms(2)]
  by (simp add: hostFromInput_def Let_def)

lemma plain_decoration:
  assumes "plain_name h"
  shows "decoration_ok None None h None []"
proof -
  have "CHR ''/'' \<notin> set h" using assms tail_marks_set(3) by (auto simp: plain_name_def)
  then have "index_of h ''://'' = None"
    by (cases "index_of h ''://''") (auto dest: index_of_set)
  moreover have "\<forall>c \<in> set h. \<not> is_space c" using assms by (simp add: plain_name_def)
  ultimately show ?thesis by (simp add: decoration_ok_def decorate_def contains_def)
qed

section \<open>Properties\<close>

text \<open>The decorations of an input do not matter. Whatever white space, scheme, user information, port, path,
  query and fragment surround a plain name, the outcome of the normalization is that of the name alone,
  success or failure, except for the echo of the input.\<close>

theorem decorations_do_not_matter:
  assumes "decoration_ok scheme user h port tail" and "plain_name h"
    and "list_all is_space a" and "list_all is_space b"
  shows "(case NormalizeQuery N (a @ decorate scheme user h port tail @ b) of
      Inr q \<Rightarrow> NormalizeQuery N h = Inr (q\<lparr>qu_Input := h\<rparr>)
    | Inl e \<Rightarrow> (\<exists>e'. NormalizeQuery N h = Inl e'))"
proof -
  let ?d = "decorate scheme user h port tail"
  have "trim_space (a @ ?d @ b) = ?d"
    using assms by (intro trim_space_pad) (auto simp: decoration_ok_def list_all_iff)
  moreover have "trim_space h = h" using assms(2) by (intro trim_space_id) (auto simp: plain_name_def)
  moreover have "h \<noteq> []" "?d \<noteq> []" using assms(2) by (auto simp: plain_name_def decorate_def)
  moreover have "hostFromInput h = h"
    using hostFromInput_decorate [OF plain_decoration [OF assms(2)] assms(2)] by (simp add: decorate_def)
  ultimately show ?thesis using hostFromInput_decorate [OF assms(1,2)]
    by (auto simp: NormalizeQuery_def Let_def split: option.splits if_splits sum.splits)
qed

theorem decorations_do_not_matter_witness:
  "(case NormalizeQuery \<lparr>nm_toASCII = Some, nm_toUnicode = Some, nm_publicSuffix = (\<lambda>_. ''io''), nm_etldPlusOne = Some\<rparr>
       '' https://u:p@x.io:443/a?b '' of Inr q \<Rightarrow> qu_ASCII q = ''x.io'' | Inl _ \<Rightarrow> False)"
proof -
  let ?N = "\<lparr>nm_toASCII = Some, nm_toUnicode = Some, nm_publicSuffix = (\<lambda>_. ''io''), nm_etldPlusOne = Some\<rparr>"
  have ok: "decoration_ok (Some ''https'') (Some ''u:p'') ''x.io'' (Some ''443'') ''/a?b''" "plain_name ''x.io''"
    "list_all is_space '' ''" by code_simp+
  have d: "decorate (Some ''https'') (Some ''u:p'') ''x.io'' (Some ''443'') ''/a?b'' = ''https://u:p@x.io:443/a?b''"
    by code_simp
  have h: "NormalizeQuery ?N ''x.io'' = Inr \<lparr>qu_Input = ''x.io'', qu_RegistrableDomain = ''x.io'',
      qu_ASCII = ''x.io'', qu_TLD = ''io'', qu_PublicSuffix = ''io''\<rparr>" by code_simp
  show ?thesis using decorations_do_not_matter [OF ok ok(3), of ?N] d h
    by (auto split: sum.splits dest: arg_cong [where f = qu_ASCII])
qed

text \<open>Without a scheme, a URL inside the query of an input takes the place of the host.\<close>

lemma nested_url_replaces_host: "hostFromInput ''example.com/?next=https://other.org'' = ''other.org''"
  by code_simp

end
