(* ===== verification/Resolver.thy ===== *)
theory Resolver
  imports Rdap_Client Query_Name
begin

text \<open>
  The resolver: \<open>internal/resolve/ttl.go\<close>, \<open>resolver.go\<close>, \<open>raw.go\<close> and \<open>netlookup.go\<close>. Its state is the shared guard
  and the shared cache; the clients it calls are the members of \<open>upstreams\<close>, instantiated below with the models
  of the RDAP and WHOIS clients. \<open>encoding/json\<close> is a parameter, the codec of the cached values.
\<close>

section \<open>Lifetimes\<close>

record ttlPolicy =
  tt_Registered :: duration
  tt_Unregistered :: duration
  tt_Unknown :: duration
  tt_Raw :: duration
  tt_Bootstrap :: duration

definition DefaultTTLPolicy :: ttlPolicy where
  "DefaultTTLPolicy = \<lparr>tt_Registered = hour, tt_Unregistered = 5 * minute, tt_Unknown = minute,
     tt_Raw = 15 * minute, tt_Bootstrap = 24 * hour\<rparr>"

definition TTLFor :: "ttlPolicy \<Rightarrow> tristate \<Rightarrow> duration" where
  "TTLFor p state = (case state of Yes \<Rightarrow> tt_Registered p | No \<Rightarrow> tt_Unregistered p | tristate.Unknown \<Rightarrow> tt_Unknown p)"

definition Valid :: "ttlPolicy \<Rightarrow> bool" where
  "Valid p \<longleftrightarrow> 0 < tt_Registered p \<and> 0 < tt_Unregistered p \<and> 0 < tt_Unknown p \<and> 0 < tt_Raw p \<and> 0 < tt_Bootstrap p"

definition Ordered :: "ttlPolicy \<Rightarrow> bool" where
  "Ordered p \<longleftrightarrow> tt_Unregistered p \<le> tt_Registered p \<and> tt_Unknown p \<le> tt_Unregistered p"

definition TTLRaw :: duration where "TTLRaw = 15 * minute"
definition TTLNet :: duration where "TTLNet = 6 * hour"

section \<open>Types\<close>

record options =
  op_MaxAge :: duration
  op_IncludeContacts :: bool
  op_SkipRegistrarReferral :: bool

record rawResponse =
  rw_Query :: query
  rw_Protocol :: protocol
  rw_Servers :: "string list"
  rw_FetchedAt :: time
  rw_Cache :: string
  rw_Truncated :: bool
  rw_Body :: string
  rw_Warnings :: "report_note list"

text \<open>\<open>json.Marshal\<close> and \<open>json.Unmarshal\<close> on the three types that are cached.\<close>

record codec =
  js_report :: "domainReport \<Rightarrow> string option"
  js_readReport :: "string \<Rightarrow> domainReport option"
  js_raw :: "rawResponse \<Rightarrow> string option"
  js_readRaw :: "string \<Rightarrow> rawResponse option"
  js_net :: "netReport \<Rightarrow> string option"
  js_readNet :: "string \<Rightarrow> netReport option"

record libraries =
  lb_names :: name_lib
  lb_json :: codec
  lb_parseTime :: "string \<Rightarrow> string \<Rightarrow> time option"
  lb_parseIP :: "string \<Rightarrow> ip option"
  lb_parseCIDR :: "string \<Rightarrow> (ip \<times> ipnet) option"
  lb_showIP :: "ip \<Rightarrow> string"
  lb_showNet :: "ipnet \<Rightarrow> string"

record 's upstreams =
  up_rdap :: "'s \<Rightarrow> query \<Rightarrow> bool \<Rightarrow> (rdap_failure + rdap_result) \<times> 's"
  up_whois :: "('s \<Rightarrow> string memory \<Rightarrow> query \<Rightarrow> (lookup_error + lookup_result) \<times> 's \<times> string memory) option"
  up_net :: "('s \<Rightarrow> resource \<Rightarrow> (net_failure + netResult) \<times> 's) option"

record 's rstate =
  st_guard :: 's
  st_cache :: "string memory"

text \<open>The clock readings of one call: the cache's two on a read, the age check, the time of the fetch, and the
  cache's on a write.\<close>

record lookup_clock =
  lc_get :: time
  lc_evict :: time
  lc_age :: time
  lc_fetched :: time
  lc_set :: time

datatype resolver_error =
    InvalidDomain domain_error
  | InvalidResource resource_error
  | RdapFailed rdap_failure
  | WhoisError lookup_error
  | NetFailed net_failure
  | ErrNoRaw string
  | ErrNoNetRegistry
  | UnexpectedObject resource string

record resolver =
  sv_policy :: ttlPolicy

datatype policy_error = NonPositiveTTL | DisorderedTTL

definition NewResolver :: resolver where
  "NewResolver = \<lparr>sv_policy = DefaultTTLPolicy\<rparr>"

definition WithTTLPolicy :: "resolver \<Rightarrow> ttlPolicy \<Rightarrow> policy_error option \<times> resolver" where
  "WithTTLPolicy r p =
     (if \<not> Valid p then (Some NonPositiveTTL, r)
      else if \<not> Ordered p then (Some DisorderedTTL, r)
      else (None, r\<lparr>sv_policy := p\<rparr>))"

section \<open>The cache\<close>

definition cacheKey :: "string \<Rightarrow> string" where
  "cacheKey ascii = ''v1:report:'' @ ascii"

definition rawKey :: "protocol \<Rightarrow> string \<Rightarrow> string" where
  "rawKey proto ascii = (if proto = ProtoRDAP then ''v1:raw:rdap:'' else ''v1:raw:whois:'') @ ascii"

definition netKey :: "string \<Rightarrow> string" where
  "netKey resource = ''v1:net:'' @ resource"

definition rawNetKey :: "string \<Rightarrow> string" where
  "rawNetKey resource = ''v1:raw:net:'' @ resource"

definition cached_value ::
    "(string \<Rightarrow> 'a option) \<Rightarrow> ('a \<Rightarrow> time) \<Rightarrow> lookup_clock \<Rightarrow> duration \<Rightarrow> string \<Rightarrow> 's rstate \<Rightarrow> 'a option \<times> 's rstate" where
  "cached_value unmarshal fetched ck maxAge key s =
     (if maxAge \<le> 0 then (None, s)
      else case CacheGet (st_cache s) key (lc_get ck) (lc_evict ck) of
        (None, m) \<Rightarrow> (None, s\<lparr>st_cache := m\<rparr>)
      | (Some raw, m) \<Rightarrow>
          (case unmarshal raw of
             None \<Rightarrow> None
           | Some v \<Rightarrow> if time_sub (lc_age ck) (fetched v) \<le> maxAge then Some v else None,
           s\<lparr>st_cache := m\<rparr>))"

definition put_value :: "string option \<Rightarrow> duration \<Rightarrow> lookup_clock \<Rightarrow> string \<Rightarrow> 's rstate \<Rightarrow> 's rstate" where
  "put_value body ttl ck key s =
     (case body of
        None \<Rightarrow> s
      | Some raw \<Rightarrow> s\<lparr>st_cache := CacheSet (st_cache s) key raw ttl (lc_set ck)\<rparr>)"

definition store :: "libraries \<Rightarrow> resolver \<Rightarrow> lookup_clock \<Rightarrow> string \<Rightarrow> domainReport \<Rightarrow> 's rstate \<Rightarrow> 's rstate" where
  "store L r ck key rep s =
     put_value (js_report (lb_json L) rep) (TTLFor (sv_policy r) (rp_Registered rep)) ck key s"

section \<open>The lookup of a domain\<close>

fun state_of :: "availability \<Rightarrow> tristate" where
  "state_of Registered = Yes"
| "state_of Unregistered = No"
| "state_of availability.Unknown = tristate.Unknown"

definition bare_source :: "protocol \<Rightarrow> time \<Rightarrow> source" where
  "bare_source proto fetchedAt = \<lparr>so_Protocol = proto, so_Servers = [], so_FetchedAt = fetchedAt, so_Cache = ''miss'',
     so_ParseConfidence = 0, so_RawAvailable = False\<rparr>"

definition unknown_report :: "query \<Rightarrow> time \<Rightarrow> report_note list \<Rightarrow> domainReport" where
  "unknown_report q fetchedAt warnings =
     (bare_report q tristate.Unknown (bare_source ProtoWHOIS fetchedAt))\<lparr>rp_Warnings := warnings\<rparr>"

definition lastServer :: "string \<Rightarrow> string list \<Rightarrow> string" where
  "lastServer none servers = (if servers = [] then none else last servers)"

definition whois_report :: "libraries \<Rightarrow> query \<Rightarrow> time \<Rightarrow> lookup_result \<Rightarrow> domainReport" where
  "whois_report L q fetchedAt res =
     (let host = lastServer [] (rz_Servers res);
          rep = FromWHOIS q (Some (Parse (lb_parseTime L) host (rz_Raw res))) (state_of (Classify host (rz_Raw res)))
                  (rz_Servers res) fetchedAt ''miss'' (rz_Raw res \<noteq> [])
      in rep\<lparr>rp_Warnings := rp_Warnings rep @ map WhoisNote (rz_Warnings res) @
           (if rz_Truncated res
            then [Note ''WHOIS response was truncated at the size cap; fields near the end may be missing'']
            else [])\<rparr>)"

definition viaWHOIS ::
    "libraries \<Rightarrow> 's upstreams \<Rightarrow> 's rstate \<Rightarrow> query \<Rightarrow> time \<Rightarrow> string \<Rightarrow> domainReport \<times> 's rstate" where
  "viaWHOIS L U s q fetchedAt because =
     (case up_whois U of
        None \<Rightarrow> (unknown_report q fetchedAt [Note (because @ ''; the WHOIS fallback is not configured'')], s)
      | Some wq \<Rightarrow>
          (case wq (st_guard s) (st_cache s) q of
             (Inl e, g, m) \<Rightarrow>
               (unknown_report q fetchedAt [Note because, WhoisFailed e], s\<lparr>st_guard := g, st_cache := m\<rparr>)
           | (Inr res, g, m) \<Rightarrow> (whois_report L q fetchedAt res, s\<lparr>st_guard := g, st_cache := m\<rparr>)))"

definition rdap_report :: "libraries \<Rightarrow> query \<Rightarrow> time \<Rightarrow> rdap_result \<Rightarrow> domainReport" where
  "rdap_report L q fetchedAt res =
     (let rep = (if rq_Registered res = Yes
                 then FromRDAP (lb_parseTime L) q (rq_Domain res) (rq_Servers res) fetchedAt ''miss''
                 else bare_report q (rq_Registered res)
                        \<lparr>so_Protocol = ProtoRDAP, so_Servers = rq_Servers res, so_FetchedAt = fetchedAt,
                         so_Cache = ''miss'', so_ParseConfidence = 1, so_RawAvailable = (rq_Raw res \<noteq> [])\<rparr>)
      in rep\<lparr>rp_Warnings := rp_Warnings rep @ rq_Warnings res\<rparr>)"

text \<open>The part of \<open>lookupOnce\<close> after the cache.\<close>

definition fetch_report ::
    "libraries \<Rightarrow> 's upstreams \<Rightarrow> resolver \<Rightarrow> lookup_clock \<Rightarrow> 's rstate \<Rightarrow> query \<Rightarrow> options \<Rightarrow>
     (resolver_error + domainReport) \<times> 's rstate" where
  "fetch_report L U r ck s q opt =
     (let key = cacheKey (qu_ASCII q); fetchedAt = lc_fetched ck
      in case up_rdap U (st_guard s) q (op_SkipRegistrarReferral opt) of
           (Inl ErrNoRDAPService, g) \<Rightarrow>
             (case viaWHOIS L U (s\<lparr>st_guard := g\<rparr>) q fetchedAt (''TLD .'' @ qu_TLD q @ '' publishes no RDAP service'') of
                (rep, s) \<Rightarrow> (Inr rep, store L r ck key rep s))
         | (Inl e, g) \<Rightarrow> (Inl (RdapFailed e), s\<lparr>st_guard := g\<rparr>)
         | (Inr res, g) \<Rightarrow>
             (let rep = rdap_report L q fetchedAt res; s = s\<lparr>st_guard := g\<rparr>
              in if rp_Registered rep = tristate.Unknown \<and> up_whois U \<noteq> None then
                   (case viaWHOIS L U s q fetchedAt ''RDAP returned no definite answer'' of
                      (alt, s) \<Rightarrow>
                        if rp_Registered alt \<noteq> tristate.Unknown then
                          (let alt = alt\<lparr>rp_Warnings := rp_Warnings alt @ rp_Warnings rep\<rparr>
                           in (Inr alt, store L r ck key alt s))
                        else (Inr rep, store L r ck key rep s))
                 else (Inr rep, store L r ck key rep s)))"

definition lookupOnce ::
    "libraries \<Rightarrow> 's upstreams \<Rightarrow> resolver \<Rightarrow> lookup_clock \<Rightarrow> 's rstate \<Rightarrow> string \<Rightarrow> options \<Rightarrow>
     (resolver_error + domainReport) \<times> 's rstate" where
  "lookupOnce L U r ck s input opt =
     (case NormalizeQuery (lb_names L) input of
        Inl e \<Rightarrow> (Inl (InvalidDomain e), s)
      | Inr q \<Rightarrow>
          (case cached_value (js_readReport (lb_json L)) (\<lambda>rep. so_FetchedAt (rp_Source rep)) ck (op_MaxAge opt)
                  (cacheKey (qu_ASCII q)) s of
             (Some rep, s) \<Rightarrow> (Inr (rep\<lparr>rp_Source := (rp_Source rep)\<lparr>so_Cache := ''hit''\<rparr>\<rparr>), s)
           | (None, s) \<Rightarrow> fetch_report L U r ck s q opt))"

definition applyOptions :: "options \<Rightarrow> domainReport \<Rightarrow> domainReport" where
  "applyOptions opt rep = (if op_IncludeContacts opt then rep else rep\<lparr>rp_Entities := []\<rparr>)"

definition flightKey :: "string \<Rightarrow> options \<Rightarrow> string" where
  "flightKey ascii opt =
     ascii @ ''|'' @ (if op_MaxAge opt \<le> 0 then ''f'' else ''c'') @ ''|'' @
     (if op_SkipRegistrarReferral opt then ''n'' else ''r'')"

text \<open>What a caller of \<open>Lookup\<close> makes of the result of the flight it joined.\<close>

definition land :: "options \<Rightarrow> resolver_error + domainReport \<Rightarrow> resolver_error + domainReport" where
  "land opt res = (case res of Inl e \<Rightarrow> Inl e | Inr rep \<Rightarrow> Inr (applyOptions opt rep))"

definition LookupDomain ::
    "libraries \<Rightarrow> 's upstreams \<Rightarrow> resolver \<Rightarrow> lookup_clock \<Rightarrow> 's rstate \<Rightarrow> string \<Rightarrow> options \<Rightarrow>
     (resolver_error + domainReport) \<times> 's rstate" where
  "LookupDomain L U r ck s input opt =
     (case NormalizeQuery (lb_names L) input of
        Inl e \<Rightarrow> (Inl (InvalidDomain e), s)
      | Inr q \<Rightarrow> (case lookupOnce L U r ck s input opt of (res, s) \<Rightarrow> (land opt res, s)))"

text \<open>
  \<open>singleflight\<close>: while the flight of a first caller is under way, a caller with the same key waits for it and
  takes its result. \<open>collapsed\<close> is the result of a first caller and of one that joined it.
\<close>

definition joins :: "libraries \<Rightarrow> string \<times> options \<Rightarrow> string \<times> options \<Rightarrow> bool" where
  "joins L x y \<longleftrightarrow>
     (case (NormalizeQuery (lb_names L) (fst x), NormalizeQuery (lb_names L) (fst y)) of
        (Inr q, Inr q') \<Rightarrow> flightKey (qu_ASCII q) (snd x) = flightKey (qu_ASCII q') (snd y)
      | _ \<Rightarrow> False)"

definition collapsed ::
    "libraries \<Rightarrow> 's upstreams \<Rightarrow> resolver \<Rightarrow> lookup_clock \<Rightarrow> 's rstate \<Rightarrow> string \<times> options \<Rightarrow> string \<times> options \<Rightarrow>
     (resolver_error + domainReport) \<times> (resolver_error + domainReport) \<times> 's rstate" where
  "collapsed L U r ck s x y =
     (case lookupOnce L U r ck s (fst x) (snd x) of (res, s) \<Rightarrow> (land (snd x) res, land (snd y) res, s))"

section \<open>Raw payloads\<close>

definition cachedRaw :: "libraries \<Rightarrow> lookup_clock \<Rightarrow> duration \<Rightarrow> string \<Rightarrow> 's rstate \<Rightarrow> rawResponse option \<times> 's rstate" where
  "cachedRaw L ck maxAge key s =
     (case cached_value (js_readRaw (lb_json L)) rw_FetchedAt ck maxAge key s of
        (v, s) \<Rightarrow> (map_option (\<lambda>out. out\<lparr>rw_Cache := ''hit''\<rparr>) v, s))"

definition storeRaw :: "libraries \<Rightarrow> lookup_clock \<Rightarrow> string \<Rightarrow> rawResponse \<Rightarrow> 's rstate \<Rightarrow> 's rstate" where
  "storeRaw L ck key v s = put_value (js_raw (lb_json L) v) TTLRaw ck key s"

definition RawRDAP ::
    "libraries \<Rightarrow> 's upstreams \<Rightarrow> lookup_clock \<Rightarrow> 's rstate \<Rightarrow> string \<Rightarrow> duration \<Rightarrow> (resolver_error + rawResponse) \<times> 's rstate" where
  "RawRDAP L U ck s input maxAge =
     (case NormalizeQuery (lb_names L) input of
        Inl e \<Rightarrow> (Inl (InvalidDomain e), s)
      | Inr q \<Rightarrow>
          (let key = rawKey ProtoRDAP (qu_ASCII q)
           in case cachedRaw L ck maxAge key s of
                (Some out, s) \<Rightarrow> (Inr out, s)
              | (None, s) \<Rightarrow>
                  (case up_rdap U (st_guard s) q False of
                     (Inl e, g) \<Rightarrow> (Inl (RdapFailed e), s\<lparr>st_guard := g\<rparr>)
                   | (Inr res, g) \<Rightarrow>
                       (let s = s\<lparr>st_guard := g\<rparr>
                        in if rq_Raw res = [] then (Inl (ErrNoRaw (qu_ASCII q)), s)
                           else (let out = \<lparr>rw_Query = q, rw_Protocol = ProtoRDAP, rw_Servers = rq_Servers res,
                                   rw_FetchedAt = lc_fetched ck, rw_Cache = ''miss'', rw_Truncated = False,
                                   rw_Body = rq_Raw res, rw_Warnings = rq_Warnings res\<rparr>
                                 in (Inr out, storeRaw L ck key out s))))))"

definition RawWHOIS ::
    "libraries \<Rightarrow> 's upstreams \<Rightarrow> lookup_clock \<Rightarrow> 's rstate \<Rightarrow> string \<Rightarrow> duration \<Rightarrow> (resolver_error + rawResponse) \<times> 's rstate" where
  "RawWHOIS L U ck s input maxAge =
     (case NormalizeQuery (lb_names L) input of
        Inl e \<Rightarrow> (Inl (InvalidDomain e), s)
      | Inr q \<Rightarrow>
          (case up_whois U of
             None \<Rightarrow> (Inl (ErrNoRaw (qu_ASCII q)), s)
           | Some wq \<Rightarrow>
               (let key = rawKey ProtoWHOIS (qu_ASCII q)
                in case cachedRaw L ck maxAge key s of
                     (Some out, s) \<Rightarrow> (Inr out, s)
                   | (None, s) \<Rightarrow>
                       (case wq (st_guard s) (st_cache s) q of
                          (Inl e, g, m) \<Rightarrow> (Inl (WhoisError e), s\<lparr>st_guard := g, st_cache := m\<rparr>)
                        | (Inr res, g, m) \<Rightarrow>
                            (let s = s\<lparr>st_guard := g, st_cache := m\<rparr>
                             in if rz_Raw res = [] then (Inl (ErrNoRaw (qu_ASCII q)), s)
                                else (let out = \<lparr>rw_Query = q, rw_Protocol = ProtoWHOIS, rw_Servers = rz_Servers res,
                                        rw_FetchedAt = lc_fetched ck, rw_Cache = ''miss'', rw_Truncated = rz_Truncated res,
                                        rw_Body = rz_Raw res, rw_Warnings = map WhoisNote (rz_Warnings res)\<rparr>
                                      in (Inr out, storeRaw L ck key out s)))))))"

text \<open>\<open>ck\<close> and \<open>ck'\<close> are the clocks of the two attempts.\<close>

definition RawAuto ::
    "libraries \<Rightarrow> 's upstreams \<Rightarrow> lookup_clock \<Rightarrow> lookup_clock \<Rightarrow> 's rstate \<Rightarrow> string \<Rightarrow> duration \<Rightarrow>
     (resolver_error + rawResponse) \<times> 's rstate" where
  "RawAuto L U ck ck' s input maxAge =
     (case RawRDAP L U ck s input maxAge of
        (Inr out, s) \<Rightarrow> (Inr out, s)
      | (Inl e, s) \<Rightarrow>
          if e = RdapFailed ErrNoRDAPService \<or> (case e of ErrNoRaw _ \<Rightarrow> True | _ \<Rightarrow> False)
          then RawWHOIS L U ck' s input maxAge else (Inl e, s))"

section \<open>Networks\<close>

definition kind_text :: "resource_kind \<Rightarrow> string" where
  "kind_text k = (case k of KindIP \<Rightarrow> ''ip'' | KindPrefix \<Rightarrow> ''prefix'' | KindASN \<Rightarrow> ''asn'')"

definition resource_text :: "libraries \<Rightarrow> resource \<Rightarrow> string" where
  "resource_text L = ResourceString (lb_showIP L) (lb_showNet L)"

definition lookupResourceOnce ::
    "libraries \<Rightarrow> ('s \<Rightarrow> resource \<Rightarrow> (net_failure + netResult) \<times> 's) \<Rightarrow> lookup_clock \<Rightarrow> 's rstate \<Rightarrow> resource \<Rightarrow> string \<Rightarrow>
     (resolver_error + netReport) \<times> 's rstate" where
  "lookupResourceOnce L nq ck s res key =
     (case nq (st_guard s) res of
        (Inl e, g) \<Rightarrow> (Inl (NetFailed e), s\<lparr>st_guard := g\<rparr>)
      | (Inr out, g) \<Rightarrow>
          (let s = s\<lparr>st_guard := g\<rparr>;
               q = \<lparr>nq_Input = rc_Input res, nq_Normalized = resource_text L res\<rparr>;
               rep = (case nx_Object out of
                        NetworkObject n \<Rightarrow> Some (FromRDAPIPNetwork (lb_parseTime L) q (kind_text (rc_Kind res)) n
                                                  (nx_Servers out) (lc_fetched ck) ''miss'')
                      | AutnumObject a \<Rightarrow> Some (FromRDAPAutnum (lb_parseTime L) q a (nx_Servers out) (lc_fetched ck) ''miss'')
                      | _ \<Rightarrow> None)
           in case rep of
                None \<Rightarrow> (Inl (UnexpectedObject res (type_name (nx_Object out))), s)
              | Some rep \<Rightarrow>
                  (let rep = rep\<lparr>np_Warnings := np_Warnings rep @ nx_Warnings out\<rparr>
                   in (Inr rep, put_value (js_net (lb_json L) rep) TTLNet ck key s))))"

definition LookupResource ::
    "libraries \<Rightarrow> 's upstreams \<Rightarrow> lookup_clock \<Rightarrow> 's rstate \<Rightarrow> string \<Rightarrow> duration \<Rightarrow> (resolver_error + netReport) \<times> 's rstate" where
  "LookupResource L U ck s input maxAge =
     (case up_net U of
        None \<Rightarrow> (Inl ErrNoNetRegistry, s)
      | Some nq \<Rightarrow>
          (case ParseResource (lb_parseIP L) (lb_parseCIDR L) input of
             Inl e \<Rightarrow> (Inl (InvalidResource e), s)
           | Inr res \<Rightarrow>
               (let key = netKey (resource_text L res)
                in case cached_value (js_readNet (lb_json L)) (\<lambda>rep. so_FetchedAt (np_Source rep)) ck maxAge key s of
                     (Some rep, s) \<Rightarrow> (Inr (rep\<lparr>np_Source := (np_Source rep)\<lparr>so_Cache := ''hit''\<rparr>\<rparr>), s)
                   | (None, s) \<Rightarrow> lookupResourceOnce L nq ck s res key)))"

definition RawResource ::
    "libraries \<Rightarrow> 's upstreams \<Rightarrow> lookup_clock \<Rightarrow> 's rstate \<Rightarrow> string \<Rightarrow> duration \<Rightarrow> (resolver_error + rawResponse) \<times> 's rstate" where
  "RawResource L U ck s input maxAge =
     (case up_net U of
        None \<Rightarrow> (Inl ErrNoNetRegistry, s)
      | Some nq \<Rightarrow>
          (case ParseResource (lb_parseIP L) (lb_parseCIDR L) input of
             Inl e \<Rightarrow> (Inl (InvalidResource e), s)
           | Inr res \<Rightarrow>
               (let key = rawNetKey (resource_text L res)
                in case cachedRaw L ck maxAge key s of
                     (Some out, s) \<Rightarrow> (Inr out, s)
                   | (None, s) \<Rightarrow>
                       (case nq (st_guard s) res of
                          (Inl e, g) \<Rightarrow> (Inl (NetFailed e), s\<lparr>st_guard := g\<rparr>)
                        | (Inr out, g) \<Rightarrow>
                            (let s = s\<lparr>st_guard := g\<rparr>
                             in if nx_Raw out = [] then (Inl (ErrNoRaw (resource_text L res)), s)
                                else (let raw = \<lparr>rw_Query = \<lparr>qu_Input = rc_Input res, qu_RegistrableDomain = [],
                                          qu_ASCII = resource_text L res, qu_TLD = [], qu_PublicSuffix = []\<rparr>,
                                        rw_Protocol = ProtoRDAP, rw_Servers = nx_Servers out, rw_FetchedAt = lc_fetched ck,
                                        rw_Cache = ''miss'', rw_Truncated = False, rw_Body = nx_Raw out,
                                        rw_Warnings = nx_Warnings out\<rparr>
                                      in (Inr raw, storeRaw L ck key raw s)))))))"

section \<open>What a report of a free name rests on\<close>

text \<open>A cached report of a name that is free, and the codec's contract: the answer survives it.\<close>

definition free_stored :: "codec \<Rightarrow> string memory \<Rightarrow> string \<Rightarrow> bool" where
  "free_stored J m a \<longleftrightarrow>
     (case m (cacheKey a) of
        None \<Rightarrow> False
      | Some e \<Rightarrow> (case js_readReport J (ce_val e) of None \<Rightarrow> False | Some rep \<Rightarrow> rp_Registered rep = No))"

definition codec_ok :: "codec \<Rightarrow> bool" where
  "codec_ok J \<longleftrightarrow> (\<forall>rep b rep'. js_report J rep = Some b \<longrightarrow> js_readReport J b = Some rep' \<longrightarrow>
     rp_Registered rep' = rp_Registered rep)"

lemma codec_okD:
  "codec_ok J \<Longrightarrow> js_report J rep = Some b \<Longrightarrow> js_readReport J b = Some rep' \<Longrightarrow> rp_Registered rep' = rp_Registered rep"
  by (simp add: codec_ok_def)

lemma free_stored_same: "m (cacheKey a) = m' (cacheKey a) \<Longrightarrow> free_stored J m a = free_stored J m' a"
  by (simp add: free_stored_def)

lemma cacheKey_eq [simp]: "cacheKey a = cacheKey b \<longleftrightarrow> a = b"
  by (simp add: cacheKey_def)

lemma foreign_keys [simp]:
  "cacheKey a \<noteq> rawKey p b" "cacheKey a \<noteq> netKey b" "cacheKey a \<noteq> rawNetKey b"
  by (simp_all add: cacheKey_def rawKey_def netKey_def rawNetKey_def)

lemma CacheGet_entries: "CacheGet m key t t' = (v, m') \<Longrightarrow> m' k = m k \<or> k = key \<and> m' k = None"
  by (auto simp: CacheGet_def get_evict_def split: option.splits if_splits)

lemma CacheGet_some: "CacheGet m key t t' = (Some v, m') \<Longrightarrow> \<exists>e. m key = Some e \<and> ce_val e = v"
  by (auto simp: CacheGet_def split: option.splits if_splits)

lemma cached_value_entries:
  "cached_value f h ck age key s = (v, s') \<Longrightarrow>
     st_guard s' = st_guard s \<and> (st_cache s' k = st_cache s k \<or> k = key \<and> st_cache s' k = None)"
  using CacheGet_entries [of "st_cache s" key "lc_get ck" "lc_evict ck" _ _ k]
  by (auto simp: cached_value_def split: if_splits prod.splits option.splits)

lemma cached_value_some:
  "cached_value f h ck age key s = (Some v, s') \<Longrightarrow>
     0 < age \<and> time_sub (lc_age ck) (h v) \<le> age \<and> (\<exists>e. st_cache s key = Some e \<and> f (ce_val e) = Some v)"
  by (auto simp: cached_value_def dest!: CacheGet_some split: if_splits prod.splits option.splits)

lemma put_value_entries: "k \<noteq> key \<Longrightarrow> st_cache (put_value b ttl ck key s) k = st_cache s k"
  by (simp add: put_value_def CacheSet_def split: option.split)

lemma cached_value_free:
  assumes "cached_value f h ck age key s = (v, s')" and "free_stored J (st_cache s') a"
  shows "free_stored J (st_cache s) a"
  using cached_value_entries [OF assms(1), of "cacheKey a"] assms(2) by (auto simp: free_stored_def)

lemma cachedRaw_free:
  assumes "cachedRaw L ck age key s = (v, s')" and "free_stored J (st_cache s') a"
  shows "free_stored J (st_cache s) a"
  using assms by (auto simp: cachedRaw_def split: prod.splits intro: cached_value_free)

lemma put_value_free: "cacheKey a \<noteq> key \<Longrightarrow> free_stored J (st_cache (put_value b ttl ck key s)) a = free_stored J (st_cache s) a"
  by (rule free_stored_same) (simp add: put_value_entries)

lemma storeRaw_free: "cacheKey a \<noteq> key \<Longrightarrow> free_stored J (st_cache (storeRaw L ck key v s)) a = free_stored J (st_cache s) a"
  by (simp add: storeRaw_def put_value_free)

lemma store_free:
  assumes "codec_ok (lb_json L)" and "free_stored (lb_json L) (st_cache (store L r ck (cacheKey b) rep s)) a"
  shows "free_stored (lb_json L) (st_cache s) a \<or> a = b \<and> rp_Registered rep = No"
proof (cases "a = b \<and> js_report (lb_json L) rep \<noteq> None \<and> 0 < TTLFor (sv_policy r) (rp_Registered rep)")
  case True
  then obtain raw where raw: "js_report (lb_json L) rep = Some raw" by auto
  then have "st_cache (store L r ck (cacheKey b) rep s) (cacheKey a) =
      Some \<lparr>ce_val = raw, ce_expiresAt = lc_set ck + TTLFor (sv_policy r) (rp_Registered rep)\<rparr>"
    using True by (simp add: store_def put_value_def CacheSet_def)
  then show ?thesis using True assms(2) codec_okD [OF assms(1) raw]
    by (auto simp: free_stored_def split: option.splits)
next
  case False
  then have "st_cache (store L r ck (cacheKey b) rep s) (cacheKey a) = st_cache s (cacheKey a)"
    by (auto simp: store_def put_value_def CacheSet_def split: option.splits)
  with assms(2) show ?thesis using free_stored_same by metis
qed

lemma report_states [simp]:
  "rp_Registered (unknown_report q t ws) = tristate.Unknown"
  "rp_Registered (whois_report L q t w) = state_of (Classify (lastServer [] (rz_Servers w)) (rz_Raw w))"
  by (simp_all add: unknown_report_def bare_report_def whois_report_def FromWHOIS_def Let_def)

lemma state_of_No [simp]: "state_of v = No \<longleftrightarrow> v = Unregistered"
  by (cases v) auto

lemma rdap_report_state:
  "rp_Registered (rdap_report L q t res) =
     (if rq_Registered res = Yes \<and> rq_Domain res = None then tristate.Unknown else rq_Registered res)"
  by (simp add: rdap_report_def FromRDAP_def bare_report_def Let_def split: option.split)

text \<open>The contract of the clients: a denial rests on evidence, and the WHOIS client leaves the reports alone.\<close>

locale honest_upstreams =
  fixes U :: "'s upstreams" and denied :: "string \<Rightarrow> bool"
  assumes rdap_denies: "up_rdap U g q skip = (Inr res, g') \<Longrightarrow> rq_Registered res = No \<Longrightarrow> denied (qu_ASCII q)"
    and whois_denies: "up_whois U = Some wq \<Longrightarrow> wq g m q = (Inr w, g', m') \<Longrightarrow>
           Classify (lastServer [] (rz_Servers w)) (rz_Raw w) = Unregistered \<Longrightarrow> denied (qu_ASCII q)"
    and whois_frame: "up_whois U = Some wq \<Longrightarrow> wq g m q = (x, g', m') \<Longrightarrow> m' (cacheKey a) = m (cacheKey a)"
begin

lemma viaWHOIS_free:
  assumes "viaWHOIS L U s q t because = (rep, s')"
  shows "rp_Registered rep = No \<Longrightarrow> denied (qu_ASCII q)"
    and "free_stored J (st_cache s') a = free_stored J (st_cache s) a"
proof -
  show "rp_Registered rep = No \<Longrightarrow> denied (qu_ASCII q)"
    using assms whois_denies by (auto simp: viaWHOIS_def split: option.splits prod.splits sum.splits)
  show "free_stored J (st_cache s') a = free_stored J (st_cache s) a"
    using assms whois_frame
    by (intro free_stored_same) (auto simp: viaWHOIS_def split: option.splits prod.splits sum.splits)
qed

text \<open>A fetch fails without touching the reports, or stores what it returns.\<close>

definition stored_from ::
    "libraries \<Rightarrow> resolver \<Rightarrow> lookup_clock \<Rightarrow> 's rstate \<Rightarrow> query \<Rightarrow> domainReport \<Rightarrow> 's rstate \<Rightarrow> bool" where
  "stored_from L r ck s q rep s' \<longleftrightarrow>
     (\<exists>s1. s' = store L r ck (cacheKey (qu_ASCII q)) rep s1 \<and>
        (\<forall>a. free_stored (lb_json L) (st_cache s1) a = free_stored (lb_json L) (st_cache s) a)) \<and>
     (rp_Registered rep = No \<longrightarrow> denied (qu_ASCII q))"

lemma stored_fromI:
  "(\<And>a. free_stored (lb_json L) (st_cache s1) a = free_stored (lb_json L) (st_cache s) a) \<Longrightarrow>
   (rp_Registered rep = No \<Longrightarrow> denied (qu_ASCII q)) \<Longrightarrow>
   stored_from L r ck s q rep (store L r ck (cacheKey (qu_ASCII q)) rep s1)"
  unfolding stored_from_def by blast

lemma fetch_report_outcome:
  assumes "fetch_report L U r ck s q opt = (res, s')"
  shows "(\<exists>e. res = Inl e) \<and> st_cache s' = st_cache s \<or> (\<exists>rep. res = Inr rep \<and> stored_from L r ck s q rep s')"
proof -
  obtain x g where rdap: "up_rdap U (st_guard s) q (op_SkipRegistrarReferral opt) = (x, g)" by fastforce
  show ?thesis
  proof (cases x)
    case (Inl e)
    show ?thesis
    proof (cases "e = ErrNoRDAPService")
      case True
      obtain rep s1 where via: "viaWHOIS L U (s\<lparr>st_guard := g\<rparr>) q (lc_fetched ck)
          (''TLD .'' @ qu_TLD q @ '' publishes no RDAP service'') = (rep, s1)" by fastforce
      with assms rdap Inl True have "res = Inr rep" "s' = store L r ck (cacheKey (qu_ASCII q)) rep s1"
        by (simp_all add: fetch_report_def Let_def)
      then show ?thesis using viaWHOIS_free [OF via] by (auto intro!: stored_fromI)
    next
      case False
      then show ?thesis using assms rdap Inl by (cases e) (auto simp: fetch_report_def Let_def)
    qed
  next
    case (Inr y)
    define rep where "rep = rdap_report L q (lc_fetched ck) y"
    have no: "rp_Registered rep = No \<Longrightarrow> denied (qu_ASCII q)"
      using rdap_denies [OF rdap [unfolded Inr]] by (auto simp: rep_def rdap_report_state split: if_splits)
    obtain alt s1 where via: "viaWHOIS L U (s\<lparr>st_guard := g\<rparr>) q (lc_fetched ck) ''RDAP returned no definite answer'' =
        (alt, s1)" by fastforce
    define alt' where "alt' = alt\<lparr>rp_Warnings := rp_Warnings alt @ rp_Warnings rep\<rparr>"
    have "(res, s') \<in> {(Inr rep, store L r ck (cacheKey (qu_ASCII q)) rep (s\<lparr>st_guard := g\<rparr>)),
        (Inr rep, store L r ck (cacheKey (qu_ASCII q)) rep s1), (Inr alt', store L r ck (cacheKey (qu_ASCII q)) alt' s1)}"
      using assms rdap Inr via
      by (simp add: fetch_report_def Let_def rep_def [symmetric] alt'_def [symmetric] split: if_splits)
    moreover have "rp_Registered alt' = rp_Registered alt" by (simp add: alt'_def)
    ultimately show ?thesis using viaWHOIS_free [OF via] no by (auto intro!: stored_fromI)
  qed
qed

lemma fetch_report_free:
  assumes "fetch_report L U r ck s q opt = (res, s')"
  shows "res = Inr rep \<Longrightarrow> rp_Registered rep = No \<Longrightarrow> denied (qu_ASCII q)"
    and "codec_ok (lb_json L) \<Longrightarrow> free_stored (lb_json L) (st_cache s') a \<Longrightarrow>
      free_stored (lb_json L) (st_cache s) a \<or> a = qu_ASCII q \<and> denied a"
  using fetch_report_outcome [OF assms] by (auto simp: stored_from_def dest: store_free)

lemma lookupOnce_free:
  assumes "lookupOnce L U r ck s input opt = (res, s')"
  shows "res = Inr rep \<Longrightarrow> rp_Registered rep = No \<Longrightarrow>
      \<exists>q. NormalizeQuery (lb_names L) input = Inr q \<and>
        (free_stored (lb_json L) (st_cache s) (qu_ASCII q) \<or> denied (qu_ASCII q))"
    and "codec_ok (lb_json L) \<Longrightarrow> free_stored (lb_json L) (st_cache s') a \<Longrightarrow>
      free_stored (lb_json L) (st_cache s) a \<or> denied a"
proof -
  show "\<exists>q. NormalizeQuery (lb_names L) input = Inr q \<and>
      (free_stored (lb_json L) (st_cache s) (qu_ASCII q) \<or> denied (qu_ASCII q))"
    if "res = Inr rep" "rp_Registered rep = No"
    using that assms
    by (auto simp: lookupOnce_def free_stored_def dest!: cached_value_some fetch_report_free(1)
        split: sum.splits prod.splits option.splits)
  show "free_stored (lb_json L) (st_cache s) a \<or> denied a"
    if "codec_ok (lb_json L)" "free_stored (lb_json L) (st_cache s') a"
    using that assms
    by (auto simp: lookupOnce_def dest: cached_value_free fetch_report_free(2)
        split: sum.splits prod.splits option.splits)
qed

text \<open>The other operations of the resolver leave the reports alone.\<close>

lemma RawRDAP_free:
  "RawRDAP L U ck s input age = (res, s') \<Longrightarrow> free_stored J (st_cache s') a \<Longrightarrow> free_stored J (st_cache s) a"
  by (auto simp: RawRDAP_def Let_def storeRaw_free dest: cachedRaw_free
      split: sum.splits prod.splits option.splits if_splits)

lemma whois_free:
  "up_whois U = Some wq \<Longrightarrow> wq g m q = (x, g', m') \<Longrightarrow> free_stored J m' a \<Longrightarrow> free_stored J m a"
  using whois_frame free_stored_same by metis

lemma RawWHOIS_free:
  "RawWHOIS L U ck s input age = (res, s') \<Longrightarrow> free_stored J (st_cache s') a \<Longrightarrow> free_stored J (st_cache s) a"
  by (auto simp: RawWHOIS_def Let_def storeRaw_free dest: cachedRaw_free whois_free
      split: sum.splits prod.splits option.splits if_splits)

end

lemma LookupResource_free:
  "LookupResource L U ck s input age = (res, s') \<Longrightarrow> free_stored J (st_cache s') a \<Longrightarrow> free_stored J (st_cache s) a"
  by (auto simp: LookupResource_def lookupResourceOnce_def Let_def put_value_free dest: cached_value_free
      split: sum.splits prod.splits option.splits if_splits)

lemma RawResource_free:
  "RawResource L U ck s input age = (res, s') \<Longrightarrow> free_stored J (st_cache s') a \<Longrightarrow> free_stored J (st_cache s) a"
  by (auto simp: RawResource_def Let_def storeRaw_free dest: cachedRaw_free
      split: sum.splits prod.splits option.splits if_splits)

end
