(* ===== verification/Resolution.thy ===== *)
theory Resolution
  imports Resolver
begin

text \<open>
  The resolver on its real clients: the wiring of \<open>cmd/whois-mcp/main.go\<close> (one guard and one cache for both
  protocols), and the properties of the whole lookup path over sequences of calls.
\<close>

section \<open>The deployment\<close>

text \<open>What the network does during one call of the resolver.\<close>

record world =
  wd_rdap :: rdap_env
  wd_net :: net_env
  wd_hosts :: host_clock

record 'b deployment =
  dp_platform :: "'b platform"
  dp_transport :: transport
  dp_parseURL :: "string \<Rightarrow> rdap_url option"
  dp_client :: rdap_client
  dp_netReg :: "netRegistry option"

definition connect :: "'b deployment \<Rightarrow> world \<Rightarrow> 'b guard option upstreams" where
  "connect D w =
     \<lparr>up_rdap = (\<lambda>g q skip. QueryWithOptions (dp_platform D) (dp_parseURL D) (wd_rdap w) (dp_client D) q skip g),
      up_whois = Some (\<lambda>g m q.
        case ClientQuery (TransportQuery (dp_platform D) (dp_transport D) (wd_net w)) IANAHost g (Some m)
               (qu_TLD q) (qu_ASCII q) (wd_hosts w) of (res, g', c) \<Rightarrow> (res, g', or_else c m)),
      up_net = map_option (\<lambda>reg g res. QueryResource (dp_platform D) (dp_parseURL D) (wd_rdap w) (Some reg) res g)
        (dp_netReg D)\<rparr>"

text \<open>
  Evidence that a name is free: an RDAP endpoint answered the question for it with the explicit error, or a
  WHOIS server answered the query for it with a text that is classified as a denial.
\<close>

definition denies :: "world \<Rightarrow> string \<Rightarrow> bool" where
  "denies w a \<longleftrightarrow>
     (\<exists>j base. says_absent (wd_rdap w) a j base) \<or>
     (\<exists>i addr host tld n. Classify host (take n (wr_data (fst (wd_net w i addr (QueryFor tld a))))) = Unregistered)"

section \<open>The raw text of a WHOIS lookup\<close>

lemma hops_raw:
  assumes "hops tq tld query s hop host seen res = (Inr res', s')"
    and "\<And>s i h r s'. tq s i h query = (Inr r, s') \<Longrightarrow> Q (rs_Raw r)" and "rz_Raw res = [] \<or> Q (rz_Raw res)"
  shows "rz_Raw res' = [] \<or> Q (rz_Raw res')"
  using assms
proof (induction tq tld query s hop host seen res rule: hops.induct)
  case (1 tq tld query s hop host seen res)
  show ?case
  proof (cases "to_lower host \<in> set seen")
    case True
    then show ?thesis using "1.prems" by (subst (asm) hops.simps) auto
  next
    case False
    show ?thesis
    proof (cases "tq s (hop + 1) host query")
      case (Pair x s1)
      show ?thesis
      proof (cases x)
        case (Inl e)
        then show ?thesis using "1.prems" False Pair
          by (subst (asm) hops.simps) (auto split: if_splits)
      next
        case (Inr r)
        define res1 where "res1 = add_hop r (next_referral tld r) (take_answer hop r res)"
        have raw: "rz_Raw res1 = [] \<or> Q (rz_Raw res1)"
          using "1.prems"(2) [OF Pair [unfolded Inr]] "1.prems"(3) by (auto simp: res1_def)
        have IH: "rz_Raw res' = [] \<or> Q (rz_Raw res')"
          if "next_referral tld r \<noteq> []" "\<not> MaxReferralHops \<le> hop + 1"
            "hops tq tld query s1 (hop + 1) (next_referral tld r) (to_lower host # seen) res1 = (Inr res', s')"
          using "1.IH" [OF False Pair [symmetric] Inr refl res1_def that(1) that(2) that(3)] "1.prems"(2) raw by blast
        show ?thesis
          using "1.prems"(1) hops_reply [where tq = tq, OF False Pair [unfolded Inr], of tld res] raw IH
          unfolding res1_def by (auto split: if_splits)
      qed
    qed
  qed
qed

lemma lookup_at_raw:
  assumes "lookup_at tq tld ascii host s = (Inr res, s')"
    and "\<And>s i h r s'. tq s i h (QueryFor tld ascii) = (Inr r, s') \<Longrightarrow> Q (rs_Raw r)"
  shows "rz_Raw res = [] \<or> Q (rz_Raw res)"
proof -
  obtain res0 where h: "hops tq tld (QueryFor tld ascii) s 0 host [] empty_result = (Inr res0, s')" "res = finish res0"
    using assms(1) by (auto simp: lookup_at_def split: prod.splits sum.splits)
  from hops_raw [where tq = tq and Q = Q, OF h(1) assms(2)] h(2) show ?thesis by (simp add: empty_result_def)
qed

lemma ClientQuery_raw:
  assumes "ClientQuery tq iana s c tld ascii ck = (Inr res, s', c')"
    and "\<And>s i h r s'. tq s i h (QueryFor tld ascii) = (Inr r, s') \<Longrightarrow> Q (rs_Raw r)"
  shows "rz_Raw res = [] \<or> Q (rz_Raw res)"
  using assms(1) lookup_at_raw [where tq = tq and Q = Q and res = res, OF _ assms(2)]
  by (auto simp: ClientQuery_def split: if_splits prod.splits sum.splits)

lemma exchange_data: "exchange P tr w addr query = Inr r \<Longrightarrow> \<exists>n. rs_Raw r = take n (wr_data w)"
  by (auto simp: exchange_def exchange_read_def read_limited_def Let_def min_def
      split: option.splits if_splits intro: exI [of _ "length (wr_data w)"])

lemma TransportQuery_data:
  "TransportQuery P tr env g i host query = (Inr r, g') \<Longrightarrow>
     \<exists>addr n. rs_Raw r = take n (wr_data (fst (env i addr query)))"
  by (elim TransportQuery_cases) (metis exchange_data)

lemma DiscoverHost_frame:
  assumes "DiscoverHost tq iana s (Some m) tld ck = (res, s', c)" and "hd k \<noteq> CHR ''w''"
  shows "or_else c m k = m k"
  using assms
  by (auto simp: DiscoverHost_def discover_miss_def or_else_def CacheSet_def Let_def
      dest!: CacheGet_entries [where k = k]
      split: if_splits prod.splits option.splits sum.splits)

lemma ClientQuery_frame:
  assumes "ClientQuery tq iana s (Some m) tld ascii ck = (res, s', c)" and "hd k \<noteq> CHR ''w''"
  shows "or_else c m k = m k"
proof (cases "HostFor tld = []")
  case True
  obtain x s1 c1 where d: "DiscoverHost tq iana s (Some m) tld ck = (x, s1, c1)" by (metis prod_cases3)
  then have "c = c1" using assms(1) True by (auto simp: ClientQuery_def split: sum.splits prod.splits)
  then show ?thesis using DiscoverHost_frame [where tq = tq, OF d assms(2)] by simp
next
  case False
  then show ?thesis using assms(1) by (auto simp: ClientQuery_def or_else_def split: prod.splits)
qed

lemma Classify_empty: "Classify host [] \<noteq> Unregistered"
  by (simp add: Classify_def)

interpretation conn: honest_upstreams "connect D w" "denies w" for D :: "'b deployment" and w
proof unfold_locales
  fix g g' q skip res
  assume a: "up_rdap (connect D w) g q skip = (Inr res, g')" "rq_Registered res = No"
  then have "QueryWithOptions (dp_platform D) (dp_parseURL D) (wd_rdap w) (dp_client D) q skip g = (Inr res, g')"
    by (simp add: connect_def)
  from RDAP_evidence [OF this a(2)] show "denies w (qu_ASCII q)" by (auto simp: denies_def)
next
  fix wq g m q res g' m'
  assume u: "up_whois (connect D w) = Some wq" and wq: "wq g m q = (Inr res, g', m')"
    and no: "Classify (lastServer [] (rz_Servers res)) (rz_Raw res) = Unregistered"
  let ?tq = "TransportQuery (dp_platform D) (dp_transport D) (wd_net w)"
  let ?Q = "\<lambda>raw. \<exists>i addr n. raw = take n (wr_data (fst (wd_net w i addr (QueryFor (qu_TLD q) (qu_ASCII q)))))"
  obtain c where "ClientQuery ?tq IANAHost g (Some m) (qu_TLD q) (qu_ASCII q) (wd_hosts w) = (Inr res, g', c)"
    using u wq by (auto simp: connect_def split: prod.splits)
  then have "rz_Raw res = [] \<or> ?Q (rz_Raw res)"
    by (rule ClientQuery_raw) (use TransportQuery_data in blast)
  then show "denies w (qu_ASCII q)" using no Classify_empty by (auto simp: denies_def)
next
  fix wq g m q x g' m' a
  assume "up_whois (connect D w) = Some wq" "wq g m q = (x, g', m')"
  then obtain c where "ClientQuery (TransportQuery (dp_platform D) (dp_transport D) (wd_net w)) IANAHost g (Some m)
      (qu_TLD q) (qu_ASCII q) (wd_hosts w) = (x, g', c)" "m' = or_else c m"
    by (auto simp: connect_def split: prod.splits)
  then show "m' (cacheKey a) = m (cacheKey a)"
    using ClientQuery_frame [where tq = "TransportQuery (dp_platform D) (dp_transport D) (wd_net w)"]
    by (auto simp: cacheKey_def)
qed

section \<open>Sequences of calls\<close>

datatype resolver_op =
    OpLookup world lookup_clock string options
  | OpRawRDAP world lookup_clock string duration
  | OpRawWHOIS world lookup_clock string duration
  | OpResource world lookup_clock string duration
  | OpRawResource world lookup_clock string duration

fun op_world :: "resolver_op \<Rightarrow> world" where
  "op_world (OpLookup w ck input opt) = w"
| "op_world (OpRawRDAP w ck input age) = w"
| "op_world (OpRawWHOIS w ck input age) = w"
| "op_world (OpResource w ck input age) = w"
| "op_world (OpRawResource w ck input age) = w"

fun op_effect :: "libraries \<Rightarrow> 'b deployment \<Rightarrow> resolver \<Rightarrow> 'b guard option rstate \<Rightarrow> resolver_op \<Rightarrow> 'b guard option rstate" where
  "op_effect L D r s (OpLookup w ck input opt) = snd (LookupDomain L (connect D w) r ck s input opt)"
| "op_effect L D r s (OpRawRDAP w ck input age) = snd (RawRDAP L (connect D w) ck s input age)"
| "op_effect L D r s (OpRawWHOIS w ck input age) = snd (RawWHOIS L (connect D w) ck s input age)"
| "op_effect L D r s (OpResource w ck input age) = snd (LookupResource L (connect D w) ck s input age)"
| "op_effect L D r s (OpRawResource w ck input age) = snd (RawResource L (connect D w) ck s input age)"

text \<open>The state with the worlds seen so far.\<close>

definition resolver_step ::
    "libraries \<Rightarrow> 'b deployment \<Rightarrow> resolver \<Rightarrow> 'b guard option rstate \<times> world list \<Rightarrow> resolver_op \<Rightarrow>
     'b guard option rstate \<times> world list" where
  "resolver_step L D r s x = (op_effect L D r (fst s) x, op_world x # snd s)"

definition evidence_inv :: "libraries \<Rightarrow> 'b guard option rstate \<times> world list \<Rightarrow> bool" where
  "evidence_inv L s \<longleftrightarrow>
     (\<forall>a. free_stored (lb_json L) (st_cache (fst s)) a \<longrightarrow> (\<exists>w \<in> set (snd s). denies w a))"

lemma LookupDomain_once:
  assumes "LookupDomain L U r ck s input opt = (res, s')"
  obtains "s' = s" "\<exists>e. res = Inl e" | res0 where "lookupOnce L U r ck s input opt = (res0, s')" "res = land opt res0"
  using assms by (auto simp: LookupDomain_def split: sum.splits prod.splits)

lemma op_effect_free:
  assumes "codec_ok (lb_json L)" and "free_stored (lb_json L) (st_cache (op_effect L D r s x)) a"
  shows "free_stored (lb_json L) (st_cache s) a \<or> denies (op_world x) a"
proof (cases x)
  case (OpLookup w ck input opt)
  obtain res s' where l: "LookupDomain L (connect D w) r ck s input opt = (res, s')" by fastforce
  then have "op_effect L D r s x = s'" using OpLookup by simp
  with l show ?thesis using assms OpLookup
    by (elim LookupDomain_once) (auto dest: conn.lookupOnce_free(2))
next
  case (OpRawRDAP w ck input age)
  then show ?thesis using assms conn.RawRDAP_free [OF prod.collapse [symmetric]] by auto
next
  case (OpRawWHOIS w ck input age)
  then show ?thesis using assms conn.RawWHOIS_free [OF prod.collapse [symmetric]] by auto
next
  case (OpResource w ck input age)
  then show ?thesis using assms LookupResource_free [OF prod.collapse [symmetric]] by auto
next
  case (OpRawResource w ck input age)
  then show ?thesis using assms RawResource_free [OF prod.collapse [symmetric]] by auto
qed

interpretation resolve: op_system "resolver_step L D r" "\<lambda>s x. codec_ok (lb_json L)" "evidence_inv L"
  for L and D :: "'b deployment" and r
  by unfold_locales (auto simp: evidence_inv_def resolver_step_def dest: op_effect_free)

lemma worlds_run: "snd (run (resolver_step L D r) s ops) = rev (map op_world ops) @ snd s"
  by (induction ops arbitrary: s) (auto simp: resolver_step_def)

lemma empty_cache_inv: "evidence_inv L (\<lparr>st_guard = g, st_cache = NewMemory\<rparr>, ws)"
  by (simp add: evidence_inv_def free_stored_def NewMemory_def)

lemma lookup_evidence:
  assumes "codec_ok (lb_json L)"
    and "run (resolver_step L D r) (\<lparr>st_guard = g, st_cache = NewMemory\<rparr>, []) ops = (s, ws)"
    and "LookupDomain L (connect D w) r ck s input opt = (Inr rep, s')" and "rp_Registered rep = No"
  shows "\<exists>q w'. NormalizeQuery (lb_names L) input = Inr q \<and> w' \<in> set (w # map op_world ops) \<and> denies w' (qu_ASCII q)"
proof -
  have inv: "evidence_inv L (s, ws)"
    using resolve.run_inv [of L "(\<lparr>st_guard = g, st_cache = NewMemory\<rparr>, [])" D r ops] assms(1,2) empty_cache_inv
      run_ok_const by metis
  have ws: "set ws = set (map op_world ops)" using worlds_run [of L D r _ ops] assms(2) by (metis append_Nil2 set_rev snd_conv)
  from assms(3) obtain rep0 where l: "lookupOnce L (connect D w) r ck s input opt = (Inr rep0, s')"
    "rep = applyOptions opt rep0"
    by (auto simp: land_def elim!: LookupDomain_once split: sum.splits)
  then have "rp_Registered rep0 = No" using assms(4) by (simp add: applyOptions_def split: if_splits)
  from conn.lookupOnce_free(1) [OF l(1) refl this] inv ws show ?thesis
    unfolding evidence_inv_def by (metis fst_conv list.set_intros(1) list.set_intros(2) snd_conv)
qed

section \<open>A concrete deployment\<close>

definition demo_report :: "tristate \<Rightarrow> domainReport" where
  "demo_report t = bare_report \<lparr>qu_Input = [], qu_RegistrableDomain = [], qu_ASCII = [], qu_TLD = [], qu_PublicSuffix = []\<rparr> t
     (bare_source ProtoRDAP 0)"

definition demo_codec :: codec where
  "demo_codec = \<lparr>js_report = (\<lambda>rep. Some (case rp_Registered rep of Yes \<Rightarrow> ''y'' | No \<Rightarrow> ''n'' | tristate.Unknown \<Rightarrow> ''u'')),
     js_readReport = (\<lambda>b. Some (demo_report (if b = ''y'' then Yes else if b = ''n'' then No else tristate.Unknown))),
     js_raw = (\<lambda>_. None), js_readRaw = (\<lambda>_. None), js_net = (\<lambda>_. None), js_readNet = (\<lambda>_. None)\<rparr>"

definition demo_names :: name_lib where
  "demo_names = \<lparr>nm_toASCII = Some, nm_toUnicode = Some, nm_publicSuffix = (\<lambda>_. ''io''), nm_etldPlusOne = Some\<rparr>"

definition demo_libs :: libraries where
  "demo_libs = \<lparr>lb_names = demo_names, lb_json = demo_codec, lb_parseTime = (\<lambda>_ _. None), lb_parseIP = (\<lambda>_. None),
     lb_parseCIDR = (\<lambda>_. None), lb_showIP = (\<lambda>_. []), lb_showNet = (\<lambda>_. [])\<rparr>"

definition demo_world :: world where
  "demo_world = \<lparr>wd_rdap = demo_rdap, wd_net = demo_net, wd_hosts = demo_clock\<rparr>"

definition demo_deployment :: "unit deployment" where
  "demo_deployment = \<lparr>dp_platform = demo_platform, dp_transport = NewTransport 0, dp_parseURL = demo_parse,
     dp_client = demo_client, dp_netReg = None\<rparr>"

definition demo_times :: lookup_clock where
  "demo_times = \<lparr>lc_get = 1, lc_evict = 1, lc_age = 1, lc_fetched = 2, lc_set = 3\<rparr>"

definition demo_start :: "unit guard option rstate" where
  "demo_start = \<lparr>st_guard = None, st_cache = NewMemory\<rparr>"

definition fresh :: options where
  "fresh = \<lparr>op_MaxAge = 0, op_IncludeContacts = True, op_SkipRegistrarReferral = False\<rparr>"

lemma demo_codec_ok: "codec_ok (lb_json demo_libs)"
  by (auto simp: codec_ok_def demo_libs_def demo_codec_def demo_report_def bare_report_def split: tristate.splits)

lemma demo_name: "NormalizeQuery (lb_names demo_libs) ''x.io'' = Inr demo_q"
  by code_simp

lemma demo_rdap_query:
  "up_rdap (connect demo_deployment demo_world) None demo_q skip =
     (Inr \<lparr>rq_Domain = None, rq_Raw = [], rq_Servers = [''https://a/'', ''https://b/''], rq_Registered = No,
           rq_Warnings = [Note ''boom'']\<rparr>, None)"
  by (simp add: connect_def demo_deployment_def demo_world_def QueryWithOptions_def demo_bases unguarded_do demo_parse_def
      demo_rdap_def Let_def empty_rdap_def captured_def capture_def last_exchange_def rdap_warn_def truncate_text_def)

lemma demo_ascii: "qu_ASCII demo_q = ''x.io''"
  by (simp add: demo_q_def)

lemma demo_lookup:
  "\<exists>rep. LookupDomain demo_libs (connect demo_deployment demo_world) NewResolver demo_times demo_start ''x.io'' fresh =
     (Inr rep, store demo_libs NewResolver demo_times (cacheKey ''x.io'') rep demo_start) \<and> rp_Registered rep = No"
  by (auto simp: demo_rdap_query LookupDomain_def demo_name lookupOnce_def cached_value_def fresh_def fetch_report_def demo_start_def
      Let_def rdap_report_state land_def applyOptions_def demo_ascii)

section \<open>Properties\<close>

text \<open>A name is reported as free only on evidence. Start the resolver with an empty cache, run any
  sequence of lookups, raw lookups and network lookups, with any behaviour of the guard, the RDAP
  endpoints and the WHOIS servers, and then look a name up: if the report says that it is not registered, then in
  that call or an earlier one an RDAP endpoint answered the question for that very name with the explicit
  error, or a WHOIS server answered the query for it with a text classified as a denial. The JSON codec
  is assumed to keep the answer of the reports it can read back.\<close>

theorem free_only_on_evidence:
  assumes "codec_ok (lb_json L)"
    and "run (resolver_step L D r) (\<lparr>st_guard = g, st_cache = NewMemory\<rparr>, []) ops = (s, ws)"
    and "LookupDomain L (connect D w) r ck s input opt = (Inr rep, s')" and "rp_Registered rep = No"
  shows "\<exists>q w'. NormalizeQuery (lb_names L) input = Inr q \<and> w' \<in> set (w # map op_world ops) \<and> denies w' (qu_ASCII q)"
  using lookup_evidence [OF assms] .

theorem free_only_on_evidence_witness:
  "\<exists>q w'. NormalizeQuery (lb_names demo_libs) ''x.io'' = Inr q \<and> w' \<in> {demo_world} \<and> denies w' (qu_ASCII q)"
proof -
  obtain rep s' where l: "LookupDomain demo_libs (connect demo_deployment demo_world) NewResolver demo_times
      \<lparr>st_guard = None, st_cache = NewMemory\<rparr> ''x.io'' fresh = (Inr rep, s')" "rp_Registered rep = No"
    using demo_lookup unfolding demo_start_def by blast
  have "run (resolver_step demo_libs demo_deployment NewResolver) (\<lparr>st_guard = None, st_cache = NewMemory\<rparr>, []) [] =
      (\<lparr>st_guard = None, st_cache = NewMemory\<rparr>, [])" by simp
  from free_only_on_evidence [OF demo_codec_ok this l] show ?thesis by simp
qed

lemma report_miss [simp]:
  "so_Cache (rp_Source (rdap_report L q t res)) = ''miss''"
  "so_Cache (rp_Source (unknown_report q t ws)) = ''miss''"
  "so_Cache (rp_Source (whois_report L q t w)) = ''miss''"
  by (simp_all add: rdap_report_def FromRDAP_def bare_report_def unknown_report_def bare_source_def whois_report_def
      FromWHOIS_def Let_def split: option.split)

lemma viaWHOIS_miss: "viaWHOIS L U s q t b = (rep, s') \<Longrightarrow> so_Cache (rp_Source rep) = ''miss''"
  by (auto simp: viaWHOIS_def split: option.splits prod.splits sum.splits)

lemma fetch_report_miss:
  assumes "fetch_report L U r ck s q opt = (Inr rep, s')"
  shows "so_Cache (rp_Source rep) = ''miss''"
proof -
  obtain x g where rdap: "up_rdap U (st_guard s) q (op_SkipRegistrarReferral opt) = (x, g)" by fastforce
  show ?thesis
  proof (cases x)
    case (Inl e)
    then show ?thesis using assms rdap
      by (cases e) (auto simp: fetch_report_def Let_def dest: viaWHOIS_miss split: prod.splits)
  next
    case (Inr y)
    then show ?thesis using assms rdap
      by (auto simp: fetch_report_def Let_def dest: viaWHOIS_miss split: prod.splits if_splits)
  qed
qed

lemma lookupOnce_fresh:
  "lookupOnce L U r ck s input opt = (Inr rep, s') \<Longrightarrow> op_MaxAge opt \<le> 0 \<Longrightarrow> so_Cache (rp_Source rep) = ''miss''"
  by (auto simp: lookupOnce_def cached_value_def dest: fetch_report_miss split: sum.splits prod.splits option.splits)

text \<open>Collapsed lookups stay separate where it matters. When a second caller joins the flight of a first
  one, both ask for the same domain, and the second gets exactly the first one's report reduced to what
  the second asked for: contacts are left out for it alone, a demand for a fresh answer is never met
  from the cache, and a failure of the flight is a failure for both.\<close>

theorem collapsed_callers:
  assumes "joins L (input, opt) (input', opt')"
    and "collapsed L U r ck s (input, opt) (input', opt') = (res, res', s')"
  shows "\<exists>q q'. NormalizeQuery (lb_names L) input = Inr q \<and> NormalizeQuery (lb_names L) input' = Inr q' \<and>
    qu_ASCII q = qu_ASCII q' \<and>
    (case fst (lookupOnce L U r ck s input opt) of
       Inl e \<Rightarrow> res = Inl e \<and> res' = Inl e
     | Inr rep \<Rightarrow> res = Inr (applyOptions opt rep) \<and> res' = Inr (applyOptions opt' rep) \<and>
         (op_MaxAge opt' \<le> 0 \<longrightarrow> so_Cache (rp_Source rep) = ''miss''))"
proof -
  from assms(1) obtain q q' where q: "NormalizeQuery (lb_names L) input = Inr q" "NormalizeQuery (lb_names L) input' = Inr q'"
    and k: "flightKey (qu_ASCII q) opt = flightKey (qu_ASCII q') opt'"
    by (auto simp: joins_def split: sum.splits)
  from k have "qu_ASCII q = qu_ASCII q'" "op_MaxAge opt \<le> 0 \<longleftrightarrow> op_MaxAge opt' \<le> 0"
    by (auto simp: flightKey_def split: if_splits)
  with q assms(2) show ?thesis
    by (auto simp: collapsed_def land_def split: sum.splits prod.splits dest: lookupOnce_fresh)
qed

theorem collapsed_callers_witness:
  "\<exists>q q'. NormalizeQuery (lb_names demo_libs) ''x.io'' = Inr q \<and>
     NormalizeQuery (lb_names demo_libs) '' http://x.io/a'' = Inr q' \<and> qu_ASCII q = qu_ASCII q'"
proof -
  have j: "joins demo_libs (''x.io'', fresh) ('' http://x.io/a'', fresh\<lparr>op_IncludeContacts := False\<rparr>)" by code_simp
  obtain res res' s' where "collapsed demo_libs (connect demo_deployment demo_world) NewResolver demo_times demo_start
      (''x.io'', fresh) ('' http://x.io/a'', fresh\<lparr>op_IncludeContacts := False\<rparr>) = (res, res', s')"
    by (metis prod_cases3)
  from collapsed_callers [OF j this] show ?thesis by metis
qed

text \<open>Two callers with different tolerances share one flight: the key holds only whether the tolerance is positive.\<close>

lemma tolerance_not_in_key:
  "0 < op_MaxAge opt \<Longrightarrow> 0 < age \<Longrightarrow> flightKey a (opt\<lparr>op_MaxAge := age\<rparr>) = flightKey a opt"
  by (simp add: flightKey_def)

lemma store_get:
  assumes "js_report (lb_json L) rep = Some b" and "0 < TTLFor (sv_policy r) (rp_Registered rep)"
    and "t \<le> lc_set ck + TTLFor (sv_policy r) (rp_Registered rep)"
  shows "CacheGet (st_cache (store L r ck key rep s)) key t t' = (Some b, st_cache (store L r ck key rep s))"
  using assms by (simp add: store_def put_value_def CacheSet_def CacheGet_def)



text \<open>The lifetimes stay ordered under every sequence of policy changes: an ambiguous answer is never kept
  longer than a denial, nor a denial longer than a registration, and none for no time at all.\<close>

lemma policy_always_ordered:
  defines "p \<equiv> \<lambda>ps. sv_policy (foldl (\<lambda>r x. snd (WithTTLPolicy r x)) NewResolver ps)"
  shows "Valid (p ps) \<and> TTLFor (p ps) tristate.Unknown \<le> TTLFor (p ps) No \<and> TTLFor (p ps) No \<le> TTLFor (p ps) Yes"
proof -
  have step: "Valid (sv_policy r) \<and> Ordered (sv_policy r) \<Longrightarrow>
      Valid (sv_policy (foldl (\<lambda>r x. snd (WithTTLPolicy r x)) r ps)) \<and>
      Ordered (sv_policy (foldl (\<lambda>r x. snd (WithTTLPolicy r x)) r ps))" for r
    by (induction ps arbitrary: r) (auto simp: WithTTLPolicy_def)
  have "Valid (sv_policy NewResolver)" "Ordered (sv_policy NewResolver)"
    by (simp_all add: NewResolver_def DefaultTTLPolicy_def Valid_def Ordered_def hour_def minute_def)
  then show ?thesis using step [of NewResolver] by (simp add: p_def TTLFor_def Ordered_def)
qed

end
