(* ===== verification/Availability.thy ===== *)
theory Availability
  imports Resolution
begin

text \<open>
  The batch check of names: \<open>internal/resolve/availability.go\<close>. Each goroutine of a batch writes one slot; what it
  writes, a cancellation or the outcome of \<open>checkOne\<close> at the moment it runs, is the argument \<open>work\<close> of the
  batch, so that every schedule is covered.
\<close>

section \<open>One name\<close>

definition MaxBatch :: nat where "MaxBatch = 50"

datatype check_error = CheckCancelled | CheckFailed resolver_error

record avail =
  av_Domain :: string
  av_Registered :: tristate
  av_Source :: protocol
  av_CheckedAt :: time
  av_Cache :: string
  av_Warning :: "report_note option"
  av_Error :: "check_error option"

definition zero_avail :: "string \<Rightarrow> time \<Rightarrow> avail" where
  "zero_avail domain now = \<lparr>av_Domain = domain, av_Registered = tristate.Unknown, av_Source = ProtoNone,
     av_CheckedAt = now, av_Cache = [], av_Warning = None, av_Error = None\<rparr>"

definition check_options :: "duration \<Rightarrow> options" where
  "check_options maxAge = \<lparr>op_MaxAge = maxAge, op_IncludeContacts = False, op_SkipRegistrarReferral = True\<rparr>"

definition checkOne ::
    "libraries \<Rightarrow> 's upstreams \<Rightarrow> resolver \<Rightarrow> lookup_clock \<Rightarrow> time \<Rightarrow> 's rstate \<Rightarrow> string \<Rightarrow> duration \<Rightarrow> avail \<times> 's rstate" where
  "checkOne L U r ck now s input maxAge =
     (let a = zero_avail input now
      in case LookupDomain L U r ck s input (check_options maxAge) of
           (Inl e, s) \<Rightarrow> (a\<lparr>av_Error := Some (CheckFailed e)\<rparr>, s)
         | (Inr rep, s) \<Rightarrow>
             (a\<lparr>av_Domain := qu_ASCII (rp_Query rep), av_Registered := rp_Registered rep,
                av_Source := so_Protocol (rp_Source rep), av_Cache := so_Cache (rp_Source rep),
                av_CheckedAt := so_FetchedAt (rp_Source rep),
                av_Warning := (if rp_Registered rep = tristate.Unknown \<and> rp_Warnings rep \<noteq> []
                               then Some (hd (rp_Warnings rep)) else None)\<rparr>, s))"

section \<open>The batch\<close>

definition batch_key :: "string \<Rightarrow> string" where
  "batch_key d = to_lower (trim_space d)"

text \<open>The first pass from position \<open>i\<close>: where each name occurs first, and the positions to check.\<close>

fun plan :: "nat \<Rightarrow> string list \<Rightarrow> (string \<rightharpoonup> nat) \<Rightarrow> (string \<rightharpoonup> nat) \<times> nat list" where
  "plan i [] seen = (seen, [])"
| "plan i (d # ds) seen =
     (let key = batch_key d
      in if key = [] then (case plan (i + 1) ds seen of (f, order) \<Rightarrow> (f, i # order))
         else case seen key of
           Some j \<Rightarrow> plan (i + 1) ds seen
         | None \<Rightarrow> (case plan (i + 1) ds (seen(key \<mapsto> i)) of (f, order) \<Rightarrow> (f, i # order)))"

text \<open>The last pass: a duplicate takes the entry of the first occurrence.\<close>

fun fill_duplicates :: "(string \<rightharpoonup> nat) \<Rightarrow> nat \<Rightarrow> string list \<Rightarrow> avail list \<Rightarrow> avail list" where
  "fill_duplicates seen i [] out = out"
| "fill_duplicates seen i (d # ds) out =
     fill_duplicates seen (i + 1) ds
       (case seen (batch_key d) of
          Some j \<Rightarrow> if j \<noteq> i then out[i := out ! j] else out
        | None \<Rightarrow> out)"

definition CheckAvailability :: "(nat \<Rightarrow> string \<Rightarrow> avail) \<Rightarrow> string list \<Rightarrow> avail list" where
  "CheckAvailability work domains =
     (let ds = take MaxBatch domains
      in case plan 0 ds Map.empty of
           (seen, order) \<Rightarrow>
             (let out = map (\<lambda>d. zero_avail [] zero_time) ds;
                  out = foldl (\<lambda>out i. out[i := work i (ds ! i)]) out order
              in fill_duplicates seen 0 ds out))"

section \<open>Lemmas\<close>

text \<open>The first position of a name; a blank one stands for itself.\<close>

definition leader :: "string list \<Rightarrow> nat \<Rightarrow> nat" where
  "leader ds i = (if batch_key (ds ! i) = [] then i else LEAST j. batch_key (ds ! j) = batch_key (ds ! i))"

lemma leader_le: "leader ds i \<le> i" and leader_key: "batch_key (ds ! leader ds i) = batch_key (ds ! i)"
  by (auto simp: leader_def intro: Least_le LeastI)

lemma leader_leader: "leader ds (leader ds i) = leader ds i"
  by (subst leader_def, unfold leader_key) (simp add: leader_def)

text \<open>What the first pass has found before position \<open>i\<close>.\<close>

definition firsts :: "string list \<Rightarrow> nat \<Rightarrow> (string \<rightharpoonup> nat)" where
  "firsts ds i key = (if key \<noteq> [] \<and> (\<exists>j < i. batch_key (ds ! j) = key) then Some (LEAST j. batch_key (ds ! j) = key) else None)"

lemma firsts_Suc:
  assumes "batch_key (ds ! i) \<noteq> []"
  shows "firsts ds (Suc i) =
    (case firsts ds i (batch_key (ds ! i)) of None \<Rightarrow> (firsts ds i)(batch_key (ds ! i) \<mapsto> i) | Some _ \<Rightarrow> firsts ds i)"
proof -
  have least: "(LEAST j. batch_key (ds ! j) = batch_key (ds ! i)) = i"
    if "\<not> (\<exists>j < i. batch_key (ds ! j) = batch_key (ds ! i))"
    using that by (intro Least_equality) (auto simp: not_less [symmetric])
  show ?thesis using assms least
    by (intro ext) (auto simp: firsts_def less_Suc_eq split: option.split)
qed

lemma firsts_Suc_blank: "batch_key (ds ! i) = [] \<Longrightarrow> firsts ds (Suc i) = firsts ds i"
  by (intro ext) (auto simp: firsts_def less_Suc_eq)

lemma firsts_0: "firsts ds 0 = Map.empty"
  by (intro ext) (simp add: firsts_def)

lemma firsts_leader:
  "i < n \<Longrightarrow> firsts ds n (batch_key (ds ! i)) = (if batch_key (ds ! i) = [] then None else Some (leader ds i))"
  by (auto simp: firsts_def leader_def)

lemma firsts_none:
  "firsts ds i (batch_key (ds ! i)) = None \<longleftrightarrow> batch_key (ds ! i) = [] \<or> leader ds i = i"
proof (cases "batch_key (ds ! i) = []")
  case False
  show ?thesis
  proof (cases "\<exists>j < i. batch_key (ds ! j) = batch_key (ds ! i)")
    case True
    then have "(LEAST j. batch_key (ds ! j) = batch_key (ds ! i)) < i" by (meson Least_le le_less_trans)
    then show ?thesis using True False by (auto simp: firsts_def leader_def)
  next
    case f: False
    then have "(LEAST j. batch_key (ds ! j) = batch_key (ds ! i)) = i"
      by (intro Least_equality) (auto simp: not_less [symmetric])
    then show ?thesis using f False by (auto simp: firsts_def leader_def)
  qed
qed (simp add: firsts_def)

lemma plan_firsts:
  "i \<le> length ds \<Longrightarrow> plan i (drop i ds) (firsts ds i) =
     (firsts ds (length ds), filter (\<lambda>k. leader ds k = k) [i..<length ds])"
proof (induction "length ds - i" arbitrary: i)
  case (Suc n)
  then have d: "drop i ds = ds ! i # drop (Suc i) ds" and lt: "i < length ds" by (simp_all add: Cons_nth_drop_Suc)
  have IH: "plan (Suc i) (drop (Suc i) ds) (firsts ds (Suc i)) =
      (firsts ds (length ds), filter (\<lambda>k. leader ds k = k) [Suc i..<length ds])"
    using Suc.hyps(1) [of "Suc i"] Suc.hyps(2) lt by simp
  have up: "[i..<length ds] = i # [Suc i..<length ds]" using lt upt_conv_Cons by simp
  show ?case
  proof (cases "batch_key (ds ! i) = []")
    case True
    then show ?thesis using IH d up by (simp add: firsts_Suc_blank leader_def Let_def)
  next
    case False
    then show ?thesis using IH d up firsts_none [of ds i]
      by (auto simp: firsts_Suc Let_def split: option.splits)
  qed
qed (simp add: firsts_def)

lemma foldl_slots:
  "length (foldl (\<lambda>out i. out[i := f i]) out order) = length out"
  "k < length out \<Longrightarrow> foldl (\<lambda>out i. out[i := f i]) out order ! k = (if k \<in> set order then f k else out ! k)"
  by (induction order arbitrary: out) auto

lemma fill_length [simp]: "length (fill_duplicates seen i ds out) = length out"
  by (induction ds arbitrary: i out) (auto split: option.split)

lemma fill_duplicates_nth:
  assumes "i \<le> length ds" and "length out = length ds" and "k < length ds"
    and "\<And>j. j < i \<Longrightarrow> out ! j = v (leader ds j)" and "\<And>j. i \<le> j \<Longrightarrow> j < length ds \<Longrightarrow> leader ds j = j \<Longrightarrow> out ! j = v j"
  shows "fill_duplicates (firsts ds (length ds)) i (drop i ds) out ! k = v (leader ds k)"
  using assms
proof (induction "length ds - i" arbitrary: i out)
  case 0
  then show ?case by simp
next
  case (Suc n)
  then have d: "drop i ds = ds ! i # drop (Suc i) ds" and lt: "i < length ds" by (simp_all add: Cons_nth_drop_Suc)
  define out' where "out' = (case firsts ds (length ds) (batch_key (ds ! i)) of
      Some j \<Rightarrow> if j \<noteq> i then out[i := out ! j] else out | None \<Rightarrow> out)"
  have "out' ! i = v (leader ds i)"
  proof (cases "leader ds i = i")
    case True
    then show ?thesis using Suc.prems(5) [of i] lt by (auto simp: out'_def firsts_leader split: option.split)
  next
    case False
    then have "leader ds i < i" using leader_le [of ds i] by simp
    moreover have "batch_key (ds ! i) \<noteq> []" using False by (auto simp: leader_def)
    ultimately show ?thesis using Suc.prems(2,4) lt False leader_leader
      by (simp add: out'_def firsts_leader)
  qed
  moreover have "out' ! j = out ! j" if "j \<noteq> i" for j using that by (simp add: out'_def split: option.split)
  moreover have "length out' = length ds" using Suc.prems(2) by (simp add: out'_def split: option.split)
  ultimately have "fill_duplicates (firsts ds (length ds)) (Suc i) (drop (Suc i) ds) out' ! k = v (leader ds k)"
    using Suc.hyps lt Suc.prems(3-5) by (intro Suc.hyps(1)) (auto simp: less_Suc_eq)
  then show ?case using d by (simp add: out'_def)
qed

lemma CheckAvailability_nth:
  assumes "i < min MaxBatch (length domains)"
  shows "CheckAvailability work domains ! i =
    work (leader (take MaxBatch domains) i) (domains ! leader (take MaxBatch domains) i)"
proof -
  let ?ds = "take MaxBatch domains"
  have plan: "plan 0 ?ds Map.empty = (firsts ?ds (length ?ds), filter (\<lambda>k. leader ?ds k = k) [0..<length ?ds])"
    using plan_firsts [of 0 ?ds] by (simp add: firsts_0)
  have le: "leader ?ds i < MaxBatch" using leader_le [of ?ds i] assms by simp
  have "CheckAvailability work domains ! i = work (leader ?ds i) (?ds ! leader ?ds i)"
    unfolding CheckAvailability_def Let_def plan prod.case
    using fill_duplicates_nth [where i = 0 and ds = ?ds and k = i and v = "\<lambda>j. work j (?ds ! j)"] assms
    by (simp add: foldl_slots)
  then show ?thesis using le by simp
qed

lemma CheckAvailability_length: "length (CheckAvailability work domains) = min MaxBatch (length domains)"
  by (simp add: CheckAvailability_def Let_def foldl_slots min.commute split: prod.split)

lemma checkOne_free:
  "av_Registered (fst (checkOne L U r ck now s input age)) = No \<Longrightarrow>
     \<exists>rep s'. LookupDomain L U r ck s input (check_options age) = (Inr rep, s') \<and> rp_Registered rep = No"
  by (auto simp: checkOne_def zero_avail_def Let_def split: prod.splits sum.splits)

section \<open>Properties\<close>



text \<open>A batch reports a name as free only on evidence: let every goroutine of a batch find the resolver in some
  state that it reached from an empty cache by whatever calls came before, and in whatever world; an
  entry that says that its name is not registered then rests on an RDAP endpoint's explicit denial or a
  WHOIS denial of the name that entry was checked under, in that world or an earlier one.\<close>

theorem batch_free_only_on_evidence:
  assumes "codec_ok (lb_json L)"
    and "\<forall>j. run (resolver_step L D r) (\<lparr>st_guard = g, st_cache = NewMemory\<rparr>, []) (before j) = (s j, ws j)"
    and "work = (\<lambda>j d. if cancelled j then (zero_avail d (now j))\<lparr>av_Error := Some CheckCancelled\<rparr>
       else fst (checkOne L (connect D (w j)) r (ck j) (now j) (s j) d maxAge))"
    and "i < min MaxBatch (length domains)" and "av_Registered (CheckAvailability work domains ! i) = No"
  shows "\<exists>j q w'. j \<le> i \<and> batch_key (domains ! j) = batch_key (domains ! i) \<and>
    NormalizeQuery (lb_names L) (domains ! j) = Inr q \<and> w' \<in> set (w j # map op_world (before j)) \<and>
    denies w' (qu_ASCII q)"
proof -
  define j where "j = leader (take MaxBatch domains) i"
  have j: "j \<le> i" "batch_key (domains ! j) = batch_key (domains ! i)"
    using leader_le [of "take MaxBatch domains" i] leader_key [of "take MaxBatch domains" i] assms(4)
    by (auto simp: j_def)
  have "av_Registered (work j (domains ! j)) = No"
    using CheckAvailability_nth [OF assms(4), of work] assms(5) by (simp add: j_def)
  then have "av_Registered (fst (checkOne L (connect D (w j)) r (ck j) (now j) (s j) (domains ! j) maxAge)) = No"
    using assms(3) by (auto simp: zero_avail_def split: if_splits)
  from checkOne_free [OF this] obtain rep s' where l:
    "LookupDomain L (connect D (w j)) r (ck j) (s j) (domains ! j) (check_options maxAge) = (Inr rep, s')"
    "rp_Registered rep = No" by auto
  from lookup_evidence [OF assms(1) spec [OF assms(2), of j] l] j show ?thesis by blast
qed

theorem batch_free_only_on_evidence_witness:
  "\<exists>j q w'. j \<le> (0::nat) \<and> batch_key ([''x.io''] ! j) = batch_key ([''x.io''] ! 0) \<and>
    NormalizeQuery (lb_names demo_libs) ([''x.io''] ! j) = Inr q \<and> w' \<in> {demo_world} \<and> denies w' (qu_ASCII q)"
proof -
  let ?work = "\<lambda>j d. if False then (zero_avail d 0)\<lparr>av_Error := Some CheckCancelled\<rparr>
    else fst (checkOne demo_libs (connect demo_deployment demo_world) NewResolver demo_times 0
      \<lparr>st_guard = None, st_cache = NewMemory\<rparr> d 0)"
  have "av_Registered (?work 0 ''x.io'') = No"
    by (simp add: demo_rdap_query checkOne_def LookupDomain_def demo_name lookupOnce_def cached_value_def check_options_def
        fetch_report_def Let_def rdap_report_state land_def applyOptions_def)
  moreover have "CheckAvailability ?work [''x.io''] ! 0 = ?work 0 ''x.io''"
    using CheckAvailability_nth [of 0 "[''x.io'']" ?work] leader_le [of "take MaxBatch [''x.io'']" 0]
    by (simp add: MaxBatch_def)
  ultimately have no: "av_Registered (CheckAvailability ?work [''x.io''] ! 0) = No" by simp
  have run: "\<forall>j :: nat. run (resolver_step demo_libs demo_deployment NewResolver) (\<lparr>st_guard = None, st_cache = NewMemory\<rparr>, []) [] =
      (\<lparr>st_guard = None, st_cache = NewMemory\<rparr>, [])" by simp
  from batch_free_only_on_evidence [OF demo_codec_ok run refl _ no] show ?thesis by (simp add: MaxBatch_def)
qed

end
