(* ===== verification/Mcp_Tools.thy ===== *)
theory Mcp_Tools
  imports OAuth_Grants Availability
begin

text \<open>
  The MCP tools: \<open>internal/mcpsrv\<close>. A handler is a function of its input and of the state it works on, the
  resolver's or the authorization server's, to its reply and the state after it. The registration of the
  tools with the SDK, the schemas and the JSON encoding of an error are left out: an error reply carries
  the \<open>ToolError\<close> itself. What the texts need of other packages are the members of \<open>tool_lib\<close>: the text of an
  error and of a warning, whether an error wraps one of the two context errors, the RFC 3339 form of a
  time, and the number of runes that \<open>fmt\<close> pads by.
\<close>

section \<open>Replies and errors\<close>

datatype context_error = DeadlineExceeded | Canceled

record tool_lib =
  tl_error :: "resolver_error \<Rightarrow> string"
  tl_context :: "resolver_error \<Rightarrow> context_error option"
  tl_storeError :: "store_error \<Rightarrow> string"
  tl_note :: "report_note \<Rightarrow> string"
  tl_rfc3339 :: "time \<Rightarrow> string"
  tl_runes :: "string \<Rightarrow> nat"

record toolError =
  te_Error :: string
  te_Message :: string
  te_Domain :: string
  te_TLD :: string

datatype 'a reply = ToolFailure toolError | ToolSuccess string 'a

definition errorResultCode :: "string \<Rightarrow> string \<Rightarrow> string \<Rightarrow> 'a reply" where
  "errorResultCode code domain message =
     ToolFailure \<lparr>te_Error = code, te_Message = message, te_Domain = domain, te_TLD = []\<rparr>"

text \<open>The switch of \<open>errorResult\<close>: an invalid name, a context error, then a missing service.\<close>

definition errorCode :: "tool_lib \<Rightarrow> resolver_error \<Rightarrow> string" where
  "errorCode T err =
     (case err of
        InvalidDomain _ \<Rightarrow> ''invalid_domain''
      | _ \<Rightarrow>
          (case tl_context T err of
             Some DeadlineExceeded \<Rightarrow> ''upstream_timeout''
           | Some Canceled \<Rightarrow> ''cancelled''
           | None \<Rightarrow> if err = RdapFailed ErrNoRDAPService then ''no_service_for_tld'' else ''internal_error''))"

definition errorResult :: "tool_lib \<Rightarrow> string \<Rightarrow> resolver_error \<Rightarrow> 'a reply" where
  "errorResult T domain err = errorResultCode (errorCode T err) domain (tl_error T err)"

definition netErrorResult :: "tool_lib \<Rightarrow> string \<Rightarrow> resolver_error \<Rightarrow> 'a reply" where
  "netErrorResult T resource err =
     (case err of
        InvalidResource _ \<Rightarrow>
          errorResultCode ''invalid_resource'' [] (''not an IP address, CIDR prefix, or ASN: '' @ resource)
      | NetFailed (ErrNoRDAPForResource _ _) \<Rightarrow>
          errorResultCode ''unallocated_resource'' []
            (''no Regional Internet Registry publishes a record for '' @ resource @
             ''; it is most likely private, reserved, or unallocated space'')
      | ErrNoNetRegistry \<Rightarrow>
          errorResultCode ''not_configured'' [] ''IP and ASN lookups are not enabled on this server''
      | _ \<Rightarrow>
          (case tl_context T err of
             Some DeadlineExceeded \<Rightarrow> errorResultCode ''upstream_timeout'' [] (tl_error T err)
           | Some Canceled \<Rightarrow> errorResultCode ''cancelled'' [] (tl_error T err)
           | None \<Rightarrow> errorResultCode ''internal_error'' [] (tl_error T err)))"

definition insufficientScope :: "string \<Rightarrow> 'a reply" where
  "insufficientScope scope =
     errorResultCode ''insufficient_scope'' []
       (''this tool requires the '' @ scope @ '' scope; re-authorize requesting it'')"

section \<open>Texts\<close>

definition newline :: string where "newline = [CHR 0x0A]"
definition em_dash :: string where "em_dash = [CHR 0xE2, CHR 0x80, CHR 0x94]"
definition en_dash :: string where "en_dash = [CHR 0xE2, CHR 0x80, CHR 0x93]"

fun tristate_text :: "tristate \<Rightarrow> string" where
  "tristate_text Yes = ''yes''"
| "tristate_text No = ''no''"
| "tristate_text tristate.Unknown = ''unknown''"

fun protocol_text :: "protocol \<Rightarrow> string" where
  "protocol_text ProtoNone = []"
| "protocol_text ProtoRDAP = ''rdap''"
| "protocol_text ProtoWHOIS = ''whois''"

definition format_int :: "int \<Rightarrow> string" where
  "format_int n = (if n < 0 then ''-'' @ format_uint (nat (- n)) else format_uint (nat n))"

definition pad_right :: "tool_lib \<Rightarrow> nat \<Rightarrow> string \<Rightarrow> string" where
  "pad_right T w s = s @ replicate (w - tl_runes T s) (CHR '' '')"

definition date_text :: "tool_lib \<Rightarrow> string \<Rightarrow> time option \<Rightarrow> string" where
  "date_text T label d = (case d of None \<Rightarrow> [] | Some t \<Rightarrow> '' '' @ label @ ''='' @ tl_rfc3339 T t)"

definition source_text :: "source \<Rightarrow> string" where
  "source_text so = ''source: '' @ protocol_text (so_Protocol so) @ '' via '' @ join (so_Servers so) '', '' @
     '' (cache '' @ so_Cache so @ '')'' @ newline"

definition warning_text :: "tool_lib \<Rightarrow> report_note list \<Rightarrow> string" where
  "warning_text T ws = concat (map (\<lambda>w. ''warning: '' @ tl_note T w @ newline) ws)"

definition redacted_count :: "entity list \<Rightarrow> nat" where
  "redacted_count es = length (filter en_Redacted es)"

definition summarize :: "tool_lib \<Rightarrow> domainReport \<Rightarrow> string" where
  "summarize T r =
     (let q = rp_Query r; d = rp_Dates r; n = redacted_count (rp_Entities r)
      in trim_right
        (qu_ASCII q @ '' '' @ em_dash @ '' registered: '' @ tristate_text (rp_Registered r) @
         (if qu_RegistrableDomain q \<noteq> qu_ASCII q then '' ('' @ qu_RegistrableDomain q @ '')'' else []) @ newline @
         (case rp_Registrar r of
            None \<Rightarrow> []
          | Some rr \<Rightarrow>
              if rr_Name rr = [] then []
              else ''registrar: '' @ rr_Name rr @
                (if rr_IANAID rr \<noteq> 0 then '' (IANA '' @ format_int (rr_IANAID rr) @ '')'' else []) @ newline) @
         (if da_Created d \<noteq> None \<or> da_Expires d \<noteq> None then
            ''dates:'' @ date_text T ''created'' (da_Created d) @ date_text T ''updated'' (da_Updated d) @
            date_text T ''expires'' (da_Expires d) @ newline
          else []) @
         (if rp_Nameservers r \<noteq> [] then ''nameservers: '' @ join (map nv_Host (rp_Nameservers r)) '', '' @ newline else []) @
         (if rp_Statuses r \<noteq> [] then ''status: '' @ join (rp_Statuses r) '', '' @ newline else []) @
         (if 0 < n then ''contacts: '' @ format_uint n @ '' of '' @ format_uint (length (rp_Entities r)) @
            '' withheld by the registry'' @ newline else []) @
         source_text (rp_Source r) @ warning_text T (rp_Warnings r)) newline)"

definition summarizeNet :: "tool_lib \<Rightarrow> netReport \<Rightarrow> string" where
  "summarizeNet T r =
     (let d = np_Dates r; n = redacted_count (np_Entities r)
      in trim_right
        (nq_Normalized (np_Query r) @ '' ('' @ np_Kind r @ '')'' @
         (if np_Name r \<noteq> [] then '' '' @ em_dash @ '' '' @ np_Name r else []) @ newline @
         (if np_ASNRange r \<noteq> [] then ''allocation: AS'' @ np_ASNRange r @ newline
          else if np_StartAddress r \<noteq> [] then
            ''range: '' @ np_StartAddress r @ '' '' @ en_dash @ '' '' @ np_EndAddress r @
            (if np_IPVersion r \<noteq> [] then '' ('' @ np_IPVersion r @ '')'' else []) @ newline
          else []) @
         (if np_Type r \<noteq> [] then ''type: '' @ np_Type r @ newline else []) @
         (if np_Country r \<noteq> [] then
            ''registered country: '' @ np_Country r @ '' (administrative, not the location of any host)'' @ newline else []) @
         (if np_Statuses r \<noteq> [] then ''status: '' @ join (np_Statuses r) '', '' @ newline else []) @
         (if np_ParentHandle r \<noteq> [] then ''parent allocation: '' @ np_ParentHandle r @ newline else []) @
         (if da_Created d \<noteq> None \<or> da_Updated d \<noteq> None then
            ''dates:'' @ date_text T ''registered'' (da_Created d) @ date_text T ''updated'' (da_Updated d) @ newline
          else []) @
         (if np_Entities r \<noteq> [] then
            ''contacts: '' @ format_uint (length (np_Entities r)) @
            (if 0 < n then '' ('' @ format_uint n @ '' withheld by the registry)'' else []) @ newline
          else []) @
         source_text (np_Source r) @ warning_text T (np_Warnings r)) newline)"

definition summarizeRaw :: "tool_lib \<Rightarrow> rawResponse \<Rightarrow> string" where
  "summarizeRaw T r =
     protocol_text (rw_Protocol r) @ '' raw response for '' @ qu_ASCII (rw_Query r) @ newline @
     (if rw_Servers r \<noteq> [] then ''servers: '' @ join (rw_Servers r) '' -> '' @ newline else []) @
     ''fetched: '' @ tl_rfc3339 T (rw_FetchedAt r) @ '' (cache '' @ rw_Cache r @ '')'' @
     (if rw_Truncated r then newline @ ''warning: the response was truncated at the size cap'' else []) @
     concat (map (\<lambda>w. newline @ ''warning: '' @ tl_note T w) (rw_Warnings r)) @
     newline @ newline @ rw_Body r"

section \<open>Lookups\<close>

text \<open>A tolerance given in seconds: the product of two 64-bit values.\<close>

definition max_age :: "duration \<Rightarrow> int option \<Rightarrow> duration" where
  "max_age dflt seconds = (case seconds of None \<Rightarrow> dflt | Some n \<Rightarrow> wrap64 (n * second))"

record lookupInput =
  li_Domain :: string
  li_IncludeContacts :: "bool option"
  li_MaxAgeSeconds :: "int option"

definition lookup_options :: "lookupInput \<Rightarrow> options" where
  "lookup_options inp =
     \<lparr>op_MaxAge = max_age hour (li_MaxAgeSeconds inp),
      op_IncludeContacts = (case li_IncludeContacts inp of None \<Rightarrow> True | Some b \<Rightarrow> b),
      op_SkipRegistrarReferral = False\<rparr>"

definition lookupHandler ::
    "tool_lib \<Rightarrow> libraries \<Rightarrow> 's upstreams \<Rightarrow> resolver \<Rightarrow> lookup_clock \<Rightarrow> 's rstate \<Rightarrow> lookupInput \<Rightarrow>
     domainReport reply \<times> 's rstate" where
  "lookupHandler T L U r ck s inp =
     (case LookupDomain L U r ck s (li_Domain inp) (lookup_options inp) of
        (Inl err, s) \<Rightarrow> (errorResult T (li_Domain inp) err, s)
      | (Inr rep, s) \<Rightarrow> (ToolSuccess (summarize T rep) rep, s))"

record availabilityOutput =
  ao_Results :: "avail list"
  ao_Truncated :: bool

definition summarizeAvailability :: "availabilityOutput \<Rightarrow> string" where
  "summarizeAvailability out =
     (let named = (\<lambda>st. map av_Domain (filter (\<lambda>r. av_Registered r = st) (ao_Results out)));
          taken = named Yes; free = named No; unknown = named tristate.Unknown;
          line = (\<lambda>label names. if names \<noteq> [] then label @ '': '' @ join names '', '' @ newline else [])
      in trim_right
        (format_uint (length (ao_Results out)) @ '' checked: '' @ format_uint (length taken) @ '' registered, '' @
         format_uint (length free) @ '' available, '' @ format_uint (length unknown) @ '' unknown'' @ newline @
         line ''available'' free @ line ''registered'' taken @
         line (''unknown (could NOT determine '' @ em_dash @ '' do not treat as available)'') unknown @
         (if ao_Truncated out then
            ''note: only the first '' @ format_uint MaxBatch @ '' domains were checked'' @ newline else [])) newline)"

text \<open>\<open>work\<close> is what the goroutines of the batch write under a tolerance, as in \<open>CheckAvailability\<close>.\<close>

definition availabilityHandler ::
    "(duration \<Rightarrow> nat \<Rightarrow> string \<Rightarrow> avail) \<Rightarrow> string list \<Rightarrow> int option \<Rightarrow> availabilityOutput reply" where
  "availabilityHandler work domains seconds =
     (if domains = [] then errorResultCode ''invalid_domain'' [] ''domains must contain at least one entry''
      else
        let out = \<lparr>ao_Results = CheckAvailability (work (max_age (5 * minute) seconds)) domains,
                   ao_Truncated = (MaxBatch < length domains)\<rparr>
        in ToolSuccess (summarizeAvailability out) out)"

definition ipLookupHandler ::
    "bool \<Rightarrow> token_info option \<Rightarrow> tool_lib \<Rightarrow> libraries \<Rightarrow> 's upstreams \<Rightarrow> lookup_clock \<Rightarrow> 's rstate \<Rightarrow> string \<Rightarrow> int option \<Rightarrow>
     netReport reply \<times> 's rstate" where
  "ipLookupHandler enforce info T L U ck s resource seconds =
     (if RequireScope info ScopeRead \<noteq> Inr () \<and> enforce then (insufficientScope ScopeRead, s)
      else if trim_space resource = [] then (errorResultCode ''invalid_request'' [] ''resource is required'', s)
      else case LookupResource L U ck s resource (max_age TTLNet seconds) of
        (Inl err, s) \<Rightarrow> (netErrorResult T resource err, s)
      | (Inr rep, s) \<Rightarrow> (ToolSuccess (summarizeNet T rep) rep, s))"

definition rawHandler ::
    "bool \<Rightarrow> token_info option \<Rightarrow> protocol \<Rightarrow> tool_lib \<Rightarrow> libraries \<Rightarrow> 's upstreams \<Rightarrow> lookup_clock \<Rightarrow> 's rstate \<Rightarrow> string \<Rightarrow>
     int option \<Rightarrow> rawResponse reply \<times> 's rstate" where
  "rawHandler enforce info proto T L U ck s domain seconds =
     (if RequireScope info ScopeRaw \<noteq> Inr () \<and> enforce then (insufficientScope ScopeRaw, s)
      else
        let maxAge = max_age TTLRaw seconds
        in case (if proto = ProtoRDAP then RawRDAP L U ck s domain maxAge else RawWHOIS L U ck s domain maxAge) of
             (Inl err, s) \<Rightarrow> (errorResult T domain err, s)
           | (Inr out, s) \<Rightarrow> (ToolSuccess (summarizeRaw T out) out, s))"

section \<open>How a TLD is served\<close>

record tldInfoOutput =
  to_TLD :: string
  to_HasRDAP :: bool
  to_RDAPEndpoint :: "string list"
  to_WHOISHost :: string
  to_Path :: string
  to_Quirk :: string
  to_BootstrapPublished :: time
  to_BootstrapStale :: bool
  to_Note :: string

text \<open>The \<open>Why\<close> of the quirks.\<close>

definition quirk_why :: "(string \<times> string) list" where
  "quirk_why =
     [(''de'', ''DENIC defaults to a legacy format and rejects a bare domain with an error; -T dn,ace selects the domain object in ACE encoding.''),
      (''jp'', ''JPRS answers in Japanese unless the /e suffix requests English.''),
      (''com'', ''Some Verisign hosts treat a bare string as a broad search and return a truncated match list; the domain keyword pins it to an exact lookup.''),
      (''net'', ''Same Verisign behaviour as .com.''),
      (''fr'', ''AFNIC is standards-clean but rate-limits aggressively per IP; listed so the rate-limit budget at M3 has an entry to attach to.''),
      (''dk'', ''DK Hostmaster omits handle detail unless asked.''),
      (''nl'', ''SIDN'' @ [CHR 0x27] @ ''s referral line points at a registrar web form rather than a WHOIS service, so following it wastes a hop and a deadline.''),
      (''kr'', ''KISA answers in Korean by default on some paths but honours no query flag; listed so its unusual spaced-dotted date format is discoverable from tld_info rather than only from the parser table.''),
      (''br'', ''NIC.br publishes registrar handles rather than a registrar WHOIS host, so there is nothing to refer to and a referral attempt only costs a deadline.''),
      (''au'', ''auDA is registry-only by policy '' @ em_dash @ '' it publishes no dates and no registrar WHOIS server '' @ em_dash @ '' so a referral hop finds nothing.''),
      (''eu'', ''EURid'' @ [CHR 0x27] @ ''s referral points at a registrar website, not a WHOIS service.''),
      (''ru'', ''TCI publishes an admin-contact URL rather than a registrar WHOIS host; following it is a wasted hop.''),
      (''ch'', ''SWITCH rate-limits aggressively per IP and phrases its negative as a sentence with no keyword; listed so both facts are visible in tld_info alongside the parser template.''),
      (''it'', ''IIT-CNR reports registrar detail inline and publishes no registrar WHOIS host.'')]"

definition no_rdap_note :: string where
  "no_rdap_note = ''no RDAP service published for this TLD; a lookup uses port-43 WHOIS, which is parsed heuristically and reports a parse_confidence below 1.0''"

text \<open>\<open>marshal\<close> is \<open>json.MarshalIndent\<close>, whose error the handler ignores.\<close>

definition tldInfoHandler ::
    "(tldInfoOutput \<Rightarrow> string) \<Rightarrow> registry \<Rightarrow> time \<Rightarrow> string \<Rightarrow> tldInfoOutput reply" where
  "tldInfoHandler marshal reg now input =
     (let tld = lastLabel (to_lower (trim_space (trim_prefix input ''.'')))
      in if tld = [] then errorResultCode ''invalid_domain'' [] ''tld must not be empty''
         else
           let out = \<lparr>to_TLD = tld, to_HasRDAP = (Lookup reg tld \<noteq> None),
                 to_RDAPEndpoint = (case Lookup reg tld of Some bases \<Rightarrow> bases | None \<Rightarrow> []),
                 to_WHOISHost = SeedHost tld,
                 to_Path = protocol_text (if Lookup reg tld \<noteq> None then ProtoRDAP else ProtoWHOIS),
                 to_Quirk = (case QuirkFor tld of
                               None \<Rightarrow> []
                             | Some _ \<Rightarrow> (case map_of quirk_why (normalizeTLD tld) of Some w \<Rightarrow> w | None \<Rightarrow> [])),
                 to_BootstrapPublished = rg_publication reg, to_BootstrapStale = (24 * hour < Age reg now),
                 to_Note = (if Lookup reg tld \<noteq> None then [] else no_rdap_note)\<rparr>
           in ToolSuccess (marshal out) out)"

record bootstrapResource =
  bs_Published :: time
  bs_LoadedAt :: time
  bs_Stale :: bool
  bs_TLDCount :: nat
  bs_FromNetwork :: bool
  bs_RDAPTLDs :: "string list"
  bs_QuirkTLDs :: "string list"
  bs_WHOISFallback :: string

text \<open>\<open>QuirkTLDs\<close> in the iteration order of the map, then sorted; \<open>ord\<close> and \<open>qord\<close> are the two orders.\<close>

definition QuirkTLDs :: "string list \<Rightarrow> string list" where
  "QuirkTLDs qord = filter (\<lambda>t. map_of quirks t \<noteq> None) qord"

definition bootstrapResourceHandler ::
    "registry \<Rightarrow> string list \<Rightarrow> string list \<Rightarrow> time \<Rightarrow> bootstrapResource" where
  "bootstrapResourceHandler reg ord qord now =
     (let tlds = sort (TLDs reg ord)
      in \<lparr>bs_Published = rg_publication reg, bs_LoadedAt = rg_loadedAt reg, bs_Stale = (24 * hour < Age reg now),
          bs_TLDCount = length tlds, bs_FromNetwork = rg_fromNetwork reg, bs_RDAPTLDs = tlds,
          bs_QuirkTLDs = sort (QuirkTLDs qord),
          bs_WHOISFallback = ''TLDs absent from this list are served over port-43 WHOIS, discovered via whois.iana.org and parsed with a per-host template or a heuristic fallback''\<rparr>)"

section \<open>Sessions\<close>

record sessionView =
  vw_SID :: string
  vw_Label :: string
  vw_Scopes :: "string list"
  vw_CreatedAt :: time
  vw_LastSeen :: time
  vw_ExpiresAt :: time
  vw_Rotations :: int
  vw_Revoked :: bool
  vw_Current :: bool

record sessionListOutput =
  sl_Sessions :: "sessionView list"
  sl_Count :: nat

definition session_view :: "string \<Rightarrow> session \<Rightarrow> sessionView" where
  "session_view current s =
     \<lparr>vw_SID = sess_ID s, vw_Label = sess_Label s, vw_Scopes = sess_Scopes s, vw_CreatedAt = sess_CreatedAt s,
      vw_LastSeen = sess_LastSeen s, vw_ExpiresAt = sess_ExpiresAt s, vw_Rotations = sess_Rotations s,
      vw_Revoked = sess_Revoked s, vw_Current = (sess_ID s = current)\<rparr>"

definition session_line :: "tool_lib \<Rightarrow> sessionView \<Rightarrow> string" where
  "session_line T v =
     vw_SID v @ ''  '' @ pad_right T 24 (vw_Label v) @ '' scopes='' @ join (vw_Scopes v) '','' @ '' last_seen='' @
     tl_rfc3339 T (vw_LastSeen v) @ '' rotations='' @ format_int (vw_Rotations v) @
     (if vw_Revoked v then '' REVOKED'' else []) @ (if vw_Current v then '' (this session)'' else []) @ newline"

definition summarizeSessions :: "tool_lib \<Rightarrow> sessionListOutput \<Rightarrow> string" where
  "summarizeSessions T out =
     (if sl_Count out = 0 then ''no sessions enrolled''
      else trim_right (format_uint (sl_Count out) @ '' session(s)'' @ newline @
             concat (map (session_line T) (sl_Sessions out))) newline)"

text \<open>\<open>ord\<close> is the iteration order of the session map.\<close>

definition sessionListHandler ::
    "bool \<Rightarrow> token_info option \<Rightarrow> tool_lib \<Rightarrow> string list \<Rightarrow> server_state \<Rightarrow> sessionListOutput reply" where
  "sessionListHandler enforce info T ord s =
     (if RequireScope info ScopeAdmin \<noteq> Inr () \<and> enforce then insufficientScope ScopeAdmin
      else
        let sessions = SessionList (sv_sessions s) ord;
            out = \<lparr>sl_Sessions = map (session_view (SessionID info)) sessions, sl_Count = length sessions\<rparr>
        in ToolSuccess (summarizeSessions T out) out)"

record sessionRevokeOutput =
  ro_SID :: string
  ro_Revoked :: bool
  ro_SelfRevoked :: bool
  ro_Note :: string

definition revoke_note :: "bool \<Rightarrow> string" where
  "revoke_note self =
     (if self then ''this is the session making the call; its access token stops working within 10 minutes and its refresh token is already dead''
      else ''refresh tokens are dead immediately; access tokens stop working within 10 minutes'')"

text \<open>\<open>denied_at\<close> is the denylist's own clock reading.\<close>

definition sessionRevokeHandler ::
    "bool \<Rightarrow> token_info option \<Rightarrow> tool_lib \<Rightarrow> string \<Rightarrow> time \<Rightarrow> time \<Rightarrow> server_state \<Rightarrow>
     sessionRevokeOutput reply \<times> server_state" where
  "sessionRevokeHandler enforce info T input now denied_at s =
     (if RequireScope info ScopeAdmin \<noteq> Inr () \<and> enforce then (insufficientScope ScopeAdmin, s)
      else
        let sid = trim_space input
        in if sid = [] then (errorResultCode ''invalid_request'' [] ''sid is required'', s)
           else case Revoke (sv_sessions s) sid now of
             (Inl (store_error.ErrNoSession x), m) \<Rightarrow>
               (errorResultCode ''not_found'' [] (''no such session: '' @ sid), s\<lparr>sv_sessions := m\<rparr>)
           | (Inl e, m) \<Rightarrow> (errorResultCode ''internal_error'' [] (tl_storeError T e), s\<lparr>sv_sessions := m\<rparr>)
           | (Inr _, m) \<Rightarrow>
               (let s = s\<lparr>sv_sessions := m, sv_deny := deny_add (sv_deny s) sid denied_at\<rparr>;
                    self = (sid = SessionID info);
                    out = \<lparr>ro_SID = sid, ro_Revoked = True, ro_SelfRevoked = self, ro_Note = revoke_note self\<rparr>
                in (ToolSuccess (''revoked '' @ sid @ '': '' @ ro_Note out) out, s)))"

section \<open>The tools\<close>

definition PrivilegedTools :: "(string \<times> string) list" where
  "PrivilegedTools = [(''rdap_raw'', ScopeRaw), (''whois_raw'', ScopeRaw), (''session_list'', ScopeAdmin),
     (''session_revoke'', ScopeAdmin)]"

text \<open>The tools that \<open>New\<close> registers, with and without sessions and network lookups.\<close>

definition registered_tools :: "bool \<Rightarrow> bool \<Rightarrow> string list" where
  "registered_tools sessions netLookups =
     [''domain_lookup'', ''domain_availability'', ''tld_info'', ''rdap_raw'', ''whois_raw''] @
     (if sessions then [''session_list'', ''session_revoke''] else []) @
     (if netLookups then [''ip_lookup''] else [])"

section \<open>Where a WHOIS report comes from\<close>

lemma FromWHOIS_protocol: "so_Protocol (rp_Source (FromWHOIS q p t servers fetched cache raw)) = ProtoWHOIS"
  by (simp add: FromWHOIS_def bare_report_def Let_def split: option.split)

lemma viaWHOIS_protocol:
  "viaWHOIS L U s q fetched b = (rep, s') \<Longrightarrow> so_Protocol (rp_Source rep) = ProtoWHOIS"
  by (auto simp: viaWHOIS_def unknown_report_def whois_report_def bare_report_def bare_source_def Let_def FromWHOIS_protocol
      split: option.splits prod.splits sum.splits if_splits)

lemma applyOptions_source [simp]: "rp_Source (applyOptions opt rep) = rp_Source rep"
  by (simp add: applyOptions_def)

section \<open>A revoked session stays dead\<close>

lemma store_dead:
  "Rotate m old new now = (r, m') \<Longrightarrow> dead m sid \<Longrightarrow> dead m' sid"
  "Revoke m x now = (u, m') \<Longrightarrow> dead m sid \<Longrightarrow> dead m' sid"
  "IssueRefresh m x tok now = (u, m') \<Longrightarrow> dead m sid \<Longrightarrow> dead m' sid"
  "Create m y = (u, m') \<Longrightarrow> dead m sid \<Longrightarrow> dead m' sid"
  using store_step_dead [of m sid "OpRotate old new now"] store_step_dead [of m sid "OpRevoke x now"]
    store_step_dead [of m sid "OpIssueRefresh x tok now"] store_step_dead [of m sid "OpCreate y"]
  by simp_all

definition keeps_dead :: "server_state \<Rightarrow> server_state \<Rightarrow> bool" where
  "keeps_dead s s' \<longleftrightarrow> (\<forall>sid. dead (sv_sessions s) sid \<longrightarrow> dead (sv_sessions s') sid)"

lemma authorize_keeps_dead: "keeps_dead s (snd (handleAuthorize cf s meth addr f dr))"
  by (auto simp: handleAuthorize_def authorizePOST_def authorize_enrolled_def keeps_dead_def Let_def
      dest: store_dead split: option.split prod.split sum.split)

lemma token_keeps_dead: "keeps_dead s (snd (handleToken cf s meth f dr))"
proof -
  have "keeps_dead s (snd (grant_from_session cf s sess dr))" for s sess
    by (auto simp: grant_from_session_def firstRefresh_def keeps_dead_def dest: store_dead
        split: option.split prod.split sum.split)
  then have "keeps_dead s (snd (tokenFromCode cf s q dr))" for q
    by (fastforce simp: tokenFromCode_def keeps_dead_def Let_def split: prod.split sum.split)
  moreover have "keeps_dead s (snd (tokenFromRefresh cf s q dr))" for q
    by (auto simp: tokenFromRefresh_def keeps_dead_def Let_def dest: store_dead split: option.split prod.split sum.split)
  ultimately show ?thesis by (auto simp: handleToken_def Let_def keeps_dead_def split: option.split)
qed

lemma revoke_keeps_dead: "keeps_dead s (snd (handleRevoke cf s meth f dr))"
  by (auto simp: handleRevoke_def revokeSession_def keeps_dead_def dest: store_dead
      split: option.split prod.split sum.split)

lemma server_step_keeps_dead: "keeps_dead s (server_step cf s x)"
  using authorize_keeps_dead token_keeps_dead revoke_keeps_dead
  by (cases x) (auto simp: keeps_dead_def)

lemma server_run_keeps_dead: "dead (sv_sessions s) sid \<Longrightarrow> dead (sv_sessions (run (server_step cf) s xs)) sid"
  using server_step_keeps_dead by (induction xs arbitrary: s) (auto simp: keeps_dead_def)

text \<open>The token endpoint mints only for a session that is not dead.\<close>

definition minted_for :: "server_cfg \<Rightarrow> string \<Rightarrow> string \<Rightarrow> bool" where
  "minted_for cf tok sid \<longleftrightarrow> (\<exists>label scopes tm rnd c. Mint (al_jose (cf_lib cf)) (cf_issuer cf) sid label scopes tm rnd = Inr (tok, c))"

lemma minted_forI: "Mint (al_jose (cf_lib cf)) (cf_issuer cf) sid label scopes tm rnd = Inr (tok, c) \<Longrightarrow> minted_for cf tok sid"
  unfolding minted_for_def by blast

lemma grant_mints:
  "grant_from_session cf s sess dr = (RespToken tr, s') \<Longrightarrow> minted_for cf (tr_AccessToken tr) (sess_ID sess)"
  by (auto simp: grant_from_session_def token_reply_def dest: minted_forI split: sum.splits prod.splits option.splits)

lemma token_from_code_alive:
  assumes "store_inv (sv_sessions s)" and "tokenFromCode cf s q dr = (RespToken tr, s')"
  shows "\<exists>sid. minted_for cf (tr_AccessToken tr) sid \<and> \<not> dead (sv_sessions s) sid"
proof -
  obtain res cs where cons: "Consume (al_sha (cf_lib cf)) (sv_codes s) (q ''code'') (q ''code_verifier'') (q ''redirect_uri'')
      (q ''client_id'') (td_consume dr) = (res, cs)" by fastforce
  with assms(2) obtain code where code: "res = Inr code"
    by (cases res) (auto simp: tokenFromCode_def invalid_target_def code_failure_def split: if_splits)
  with assms(2) cons obtain sess where sess: "Get (sv_sessions s) (code_SessionID code) = Inr sess"
    by (cases "Get (sv_sessions s) (code_SessionID code)")
      (auto simp: tokenFromCode_def Let_def invalid_target_def split: if_splits)
  with assms(2) cons code have c: "Active (Some sess) (td_active dr)"
      "grant_from_session cf (s\<lparr>sv_codes := cs\<rparr>) sess dr = (RespToken tr, s')"
    by (auto simp: tokenFromCode_def Let_def invalid_target_def split: if_splits)
  then have "\<not> dead (sv_sessions s) (sess_ID sess)"
    using store_inv_sid [OF assms(1)] sess by (fastforce simp: Get_def dead_def Active_def split: option.splits)
  then show ?thesis using grant_mints [OF c(2)] by blast
qed

lemma token_from_refresh_alive:
  assumes "store_inv (sv_sessions s)" and "tokenFromRefresh cf s q dr = (RespToken tr, s')"
  shows "\<exists>sid. minted_for cf (tr_AccessToken tr) sid \<and> \<not> dead (sv_sessions s) sid"
proof -
  from assms(2) obtain nxt sess m c where r: "Rotate (sv_sessions s) (q ''refresh_token'') nxt (td_now dr) = (Inr sess, m)"
      "Mint (al_jose (cf_lib cf)) (cf_issuer cf) (sess_ID sess) (sess_Label sess) (sess_Scopes sess) (td_mint dr) (td_jti dr)
         = Inr (tr_AccessToken tr, c)"
    by (auto simp: tokenFromRefresh_def Let_def invalid_target_def token_reply_def
        split: if_splits option.splits prod.splits sum.splits)
  then have "\<not> dead (sv_sessions s) (sess_ID sess)" using Rotate_dead [OF assms(1) _ r(1)] by blast
  then show ?thesis using minted_forI [OF r(2)] by blast
qed

lemma token_alive:
  assumes "store_inv (sv_sessions s)" and "handleToken cf s meth f dr = (RespToken tr, s')"
  shows "\<exists>sid. minted_for cf (tr_AccessToken tr) sid \<and> \<not> dead (sv_sessions s) sid"
  using assms token_from_code_alive token_from_refresh_alive
  by (auto simp: handleToken_def Let_def split: if_splits option.splits)

lemma session_revokeD:
  assumes "sessionRevokeHandler enforce info T input now da s = (ToolSuccess txt out, s')"
  shows "ro_SID out = trim_space input" and "trim_space input \<noteq> []"
    and "enforce \<Longrightarrow> HasScope info ScopeAdmin"
    and "\<exists>m. Revoke (sv_sessions s) (trim_space input) now = (Inr (), m) \<and>
       s' = s\<lparr>sv_sessions := m, sv_deny := deny_add (sv_deny s) (trim_space input) da\<rparr>"
  using assms
  by (auto simp: sessionRevokeHandler_def insufficientScope_def errorResultCode_def Let_def RequireScope_def
      split: if_splits prod.splits sum.splits store_error.splits)

section \<open>Properties\<close>

text \<open>Revoking a session with the admin tool is final. When \<open>session_revoke\<close> reports success the caller held the
  admin scope, if scopes are enforced; from then on, whatever requests the authorization server handles,
  the session stays revoked, none of its refresh tokens is live, and every access token the token endpoint
  hands out is minted for another session; and the denylist refuses the session's access tokens for a
  whole token lifetime.\<close>

theorem admin_revocation_is_final:
  assumes "server_inv s" and "sessionRevokeHandler True info T input now da s = (ToolSuccess txt out, s')"
    and "s'' = run (server_step cf) s' reqs"
  shows "HasScope info ScopeAdmin \<and> dead (sv_sessions s'') (ro_SID out) \<and> (\<nexists>t. live_token (sv_sessions s'') (ro_SID out) t) \<and>
    (\<forall>meth f dr tr s3. handleToken cf s'' meth f dr = (RespToken tr, s3) \<longrightarrow>
       (\<exists>sid. sid \<noteq> ro_SID out \<and> minted_for cf (tr_AccessToken tr) sid)) \<and>
    (\<forall>d t. sv_deny s = Some d \<and> t \<le> da + dl_ttl d \<longrightarrow> (\<exists>d'. sv_deny s' = Some d' \<and> fst (Denied d' (ro_SID out) t)))"
proof -
  define sid where "sid = trim_space input"
  from session_revokeD [OF assms(2)] obtain m where r: "ro_SID out = sid" "sid \<noteq> []" "HasScope info ScopeAdmin"
      "Revoke (sv_sessions s) sid now = (Inr (), m)" "s' = s\<lparr>sv_sessions := m, sv_deny := deny_add (sv_deny s) sid da\<rparr>"
    by (auto simp: sid_def)
  have "dead m sid" using r(4) by (auto simp: Revoke_def dead_def split: option.splits)
  then have dead: "dead (sv_sessions s'') sid" using server_run_keeps_dead r(5) assms(3) by simp
  have "auth_inv m (sv_codes s)" using auth_inv_Revoke r(4) assms(1) server_inv_auth by metis
  then have "server_inv s'" using r(5) server_inv_auth by simp
  then have inv: "store_inv (sv_sessions s'')" using server.run_inv assms(3) by (simp add: server_inv_def)
  have "\<exists>x. x \<noteq> sid \<and> minted_for cf (tr_AccessToken tr) x" if "handleToken cf s'' meth f dr = (RespToken tr, s3)" for meth f dr tr s3
    proof -
    from token_alive [OF inv that] obtain x where "minted_for cf (tr_AccessToken tr) x" "\<not> dead (sv_sessions s'') x" by auto
    moreover from this(2) dead have "x \<noteq> sid" by auto
    ultimately show ?thesis by auto
  qed
  then have mint: "\<forall>meth f dr tr s3. handleToken cf s'' meth f dr = (RespToken tr, s3) \<longrightarrow>
      (\<exists>x. x \<noteq> sid \<and> minted_for cf (tr_AccessToken tr) x)" by simp
  have "\<exists>d'. sv_deny s' = Some d' \<and> fst (Denied d' sid t)" if "sv_deny s = Some d" "t \<le> da + dl_ttl d" for d t
    using denied_after_add [OF r(2) that(2)] that(1) r(5) by (simp add: deny_add_def)
  then have deny: "\<forall>d t. sv_deny s = Some d \<and> t \<le> da + dl_ttl d \<longrightarrow> (\<exists>d'. sv_deny s' = Some d' \<and> fst (Denied d' sid t))"
    by simp
  show ?thesis unfolding r(1) by (intro conjI r(3) dead dead_family [OF inv dead] mint deny)
qed


lemma demo_revoke:
  "\<exists>txt out s'. sessionRevokeHandler True (Some \<lparr>ti_Scopes = [ScopeAdmin], ti_Expiration = 9, ti_UserID = ''s2'', ti_label = [], ti_jti = []\<rparr>)
     T ''s1'' 9 9 demo_rotated = (ToolSuccess txt out, s') \<and> ro_SID out = ''s1''"
proof -
  have "st_sessions (sv_sessions demo_rotated) ''s1'' \<noteq> None"
    using demo_rotated_tokens(2) store_inv_tok [of "sv_sessions demo_rotated"] demo_rotated_inv
    by (fastforce simp: spent_token_def server_inv_def)
  moreover have "trim_space ''s1'' = ''s1''" by code_simp
  ultimately show ?thesis
    by (auto simp: sessionRevokeHandler_def RequireScope_def HasScope_def Revoke_def Let_def)
qed

definition demo_tools :: tool_lib where
  "demo_tools = \<lparr>tl_error = (\<lambda>_. []), tl_context = (\<lambda>_. None), tl_storeError = (\<lambda>_. []), tl_note = (\<lambda>_. []),
     tl_rfc3339 = (\<lambda>_. []), tl_runes = length\<rparr>"

theorem admin_revocation_is_final_witness:
  "\<exists>txt out s'. sessionRevokeHandler True (Some \<lparr>ti_Scopes = [ScopeAdmin], ti_Expiration = 9, ti_UserID = ''s2'', ti_label = [], ti_jti = []\<rparr>)
     demo_tools ''s1'' 9 9 demo_rotated = (ToolSuccess txt out, s') \<and>
     dead (sv_sessions (run (server_step demo_cfg) s' [ReqMCP demo_token 9])) ''s1''"
proof -
  from demo_revoke [of demo_tools] obtain w res s' where r: "sessionRevokeHandler True
      (Some \<lparr>ti_Scopes = [ScopeAdmin], ti_Expiration = 9, ti_UserID = ''s2'', ti_label = [], ti_jti = []\<rparr>)
      demo_tools ''s1'' 9 9 demo_rotated = (ToolSuccess w res, s')" "ro_SID res = ''s1''" by blast
  have "dead (sv_sessions (run (server_step demo_cfg) s' [ReqMCP demo_token 9])) (ro_SID res)"
    using admin_revocation_is_final [OF demo_rotated_inv r(1) refl, of demo_cfg "[ReqMCP demo_token 9]"] by blast
  then show ?thesis unfolding r(2) using r(1) by (intro exI conjI)
qed



text \<open>\<open>tld_info\<close> predicts how a lookup is served. If it describes the TLD of a name, over the registry that the lookups
  use, then a query for the name either asks exactly the endpoints that it lists, in their order, or, when
  the path is WHOIS, asks no RDAP endpoint at all, and what a fresh lookup reports comes from WHOIS.\<close>

theorem tld_info_predicts_path:
  assumes "tldInfoHandler marshal (cl_reg (dp_client D)) now input = ToolSuccess t out"
    and "NormalizeQuery (lb_names L) domain = Inr q" and "to_TLD out = qu_TLD q"
  shows "(to_Path out = ''rdap'' \<longrightarrow>
      QueryWithOptions P pu env (dp_client D) q skip g =
        query_bases P pu env (qu_ASCII q) (cl_followRegistrar (dp_client D) \<and> \<not> skip) (to_RDAPEndpoint out) 0 None empty_rdap g) \<and>
    (to_Path out \<noteq> ''rdap'' \<longrightarrow> to_Path out = ''whois'' \<and>
      QueryWithOptions P pu env (dp_client D) q skip g = (Inl ErrNoRDAPService, g) \<and>
      (\<forall>opt rep s'. op_MaxAge opt \<le> 0 \<longrightarrow> LookupDomain L (connect D w) r ck s domain opt = (Inr rep, s') \<longrightarrow>
         so_Protocol (rp_Source rep) = ProtoWHOIS))"
proof (cases "Lookup (cl_reg (dp_client D)) (qu_TLD q)")
  case None
  then have path: "to_Path out = ''whois''" and nq: "\<And>P pu env skip g. QueryWithOptions P pu env (dp_client D) q skip g = (Inl ErrNoRDAPService, g)"
    using assms by (auto simp: tldInfoHandler_def QueryWithOptions_def Let_def errorResultCode_def split: if_splits)
  have "so_Protocol (rp_Source rep) = ProtoWHOIS"
    if "op_MaxAge opt \<le> 0" and "LookupDomain L (connect D w) r ck s domain opt = (Inr rep, s')" for opt rep s'
  proof -
    have u: "up_rdap (connect D w) g q skip = (Inl ErrNoRDAPService, g)" for g skip by (simp add: connect_def nq)
    from that assms(2) obtain rep0 s1 s2 b where "viaWHOIS L (connect D w) s1 q (lc_fetched ck) b = (rep0, s2)"
        "rep = applyOptions opt rep0"
      by (auto simp: LookupDomain_def lookupOnce_def cached_value_def fetch_report_def u Let_def land_def split: prod.splits)
    then show ?thesis using viaWHOIS_protocol by (metis applyOptions_source)
  qed
  then show ?thesis using path nq by auto
next
  case (Some bases)
  then show ?thesis using assms
    by (auto simp: tldInfoHandler_def QueryWithOptions_def Let_def errorResultCode_def split: if_splits)
qed

theorem tld_info_predicts_path_witness:
  "\<exists>t out. tldInfoHandler (\<lambda>_. []) (cl_reg demo_client) 0 ''.io'' = ToolSuccess t out \<and> to_Path out = ''rdap'' \<and>
     fst (QueryWithOptions demo_platform demo_parse demo_rdap demo_client demo_q False None) =
     fst (query_bases demo_platform demo_parse demo_rdap ''x.io'' True (to_RDAPEndpoint out) 0 None empty_rdap None)"
proof -
  have l: "lastLabel (to_lower (trim_space (trim_prefix ''.io'' ''.''))) = ''io''" by (simp add: lastLabel_def text_eval)
  moreover have "Lookup (cl_reg demo_client) ''io'' = Some [''https://a/'', ''https://b/'']"
    using demo_bases by (simp add: demo_q_def)
  ultimately obtain t out where h: "tldInfoHandler (\<lambda>_. []) (cl_reg demo_client) 0 ''.io'' = ToolSuccess t out" "to_Path out = ''rdap''"
      "to_TLD out = ''io''"
    by (simp add: tldInfoHandler_def Let_def)
  have "dp_client demo_deployment = demo_client" "qu_TLD demo_q = ''io''" "qu_ASCII demo_q = ''x.io''" "cl_followRegistrar demo_client"
    by (simp_all add: demo_deployment_def demo_q_def demo_client_def)
  with tld_info_predicts_path [of "\<lambda>_. []" demo_deployment 0 "''.io''" t out demo_libs "''x.io''" demo_q
      demo_platform demo_parse demo_rdap False None] h demo_name
  show ?thesis by auto
qed

text \<open>A tolerance in seconds is taken exactly as long as it fits: up to 292 years either way. Beyond that it wraps:
  a caller who accepts an answer of any age gets one that forces a fresh lookup.\<close>

lemma max_age_exact: "\<bar>n\<bar> \<le> 9223372036 \<Longrightarrow> max_age d (Some n) = n * second"
  unfolding max_age_def by (simp add: second_def) (rule wrap64_id, auto)

lemma max_age_wraps: "max_age d (Some 9223372037) < 0" "max_age d (Some 18446744074) = 290448384"
  by (simp_all add: max_age_def second_def wrap64_def)

text \<open>The text of a batch accounts for every result, and an unknown one is never among the available.\<close>

lemma batch_text_partition:
  "length (filter (\<lambda>r. av_Registered r = Yes) rs) + length (filter (\<lambda>r. av_Registered r = No) rs) +
   length (filter (\<lambda>r. av_Registered r = tristate.Unknown) rs) = length rs"
proof (induction rs)
  case (Cons r rs)
  then show ?case by (cases "av_Registered r") auto
qed simp

text \<open>A full domain with its root dot has an empty last label, so \<open>tld_info\<close> refuses it.\<close>

lemma tld_info_refuses_root_dot:
  "tldInfoHandler marshal reg now ''example.com.'' = errorResultCode ''invalid_domain'' [] ''tld must not be empty''"
proof -
  have "lastLabel (to_lower (trim_space (trim_prefix ''example.com.'' ''.''))) = []"
    by (simp add: lastLabel_def text_eval)
  then show ?thesis by (simp add: tldInfoHandler_def)
qed

end
