(* ===== verification/Startup.thy ===== *)
theory Startup
  imports OAuth_Flow Breaker Whois_Text Netguard
begin

text \<open>
  Starting the server: the listen address (\<open>cmd/whois-mcp/listen.go\<close>), the authentication settings and the
  exposure rule (\<open>authsetup.go\<close>), and the parts of \<open>main.go\<close> and \<open>sessions.go\<close> that decide something: the loopback
  rule, readiness and the gauges. \<open>net.ParseIP\<close> and the environment are arguments.
\<close>

section \<open>The listen address\<close>

definition DefaultAddress :: string where "DefaultAddress = ''127.0.0.1''"
definition DefaultListenPort :: nat where "DefaultListenPort = 8080"
definition AllInterfaces :: string where "AllInterfaces = ''0.0.0.0''"

record listenFlags =
  lf_listen :: string
  lf_address :: string
  lf_port :: string

datatype listen_error =
    IsAPort string
  | NotHostPort string
  | NotAnAddress string
  | LooksLikeFlag string
  | NotAPort string
  | PortZero
  | PortOutside int

definition validateAddress :: "(string \<Rightarrow> ip option) \<Rightarrow> string \<Rightarrow> listen_error option" where
  "validateAddress parse_ip v =
     (if v = [] \<or> v = AllInterfaces \<or> v = ''::'' then None
      else if parse_ip v \<noteq> None then None
      else if contains_any v [CHR ''/'', CHR '':'', CHR ''@'', CHR '' '', CHR 0x09] then Some (NotAnAddress v)
      else if has_prefix v ''-'' then Some (LooksLikeFlag v)
      else None)"

definition validatePort :: "string \<Rightarrow> listen_error + string" where
  "validatePort v =
     (case atoi (trim_space v) of
        None \<Rightarrow> Inl (NotAPort v)
      | Some n \<Rightarrow>
          if n = 0 then Inl PortZero
          else if n < 1 \<or> 65535 < n then Inl (PortOutside n)
          else Inr (format_uint (nat n)))"

definition splitListen :: "(string \<Rightarrow> ip option) \<Rightarrow> string \<Rightarrow> listen_error + string \<times> string" where
  "splitListen parse_ip v =
     (case SplitHostPort v of
        None \<Rightarrow> Inl (if atoi v \<noteq> None then IsAPort v else NotHostPort v)
      | Some (h, p) \<Rightarrow>
          (case (if h \<noteq> [] then validateAddress parse_ip h else None) of
             Some e \<Rightarrow> Inl e
           | None \<Rightarrow> (case validatePort p of Inl e \<Rightarrow> Inl e | Inr p \<Rightarrow> Inr (h, p))))"

text \<open>One setting of the table: it is skipped when blank, and otherwise replaces its part of the address.\<close>

definition listen_tier ::
    "(string \<Rightarrow> ip option) \<Rightarrow> string \<Rightarrow> string \<Rightarrow> string \<times> string \<Rightarrow> (string \<times> listen_error) + string \<times> string" where
  "listen_tier parse_ip name v hp =
     (if trim_space v = [] then Inr hp
      else case splitListen parse_ip (trim_space v) of Inl e \<Rightarrow> Inl (name, e) | Inr hp \<Rightarrow> Inr hp)"

definition address_tier ::
    "(string \<Rightarrow> ip option) \<Rightarrow> string \<Rightarrow> string \<Rightarrow> string \<times> string \<Rightarrow> (string \<times> listen_error) + string \<times> string" where
  "address_tier parse_ip name v hp =
     (if trim_space v = [] then Inr hp
      else case validateAddress parse_ip (trim_space v) of
        Some e \<Rightarrow> Inl (name, e) | None \<Rightarrow> Inr (trim_space v, snd hp))"

definition port_tier :: "string \<Rightarrow> string \<Rightarrow> string \<times> string \<Rightarrow> (string \<times> listen_error) + string \<times> string" where
  "port_tier name v hp =
     (if trim_space v = [] then Inr hp
      else case validatePort (trim_space v) of Inl e \<Rightarrow> Inl (name, e) | Inr p \<Rightarrow> Inr (fst hp, p))"

fun and_then :: "'e + 'a \<Rightarrow> ('a \<Rightarrow> 'e + 'b) \<Rightarrow> 'e + 'b" where
  "and_then (Inl e) f = Inl e"
| "and_then (Inr x) f = f x"

definition resolveListen ::
    "(string \<Rightarrow> ip option) \<Rightarrow> listenFlags option \<Rightarrow> (string \<Rightarrow> string) \<Rightarrow> (string \<times> listen_error) + string" where
  "resolveListen parse_ip lf getenv =
     (let flag = (\<lambda>f. case lf of None \<Rightarrow> [] | Some lf \<Rightarrow> f lf)
      in and_then (listen_tier parse_ip ''WHOIS_MCP_LISTEN'' (getenv ''WHOIS_MCP_LISTEN'')
                     (DefaultAddress, format_uint DefaultListenPort)) (\<lambda>hp.
         and_then (address_tier parse_ip ''WHOIS_MCP_ADDRESS'' (getenv ''WHOIS_MCP_ADDRESS'') hp) (\<lambda>hp.
         and_then (port_tier ''WHOIS_MCP_PORT'' (getenv ''WHOIS_MCP_PORT'') hp) (\<lambda>hp.
         and_then (listen_tier parse_ip ''--listen'' (flag lf_listen) hp) (\<lambda>hp.
         and_then (address_tier parse_ip ''--address'' (flag lf_address) hp) (\<lambda>hp.
         and_then (port_tier ''--port'' (flag lf_port) hp) (\<lambda>(host, port).
           Inr (JoinHostPort host port))))))))"

section \<open>Settings and exposure\<close>

datatype loopback_error = BadListen | BindsAll | NotLoopback

definition requireLoopback :: "(string \<Rightarrow> ip option) \<Rightarrow> string \<Rightarrow> loopback_error option" where
  "requireLoopback parse_ip addr =
     (case SplitHostPort addr of
        None \<Rightarrow> Some BadListen
      | Some (host, _) \<Rightarrow>
          if host = [] then Some BindsAll
          else if host = ''localhost'' then None
          else (case parse_ip host of
                  None \<Rightarrow> Some NotLoopback
                | Some a \<Rightarrow> if IsLoopback a then None else Some NotLoopback))"

definition env :: "(string \<Rightarrow> string) \<Rightarrow> string \<Rightarrow> string \<Rightarrow> string" where
  "env getenv k def = (let v = trim_space (getenv k) in if v \<noteq> [] then v else def)"

record authConfig =
  ac_enrollmentToken :: string
  ac_signingKey :: string
  ac_publicURL :: string
  ac_devStaticBearer :: bool

definition loadAuthConfig :: "(string \<Rightarrow> string) \<Rightarrow> authConfig" where
  "loadAuthConfig getenv =
     \<lparr>ac_enrollmentToken = trim_space (env getenv ''WHOIS_MCP_ENROLLMENT_TOKEN'' []),
      ac_signingKey = trim_space (env getenv ''WHOIS_MCP_SIGNING_KEY'' []),
      ac_publicURL = trim_right (env getenv ''WHOIS_MCP_PUBLIC_URL'' []) ''/'',
      ac_devStaticBearer = (env getenv ''WHOIS_MCP_DEV_STATIC_BEARER'' [] = ''true'')\<rparr>"

datatype exposure_error = OpenProxy | BearerOffHost | NoPublicURL

definition checkExposure :: "(string \<Rightarrow> ip option) \<Rightarrow> string \<Rightarrow> authConfig \<Rightarrow> exposure_error option" where
  "checkExposure parse_ip listen ac =
     (let loopback = (requireLoopback parse_ip listen = None)
      in if ac_enrollmentToken ac = [] \<and> \<not> loopback then Some OpenProxy
         else if ac_devStaticBearer ac \<and> \<not> loopback then Some BearerOffHost
         else if ac_enrollmentToken ac \<noteq> [] \<and> \<not> loopback \<and> ac_publicURL ac = [] then Some NoPublicURL
         else None)"

definition requireHTTPSOffLoopback :: "string \<Rightarrow> bool" where
  "requireHTTPSOffLoopback publicURL \<longleftrightarrow>
     (let l = to_lower publicURL
      in has_prefix l ''https://'' \<or> has_prefix l ''http://127.0.0.1'' \<or> has_prefix l ''http://localhost'' \<or>
         has_prefix l ''http://[::1]'')"

text \<open>What \<open>buildAuth\<close> assembles: the issuer, the state of the authorization server, and the development
  bearer token, empty when the hatch is closed. The key that is generated, the salt and the rendering of
  the form come from outside, and each may fail.\<close>

record auth_stack =
  as_issuer :: issuer
  as_server :: server_state
  as_staticTok :: string

record setup_draws =
  sd_keypair :: "(string \<times> string) option"
  sd_salt :: "string option"
  sd_form :: bool

datatype start_error =
    BadListenSetting string listen_error
  | Exposed exposure_error
  | CleartextURL string
  | BadSigningKey key_error
  | NoKeyGenerated
  | BadEnrollment enroll_error
  | NoForm

definition PathMCP :: string where "PathMCP = ''/mcp''"

definition GenerateKey :: "keylib \<Rightarrow> (string \<times> string) option \<Rightarrow> keypair option" where
  "GenerateKey L drawn = map_option (\<lambda>(pub, priv). newKeyPair L pub priv) drawn"

definition buildKeyring :: "keylib \<Rightarrow> string \<Rightarrow> (string \<times> string) option \<Rightarrow> start_error + keyring" where
  "buildKeyring L spec drawn =
     (if spec = [] then (case GenerateKey L drawn of None \<Rightarrow> Inl NoKeyGenerated | Some kp \<Rightarrow> Inr (NewKeyring kp))
      else (case ParseKey L spec of Inl e \<Rightarrow> Inl (BadSigningKey e) | Inr kp \<Rightarrow> Inr (NewKeyring kp)))"

definition buildAuth ::
    "keylib \<Rightarrow> (string \<Rightarrow> string \<Rightarrow> string) \<Rightarrow> setup_draws \<Rightarrow> string \<Rightarrow> authConfig \<Rightarrow> memory_store \<Rightarrow>
     start_error + auth_stack option" where
  "buildAuth L argon dr listen ac sessions =
     (if ac_enrollmentToken ac = [] then Inr None
      else
        let publicURL = (if ac_publicURL ac = [] then ''http://'' @ listen else ac_publicURL ac)
        in if \<not> requireHTTPSOffLoopback publicURL then Inl (CleartextURL publicURL)
           else case buildKeyring L (ac_signingKey ac) (sd_keypair dr) of
             Inl e \<Rightarrow> Inl e
           | Inr keyring \<Rightarrow>
               (case NewEnrollment argon (ac_enrollmentToken ac) (sd_salt dr) of
                  Inl e \<Rightarrow> Inl (BadEnrollment e)
                | Inr enrollment \<Rightarrow>
                    if \<not> sd_form dr then Inl NoForm
                    else Inr (Some \<lparr>as_issuer = \<lparr>is_keys = keyring, is_issuer = publicURL, is_audience = publicURL @ PathMCP\<rparr>,
                      as_server = \<lparr>sv_sessions = sessions, sv_codes = NewCodeStore, sv_enroll = enrollment, sv_deny = Some NewDenylist\<rparr>,
                      as_staticTok = (if ac_devStaticBearer ac then ac_enrollmentToken ac else [])\<rparr>)))"

text \<open>The decisions of \<open>run\<close> before it serves, in its order: the listen address and, unless it runs without
  authentication, the stack that protects \<open>/mcp\<close>. The embedded snapshots and the tracer are left out: if they
  fail the start is refused too.\<close>

definition startup ::
    "(string \<Rightarrow> ip option) \<Rightarrow> keylib \<Rightarrow> (string \<Rightarrow> string \<Rightarrow> string) \<Rightarrow> setup_draws \<Rightarrow> listenFlags option \<Rightarrow>
     (string \<Rightarrow> string) \<Rightarrow> start_error + string \<times> auth_stack option" where
  "startup parse_ip L argon dr lf getenv =
     (case resolveListen parse_ip lf getenv of
        Inl (name, e) \<Rightarrow> Inl (BadListenSetting name e)
      | Inr listen \<Rightarrow>
          (let ac = loadAuthConfig getenv
           in case checkExposure parse_ip listen ac of
                Some e \<Rightarrow> Inl (Exposed e)
              | None \<Rightarrow>
                  (case buildAuth L argon dr listen ac NewMemoryStore of
                     Inl e \<Rightarrow> Inl e
                   | Inr stack \<Rightarrow> Inr (listen, stack))))"

definition withStaticBearer ::
    "(string \<Rightarrow> 'e + token_info) \<Rightarrow> string \<Rightarrow> time \<Rightarrow> string \<Rightarrow> 'e + token_info" where
  "withStaticBearer next token now presented =
     (if presented = token then
        Inr \<lparr>ti_Scopes = AllScopes, ti_Expiration = now + hour, ti_UserID = ''sess_dev_static'', ti_label = [], ti_jti = []\<rparr>
      else next presented)"

datatype readiness = Ready | RegistryEmpty | NotAuthenticated

definition readyz :: "(string \<Rightarrow> ip option) \<Rightarrow> nat \<Rightarrow> bool \<Rightarrow> string \<Rightarrow> readiness" where
  "readyz parse_ip tlds authenticated listen =
     (if tlds = 0 then RegistryEmpty
      else if \<not> authenticated \<and> requireLoopback parse_ip listen \<noteq> None then NotAuthenticated
      else Ready)"

section \<open>Gauges\<close>

definition activeSessions :: "memory_store \<Rightarrow> string list \<Rightarrow> time \<Rightarrow> nat" where
  "activeSessions m ord now = length (filter (\<lambda>s. Active (Some s) now) (SessionList m ord))"

text \<open>One round of \<open>publish\<close>: the hosts ever open, and the breaker gauge per host.\<close>

definition publish :: "string list \<Rightarrow> string set \<times> (string \<rightharpoonup> bool) \<Rightarrow> string set \<times> (string \<rightharpoonup> bool)" where
  "publish nowOpen st =
     (let known = fst st \<union> set nowOpen
      in (known, \<lambda>h. if h \<in> set nowOpen then Some True else if h \<in> known then Some False else snd st h))"

section \<open>Lemmas\<close>

text \<open>The first setting that is given decides.\<close>

fun pick :: "'a option list \<Rightarrow> 'a \<Rightarrow> 'a" where
  "pick [] d = d"
| "pick (Some x # xs) d = x"
| "pick (None # xs) d = pick xs d"

definition given :: "string \<Rightarrow> string option" where
  "given v = (if trim_space v = [] then None else Some (trim_space v))"

definition given_pair :: "string \<Rightarrow> (string \<times> string) option" where
  "given_pair v = (if trim_space v = [] then None else SplitHostPort (trim_space v))"

text \<open>A decimal port in canonical form.\<close>

definition port_text :: "string \<Rightarrow> string" where
  "port_text p = (case atoi (trim_space p) of Some n \<Rightarrow> format_uint (nat n) | None \<Rightarrow> p)"

definition port_ok :: "string \<Rightarrow> bool" where
  "port_ok p \<longleftrightarrow> (\<exists>n. 1 \<le> n \<and> n \<le> 65535 \<and> p = format_uint n)"

lemma validatePort_ok: "validatePort v = Inr p \<Longrightarrow> p = port_text v \<and> port_ok p"
proof -
  assume "validatePort v = Inr p"
  then obtain n where n: "atoi (trim_space v) = Some n" "\<not> n < 1" "\<not> 65535 < n" "p = format_uint (nat n)"
    by (auto simp: validatePort_def split: option.splits if_splits)
  then show ?thesis unfolding port_ok_def port_text_def by (auto intro!: exI [of _ "nat n"])
qed

lemma and_then_ok [simp]: "and_then x f = Inr y \<longleftrightarrow> (\<exists>z. x = Inr z \<and> f z = Inr y)"
  by (cases x) auto

text \<open>The address so far, against the raw texts it was chosen from.\<close>

definition chosen :: "string \<Rightarrow> string \<Rightarrow> string \<times> string \<Rightarrow> bool" where
  "chosen h x hp \<longleftrightarrow> fst hp = h \<and> snd hp = port_text x \<and> port_ok (snd hp)"

lemma chosen_start: "chosen DefaultAddress ''8080'' (DefaultAddress, format_uint DefaultListenPort)"
proof -
  have "trim_space ''8080'' = ''8080''" by (simp add: text_eval)
  moreover have "atoi ''8080'' = Some 8080" by code_simp
  ultimately have "atoi (trim_space ''8080'') = Some 8080" by simp
  then have "port_text ''8080'' = format_uint 8080" by (simp add: port_text_def)
  then show ?thesis unfolding chosen_def port_ok_def DefaultListenPort_def
    by (auto intro: exI [of _ "8080 :: nat"])
qed

lemma listen_tier_chosen:
  assumes "listen_tier pip n v hp = Inr hp'" and "chosen h x hp"
  shows "chosen (pick [map_option fst (given_pair v)] h) (pick [map_option snd (given_pair v)] x) hp'"
  using assms
  by (auto simp: listen_tier_def splitListen_def chosen_def given_pair_def dest: validatePort_ok
      split: if_splits option.splits sum.splits)

lemma address_tier_chosen:
  assumes "address_tier pip n v hp = Inr hp'" and "chosen h x hp"
  shows "chosen (pick [given v] h) x hp'"
  using assms by (auto simp: address_tier_def chosen_def given_def split: if_splits option.splits)

lemma port_tier_chosen:
  assumes "port_tier n v hp = Inr hp'" and "chosen h x hp"
  shows "chosen h (pick [given v] x) hp'"
  using assms by (auto simp: port_tier_def chosen_def given_def dest: validatePort_ok split: if_splits sum.splits)

lemma pick_nest: "pick [a] (pick xs d) = pick (a # xs) d"
  by (cases a) auto

section \<open>Properties\<close>

text \<open>The listen address follows the documented precedence: when the settings are accepted, the host is the
  first given of \<open>--address\<close>, the host of \<open>--listen\<close>, the address and then the listen variable of the
  environment, and loopback if none is given; the port is chosen likewise among the port settings, and is a
  number from 1 to 65535 in canonical form.\<close>

theorem listen_precedence:
  assumes "resolveListen pip lf getenv = Inr addr"
  shows "\<exists>host port. addr = JoinHostPort host port \<and> port_ok port \<and>
    (let flag = (\<lambda>f. case lf of None \<Rightarrow> [] | Some lf \<Rightarrow> f lf)
     in host = pick [given (flag lf_address), map_option fst (given_pair (flag lf_listen)),
                     given (getenv ''WHOIS_MCP_ADDRESS''), map_option fst (given_pair (getenv ''WHOIS_MCP_LISTEN''))]
                 DefaultAddress \<and>
        port = port_text (pick [given (flag lf_port), map_option snd (given_pair (flag lf_listen)),
                     given (getenv ''WHOIS_MCP_PORT''), map_option snd (given_pair (getenv ''WHOIS_MCP_LISTEN''))]
                 ''8080''))"
proof -
  define flag where "flag = (\<lambda>f. case lf of None \<Rightarrow> [] | Some lf \<Rightarrow> (f lf :: string))"
  from assms obtain a b c d e h p where t:
    "listen_tier pip ''WHOIS_MCP_LISTEN'' (getenv ''WHOIS_MCP_LISTEN'') (DefaultAddress, format_uint DefaultListenPort) = Inr a"
    "address_tier pip ''WHOIS_MCP_ADDRESS'' (getenv ''WHOIS_MCP_ADDRESS'') a = Inr b"
    "port_tier ''WHOIS_MCP_PORT'' (getenv ''WHOIS_MCP_PORT'') b = Inr c"
    "listen_tier pip ''--listen'' (flag lf_listen) c = Inr d" "address_tier pip ''--address'' (flag lf_address) d = Inr e"
    "port_tier ''--port'' (flag lf_port) e = Inr (h, p)" "addr = JoinHostPort h p"
    unfolding resolveListen_def Let_def and_then_ok flag_def by (auto split: prod.splits)
  note r = port_tier_chosen [OF t(6) address_tier_chosen [OF t(5) listen_tier_chosen [OF t(4)
    port_tier_chosen [OF t(3) address_tier_chosen [OF t(2) listen_tier_chosen [OF t(1) chosen_start]]]]]]
  then show ?thesis using t(7) unfolding chosen_def pick_nest flag_def Let_def by auto
qed

lemma demo_port: "format_uint DefaultListenPort = ''8080''" "format_uint 9 = ''9''"
proof -
  have c: "char_of (48 :: nat) = CHR ''0''" "char_of (56 :: nat) = CHR ''8''" "char_of (57 :: nat) = CHR ''9''"
    by (simp_all add: char_of_def bit_0)
  show "format_uint DefaultListenPort = ''8080''" "format_uint 9 = ''9''"
    by (simp_all add: DefaultListenPort_def format_uint.simps c)
qed

lemma demo_listen:
  "resolveListen parse_ip None (\<lambda>_. []) = Inr ''127.0.0.1:8080''" "trim_space [] = []"
  "resolveListen parse_ip (Some \<lparr>lf_listen = [], lf_address = [], lf_port = ''9''\<rparr>) (\<lambda>_. []) = Inr ''127.0.0.1:9''"
proof -
  have b: "trim_space [] = []" "trim_space ''9'' = ''9''" "atoi ''9'' = Some 9" by code_simp+
  show "resolveListen parse_ip None (\<lambda>_. []) = Inr ''127.0.0.1:8080''"
    by (simp add: resolveListen_def listen_tier_def address_tier_def port_tier_def b demo_port JoinHostPort_def DefaultAddress_def)
  show "resolveListen parse_ip (Some \<lparr>lf_listen = [], lf_address = [], lf_port = ''9''\<rparr>) (\<lambda>_. []) = Inr ''127.0.0.1:9''"
    by (simp add: resolveListen_def listen_tier_def address_tier_def port_tier_def validatePort_def b demo_port
        JoinHostPort_def DefaultAddress_def)
  show "trim_space [] = []" by (rule b(1))
qed

theorem listen_precedence_witness:
  "\<exists>host port. ''127.0.0.1:9'' = JoinHostPort host port \<and> port_ok port \<and> host = DefaultAddress \<and> port = port_text ''9''"
proof -
  have "trim_space ''9'' = ''9''" by (simp add: text_eval)
  with listen_precedence [OF demo_listen(3) [of "\<lambda>_. None"]] demo_listen(2) show ?thesis
    by (auto simp: given_def given_pair_def)
qed

text \<open>Off loopback the start is admitted only with authentication.\<close>

lemma startup_off_host:
  assumes "startup pip L argon dr lf getenv = Inr (listen, stack)" and "requireLoopback pip listen \<noteq> None"
  shows "\<exists>st. stack = Some st \<and> as_staticTok st = [] \<and>
       (let url = trim_right (trim_space (getenv ''WHOIS_MCP_PUBLIC_URL'')) ''/''
        in trim_space (getenv ''WHOIS_MCP_ENROLLMENT_TOKEN'') \<noteq> [] \<and> url \<noteq> [] \<and> requireHTTPSOffLoopback url \<and>
           is_issuer (as_issuer st) = url \<and> is_audience (as_issuer st) = url @ ''/mcp'')"
proof -
  define ac where "ac = loadAuthConfig getenv"
  from assms(1) have "checkExposure pip listen ac = None" and b: "buildAuth L argon dr listen ac NewMemoryStore = Inr stack"
    by (auto simp: startup_def ac_def Let_def split: sum.splits option.splits)
  with assms(2) have c: "ac_enrollmentToken ac \<noteq> []" "\<not> ac_devStaticBearer ac" "ac_publicURL ac \<noteq> []"
    by (auto simp: checkExposure_def Let_def split: if_splits)
  with b obtain st where "stack = Some st" "as_staticTok st = []" "requireHTTPSOffLoopback (ac_publicURL ac)"
      "is_issuer (as_issuer st) = ac_publicURL ac" "is_audience (as_issuer st) = ac_publicURL ac @ ''/mcp''"
    by (auto simp: buildAuth_def Let_def PathMCP_def split: sum.splits if_splits)
  moreover have "ac_publicURL ac = trim_right (trim_space (getenv ''WHOIS_MCP_PUBLIC_URL'')) ''/''"
      "trim_space (getenv ''WHOIS_MCP_ENROLLMENT_TOKEN'') \<noteq> []"
    using c(1) by (auto simp: ac_def loadAuthConfig_def env_def Let_def demo_listen(2) split: if_splits)
  ultimately show ?thesis using c(3) by (auto simp: Let_def)
qed

text \<open>C4. The server is never open to the network without authentication. Whatever the flags and the environment,
  if the start is not refused, then the server listens on a loopback address, or the endpoint is protected by
  an authorization server: an enrollment secret is set and is not accepted as a bearer token, and the issuer
  of the tokens is the public URL that the operator gave, which passes the cleartext rule, with \<open>/mcp\<close> under
  it as their audience.\<close>

theorem never_open_without_authentication:
  assumes "startup pip L argon dr lf getenv = Inr (listen, stack)"
  shows "(\<exists>host port. SplitHostPort listen = Some (host, port) \<and>
      (host = ''localhost'' \<or> (\<exists>a. pip host = Some a \<and> IsLoopback a))) \<or>
    (\<exists>st. stack = Some st \<and> as_staticTok st = [] \<and>
       (let url = trim_right (trim_space (getenv ''WHOIS_MCP_PUBLIC_URL'')) ''/''
        in trim_space (getenv ''WHOIS_MCP_ENROLLMENT_TOKEN'') \<noteq> [] \<and> url \<noteq> [] \<and> requireHTTPSOffLoopback url \<and>
           is_issuer (as_issuer st) = url \<and> is_audience (as_issuer st) = url @ ''/mcp''))"
proof (cases "requireLoopback pip listen")
  case None
  then show ?thesis by (auto simp: requireLoopback_def split: option.splits if_splits prod.splits)
next
  case (Some e)
  with startup_off_host [OF assms] show ?thesis by blast
qed

definition demo_env :: "string \<Rightarrow> string" where
  "demo_env k = (if k = ''WHOIS_MCP_LISTEN'' then '':9'' else if k = ''WHOIS_MCP_ENROLLMENT_TOKEN'' then ''s''
     else if k = ''WHOIS_MCP_PUBLIC_URL'' then ''https://w/'' else [])"

definition demo_keylib :: keylib where
  "demo_keylib = \<lparr>kl_sha = id, kl_from_seed = id, kl_public = id, kl_pkcs8 = Some\<rparr>"

lemma demo_started:
  "\<exists>st. startup (\<lambda>_. None) demo_keylib (\<lambda>p s. p) \<lparr>sd_keypair = Some (pub, priv), sd_salt = Some ''n'', sd_form = True\<rparr>
       None demo_env = Inr ('':9'', Some st) \<and>
     as_issuer st = \<lparr>is_keys = NewKeyring (newKeyPair demo_keylib pub priv), is_issuer = ''https://w'', is_audience = ''https://w/mcp''\<rparr>"
proof -
  have e: "demo_env ''WHOIS_MCP_LISTEN'' = '':9''" "demo_env ''WHOIS_MCP_ADDRESS'' = []" "demo_env ''WHOIS_MCP_PORT'' = []"
    by (simp_all add: demo_env_def)
  have v: "trim_space '':9'' = '':9''" "SplitHostPort '':9'' = Some ([], ''9'')" "trim_space ''9'' = ''9''" "atoi ''9'' = Some 9"
      "JoinHostPort [] ''9'' = '':9''"
    by code_simp+
  have l: "resolveListen (\<lambda>_. None) None demo_env = Inr '':9''"
    by (simp add: resolveListen_def listen_tier_def address_tier_def port_tier_def splitListen_def validatePort_def e v
        demo_listen(2) demo_port)
  have c: "loadAuthConfig demo_env = \<lparr>ac_enrollmentToken = ''s'', ac_signingKey = [], ac_publicURL = ''https://w'',
      ac_devStaticBearer = False\<rparr>" "trim_space ''s'' = ''s''" "requireHTTPSOffLoopback ''https://w''" by code_simp+
  show ?thesis
    by (simp add: startup_def l c checkExposure_def buildAuth_def buildKeyring_def GenerateKey_def NewEnrollment_def PathMCP_def Let_def)
qed

theorem never_open_without_authentication_witness:
  "\<exists>st. startup (\<lambda>_. None) demo_keylib (\<lambda>p s. p) \<lparr>sd_keypair = Some (''p'', ''k''), sd_salt = Some ''n'', sd_form = True\<rparr>
       None demo_env = Inr ('':9'', Some st) \<and>
     as_staticTok st = [] \<and> is_issuer (as_issuer st) = ''https://w'' \<and> is_audience (as_issuer st) = ''https://w/mcp''"
proof -
  obtain st where st: "startup (\<lambda>_. None) demo_keylib (\<lambda>p s. p) \<lparr>sd_keypair = Some (''p'', ''k''), sd_salt = Some ''n'', sd_form = True\<rparr>
      None demo_env = Inr ('':9'', Some st)" using demo_started by blast
  have "SplitHostPort '':9'' = Some ([], ''9'')" "trim_right (trim_space (demo_env ''WHOIS_MCP_PUBLIC_URL'')) ''/'' = ''https://w''"
    by code_simp+
  with never_open_without_authentication [OF st] st show ?thesis by (auto simp: Let_def)
qed

text \<open>What is readied was admitted: after a start that was not refused the second check of \<open>/readyz\<close> never fires.\<close>

lemma started_is_protected:
  assumes "startup pip L argon dr lf getenv = Inr (listen, stack)"
  shows "readyz pip tlds (stack \<noteq> None) listen \<noteq> NotAuthenticated"
  using assms
  by (auto simp: startup_def readyz_def checkExposure_def buildAuth_def Let_def split: sum.splits option.splits if_splits)

text \<open>A server that starts with authentication is in the initial state from which the properties of the
  authorization server are stated, with an enrollment verifier made from the configured secret.\<close>

lemma started_server_is_new:
  assumes "startup pip L argon dr lf getenv = Inr (listen, Some st)"
  shows "\<exists>en. NewEnrollment argon (ac_enrollmentToken (loadAuthConfig getenv)) (sd_salt dr) = Inr en \<and>
    as_server st = new_server en"
  using assms
  by (auto simp: startup_def buildAuth_def new_server_def Let_def split: sum.splits option.splits if_splits)

text \<open>The cleartext rule compares prefixes, so a host whose name merely starts like a loopback name passes it.\<close>

lemma cleartext_rule_accepts_foreign_host: "requireHTTPSOffLoopback ''http://localhost.example.com''"
  by code_simp

text \<open>The gauge of a host that was ever open follows its position at the last round.\<close>

lemma publish_gauges:
  assumes "\<forall>h. (h \<in> fst st) = (snd st h \<noteq> None)"
  shows "(\<forall>h. (h \<in> fst (publish nowOpen st)) = (snd (publish nowOpen st) h \<noteq> None)) \<and>
    (h \<in> fst (publish nowOpen st) \<longrightarrow> snd (publish nowOpen st) h = Some (h \<in> set nowOpen))"
  using assms by (auto simp: publish_def Let_def)

end
