(* ===== verification/System.thy ===== *)
theory System
  imports Mcp_Tools Startup
begin

text \<open>
  The running server: the wiring of \<open>run\<close> in \<open>cmd/whois-mcp/main.go\<close>. Its state is that of the authorization server, the
  resolver and the two bootstrap registries; its steps are the requests to the OAuth endpoints, the
  requests to \<open>/mcp\<close>, and the background refreshes. A step runs to its end before the next one, except that
  the names of a batch are checked in any order.

  The MCP SDK is an argument: \<open>pg_bearer\<close> is what its bearer middleware checks of the information that the
  verifier returned (expiry and baseline scope), and \<open>pg_calls\<close> the tool calls it reads from a body.
\<close>

section \<open>The program\<close>

datatype tool_call =
    CallLookup lookupInput
  | CallAvailability "string list" "int option"
  | CallTldInfo string
  | CallRaw protocol string "int option"
  | CallIP string "int option"
  | CallSessionList
  | CallSessionRevoke string

datatype tool_result =
    ResLookup "domainReport reply"
  | ResAvailability "availabilityOutput reply"
  | ResTldInfo "tldInfoOutput reply"
  | ResRaw "rawResponse reply"
  | ResIP "netReport reply"
  | ResSessionList "sessionListOutput reply"
  | ResSessionRevoke "sessionRevokeOutput reply"
  | ResNoSuchTool

record 'b program =
  pg_lib :: libraries
  pg_tools :: tool_lib
  pg_marshal :: "tldInfoOutput \<Rightarrow> string"
  pg_unmarshal :: "string \<Rightarrow> bootstrapDoc option"
  pg_net :: net_lib
  pg_deployment :: "'b deployment"
  pg_resolver :: resolver
  pg_auth :: "server_cfg option"
  pg_static :: string
  pg_bearer :: "time \<Rightarrow> token_info \<Rightarrow> bool"
  pg_json :: "string \<Rightarrow> (string \<times> string) option"
  pg_calls :: "string \<Rightarrow> tool_call list"

record 'b system =
  sy_server :: server_state
  sy_resolver :: "'b guard option rstate"
  sy_registry :: registry
  sy_netReg :: netRegistry

text \<open>What a call draws from its surroundings. For a batch each slot has its own, \<open>None\<close> when it was cancelled.\<close>

record call_draws =
  cd_world :: world
  cd_clock :: lookup_clock
  cd_now :: time
  cd_deny :: time
  cd_order :: "string list"
  cd_schedule :: "nat list"
  cd_slots :: "nat \<Rightarrow> (world \<times> lookup_clock) option"

definition wired :: "'b program \<Rightarrow> 'b system \<Rightarrow> 'b deployment" where
  "wired pg s =
     (let D = pg_deployment pg
      in D\<lparr>dp_client := (dp_client D)\<lparr>cl_reg := sy_registry s\<rparr>, dp_netReg := Some (sy_netReg s)\<rparr>)"

text \<open>A batch: the slots to check, in the order in which they happen to run.\<close>

definition schedule :: "string list \<Rightarrow> nat list \<Rightarrow> nat list" where
  "schedule ds ord =
     (let planned = snd (plan 0 ds Map.empty) in if distinct ord \<and> set ord = set planned then ord else planned)"

definition run_slot ::
    "'b program \<Rightarrow> 'b system \<Rightarrow> call_draws \<Rightarrow> string list \<Rightarrow> duration \<Rightarrow> 'b guard option rstate \<Rightarrow> nat \<Rightarrow>
     avail \<times> 'b guard option rstate" where
  "run_slot pg s dr ds age rs j =
     (case cd_slots dr j of
        None \<Rightarrow> ((zero_avail (ds ! j) (cd_now dr))\<lparr>av_Error := Some CheckCancelled\<rparr>, rs)
      | Some (w, ck) \<Rightarrow> checkOne (pg_lib pg) (connect (wired pg s) w) (pg_resolver pg) ck (cd_now dr) rs (ds ! j) age)"

fun run_slots :: "('s \<Rightarrow> nat \<Rightarrow> 'a \<times> 's) \<Rightarrow> nat list \<Rightarrow> 's \<Rightarrow> (nat \<rightharpoonup> 'a) \<times> 's" where
  "run_slots f [] s = (Map.empty, s)"
| "run_slots f (j # js) s =
     (case f s j of (a, s) \<Rightarrow> (case run_slots f js s of (m, s) \<Rightarrow> (m(j \<mapsto> a), s)))"

definition slot_result :: "(nat \<rightharpoonup> avail) \<Rightarrow> nat \<Rightarrow> string \<Rightarrow> avail" where
  "slot_result m j d = (case m j of Some a \<Rightarrow> a | None \<Rightarrow> zero_avail d zero_time)"

definition exec_batch ::
    "'b program \<Rightarrow> 'b system \<Rightarrow> call_draws \<Rightarrow> string list \<Rightarrow> int option \<Rightarrow> availabilityOutput reply \<times> 'b guard option rstate" where
  "exec_batch pg s dr domains seconds =
     (let ds = take MaxBatch domains; age = max_age (5 * minute) seconds
      in case run_slots (run_slot pg s dr ds age) (schedule ds (cd_schedule dr)) (sy_resolver s) of
           (m, rs) \<Rightarrow> (availabilityHandler (\<lambda>_. slot_result m) domains seconds, if domains = [] then sy_resolver s else rs))"

section \<open>Requests\<close>

text \<open>One tool call; \<open>info\<close> is the token information in the context, and scopes are enforced when authentication is
  configured, which is also when the session tools exist.\<close>

definition exec_call ::
    "'b program \<Rightarrow> token_info option \<Rightarrow> 'b system \<Rightarrow> tool_call \<Rightarrow> call_draws \<Rightarrow> tool_result \<times> 'b system" where
  "exec_call pg info s call dr =
     (let T = pg_tools pg; L = pg_lib pg; U = connect (wired pg s) (cd_world dr); rs = sy_resolver s;
          enforce = (pg_auth pg \<noteq> None); keep = (\<lambda>rs. s\<lparr>sy_resolver := rs\<rparr>)
      in case call of
           CallLookup inp \<Rightarrow> map_prod ResLookup keep (lookupHandler T L U (pg_resolver pg) (cd_clock dr) rs inp)
         | CallAvailability ds n \<Rightarrow> map_prod ResAvailability keep (exec_batch pg s dr ds n)
         | CallTldInfo t \<Rightarrow> (ResTldInfo (tldInfoHandler (pg_marshal pg) (sy_registry s) (cd_now dr) t), s)
         | CallRaw p d n \<Rightarrow> map_prod ResRaw keep (rawHandler enforce info p T L U (cd_clock dr) rs d n)
         | CallIP x n \<Rightarrow> map_prod ResIP keep (ipLookupHandler enforce info T L U (cd_clock dr) rs x n)
         | CallSessionList \<Rightarrow>
             (if enforce then (ResSessionList (sessionListHandler enforce info T (cd_order dr) (sy_server s)), s)
              else (ResNoSuchTool, s))
         | CallSessionRevoke sid \<Rightarrow>
             (if enforce then
                map_prod ResSessionRevoke (\<lambda>v. s\<lparr>sy_server := v\<rparr>)
                  (sessionRevokeHandler enforce info T sid (cd_now dr) (cd_deny dr) (sy_server s))
              else (ResNoSuchTool, s)))"

text \<open>The answers of a request, each with its call and what it drew.\<close>

type_synonym answers = "(tool_call \<times> call_draws \<times> tool_result) list"

fun exec_calls ::
    "'b program \<Rightarrow> token_info option \<Rightarrow> (nat \<Rightarrow> call_draws) \<Rightarrow> nat \<Rightarrow> tool_call list \<Rightarrow> 'b system \<Rightarrow> answers \<times> 'b system" where
  "exec_calls pg info ds i [] s = ([], s)"
| "exec_calls pg info ds i (c # cs) s =
     (case exec_call pg info s c (ds i) of (r, s) \<Rightarrow>
        (case exec_calls pg info ds (i + 1) cs s of (rs, s) \<Rightarrow> ((c, ds i, r) # rs, s)))"

datatype mcp_response =
    Unauthorized
  | Unreadable
  | Forbidden string string
  | Answers answers

text \<open>The verifier behind the middleware: the development bearer first, when there is one.\<close>

definition verify_token ::
    "'b program \<Rightarrow> server_cfg \<Rightarrow> denylist option \<Rightarrow> string \<Rightarrow> time \<Rightarrow> (token_error + token_info) \<times> denylist option" where
  "verify_token pg cf deny token now =
     (if pg_static pg \<noteq> [] \<and> token = pg_static pg
      then (withStaticBearer (\<lambda>t. fst (TokenVerifier (al_jose (cf_lib cf)) (cf_issuer cf) deny t now)) (pg_static pg) now token, deny)
      else TokenVerifier (al_jose (cf_lib cf)) (cf_issuer cf) deny token now)"

definition handle_mcp ::
    "'b program \<Rightarrow> 'b system \<Rightarrow> string \<Rightarrow> string option \<Rightarrow> string option \<Rightarrow> time \<Rightarrow> (nat \<Rightarrow> call_draws) \<Rightarrow> mcp_response \<times> 'b system" where
  "handle_mcp pg s meth token body now ds =
     (case pg_auth pg of
        None \<Rightarrow>
          (case body of
             None \<Rightarrow> (Unreadable, s)
           | Some b \<Rightarrow> map_prod Answers id (exec_calls pg None ds 0 (pg_calls pg b) s))
      | Some cf \<Rightarrow>
          (case token of
             None \<Rightarrow> (Unauthorized, s)
           | Some t \<Rightarrow>
               (case verify_token pg cf (sv_deny (sy_server s)) t now of
                  (Inl e, d) \<Rightarrow> (Unauthorized, s\<lparr>sy_server := (sy_server s)\<lparr>sv_deny := d\<rparr>\<rparr>)
                | (Inr info, d) \<Rightarrow>
                    (let s = s\<lparr>sy_server := (sy_server s)\<lparr>sv_deny := d\<rparr>\<rparr>
                     in if \<not> pg_bearer pg now info then (Unauthorized, s)
                        else case ScopeGate (pg_json pg) PrivilegedTools meth body (Some info) of
                          GateUnreadable \<Rightarrow> (Unreadable, s)
                        | GateForbidden tool scope \<Rightarrow> (Forbidden tool scope, s)
                        | GateNext b \<Rightarrow> map_prod Answers id (exec_calls pg (Some info) ds 0 (pg_calls pg b) s)))))"

section \<open>Steps\<close>

datatype event =
    EvOAuth server_op
  | EvMcp string "string option" "string option" time mcp_response
  | EvRefresh
  | EvNetRefresh

text \<open>One round of each background refresh; a failure is logged, and what the registry then holds is served on.\<close>

definition refreshBootstrap :: "'b program \<Rightarrow> (string \<Rightarrow> http_reply option) \<Rightarrow> time \<Rightarrow> 'b system \<Rightarrow> 'b system" where
  "refreshBootstrap pg fetch now s =
     (case Refresh (pg_unmarshal pg) fetch now (sy_registry s) of (err, reg) \<Rightarrow> s\<lparr>sy_registry := reg\<rparr>)"

definition refreshNetBootstrap :: "'b program \<Rightarrow> (family \<Rightarrow> http_reply option) \<Rightarrow> (family \<Rightarrow> time) \<Rightarrow> 'b system \<Rightarrow> 'b system" where
  "refreshNetBootstrap pg replies clock s =
     (case NetRefresh (pg_net pg) replies clock (sy_netReg s) of (err, reg) \<Rightarrow> s\<lparr>sy_netReg := reg\<rparr>)"

inductive sys_step :: "'b program \<Rightarrow> 'b system \<Rightarrow> event \<Rightarrow> 'b system \<Rightarrow> bool" for pg where
  oauth: "pg_auth pg = Some cf \<Longrightarrow>
    sys_step pg s (EvOAuth req) (s\<lparr>sy_server := server_step cf (sy_server s) req\<rparr>)"
| mcp: "handle_mcp pg s meth token body now ds = (resp, s') \<Longrightarrow>
    sys_step pg s (EvMcp meth token body now resp) s'"
| refresh: "sys_step pg s EvRefresh (refreshBootstrap pg fetch now s)"
| netRefresh: "sys_step pg s EvNetRefresh (refreshNetBootstrap pg replies clock s)"

inductive_cases sys_stepE: "sys_step pg s e s'"

inductive reaches :: "'b program \<Rightarrow> 'b system \<Rightarrow> event list \<Rightarrow> 'b system \<Rightarrow> bool" for pg s0 where
  start: "reaches pg s0 [] s0"
| step: "reaches pg s0 tr s \<Longrightarrow> sys_step pg s e s' \<Longrightarrow> reaches pg s0 (tr @ [e]) s'"

text \<open>The state in which \<open>run\<close> begins to serve.\<close>

definition initial :: "'b program \<Rightarrow> 'b system \<Rightarrow> bool" where
  "initial pg s \<longleftrightarrow> (\<exists>en. sy_server s = new_server en) \<and> st_cache (sy_resolver s) = NewMemory \<and>
     (\<exists>doc now. NewRegistry doc now = Inr (sy_registry s)) \<and>
     (\<exists>v4 v6 asn ts. NewNetRegistry (pg_net pg) v4 v6 asn ts = Inr (sy_netReg s))"

lemma refresh_frame [simp]:
  "sy_server (refreshBootstrap pg fetch now s) = sy_server s" "sy_resolver (refreshBootstrap pg fetch now s) = sy_resolver s"
  "sy_server (refreshNetBootstrap pg replies clock s) = sy_server s"
  "sy_resolver (refreshNetBootstrap pg replies clock s) = sy_resolver s"
  "sy_registry (refreshNetBootstrap pg replies clock s) = sy_registry s"
  by (simp_all add: refreshBootstrap_def refreshNetBootstrap_def split: prod.split)

section \<open>Evidence\<close>

definition call_worlds :: "call_draws \<Rightarrow> world set" where
  "call_worlds dr = insert (cd_world dr) {w. \<exists>j ck. cd_slots dr j = Some (w, ck)}"

fun event_worlds :: "event \<Rightarrow> world set" where
  "event_worlds (EvMcp meth token body now (Answers xs)) = (\<Union>(c, dr, r) \<in> set xs. call_worlds dr)"
| "event_worlds _ = {}"

definition evidence :: "event list \<Rightarrow> string \<Rightarrow> bool" where
  "evidence tr a \<longleftrightarrow> (\<exists>e \<in> set tr. \<exists>w \<in> event_worlds e. denies w a)"

text \<open>The cache holds only what \<open>E\<close> supports.\<close>

definition supported :: "'b program \<Rightarrow> (string \<Rightarrow> bool) \<Rightarrow> 'b guard option rstate \<Rightarrow> bool" where
  "supported pg E rs \<longleftrightarrow> (\<forall>a. free_stored (lb_json (pg_lib pg)) (st_cache rs) a \<longrightarrow> E a)"

definition free_claim :: "'b program \<Rightarrow> (string \<Rightarrow> bool) \<Rightarrow> string \<Rightarrow> bool" where
  "free_claim pg E input \<longleftrightarrow> (\<exists>q. NormalizeQuery (lb_names (pg_lib pg)) input = Inr q \<and> E (qu_ASCII q))"

fun reply_ok :: "'b program \<Rightarrow> (string \<Rightarrow> bool) \<Rightarrow> tool_call \<Rightarrow> tool_result \<Rightarrow> bool" where
  "reply_ok pg E (CallLookup inp) (ResLookup (ToolSuccess t rep)) \<longleftrightarrow>
     (rp_Registered rep = No \<longrightarrow> free_claim pg E (li_Domain inp))"
| "reply_ok pg E (CallAvailability ds n) (ResAvailability (ToolSuccess t res)) \<longleftrightarrow>
     (\<forall>i < length (ao_Results res). av_Registered (ao_Results res ! i) = No \<longrightarrow>
        (\<exists>j \<le> i. batch_key (ds ! j) = batch_key (ds ! i) \<and> free_claim pg E (ds ! j)))"
| "reply_ok pg E c r \<longleftrightarrow> True"

lemma supported_mono: "supported pg E rs \<Longrightarrow> (\<And>a. E a \<Longrightarrow> E' a) \<Longrightarrow> supported pg E' rs"
  by (auto simp: supported_def)

lemma reply_ok_mono:
  assumes "reply_ok pg E c r" and "\<And>a. E a \<Longrightarrow> E' a"
  shows "reply_ok pg E' c r"
  using assms by (cases "(pg, E, c, r)" rule: reply_ok.cases) (auto simp: free_claim_def, blast)

lemma lookup_supported:
  assumes "codec_ok (lb_json (pg_lib pg))" and "supported pg E rs" and "\<And>a. denies w a \<Longrightarrow> E a"
    and "LookupDomain (pg_lib pg) (connect D w) r ck rs input opt = (res, rs')"
  shows "supported pg E rs'" and "res = Inr rep \<Longrightarrow> rp_Registered rep = No \<Longrightarrow> free_claim pg E input"
proof -
  show "supported pg E rs'"
    using op_effect_free [OF assms(1), of D r rs "OpLookup w ck input opt"] assms(2-4) by (auto simp: supported_def)
  assume no: "res = Inr rep" "rp_Registered rep = No"
  with assms(4) obtain rep0 where l: "lookupOnce (pg_lib pg) (connect D w) r ck rs input opt = (Inr rep0, rs')"
      "rep = applyOptions opt rep0"
    by (auto simp: land_def elim!: LookupDomain_once split: sum.splits)
  then have "rp_Registered rep0 = No" using no(2) by (simp add: applyOptions_def split: if_splits)
  from conn.lookupOnce_free(1) [OF l(1) refl this] assms(2,3) show "free_claim pg E input"
    unfolding free_claim_def supported_def by blast
qed

lemma run_slots_keep:
  assumes "\<And>s j a s'. I s \<Longrightarrow> f s j = (a, s') \<Longrightarrow> I s' \<and> Q j a" and "run_slots f js s = (m, s')" and "I s"
  shows "I s' \<and> (\<forall>j a. m j = Some a \<longrightarrow> Q j a)"
  using assms(2,3)
proof (induction js arbitrary: s m)
  case (Cons j js)
  obtain a s1 m1 where "f s j = (a, s1)" "run_slots f js s1 = (m1, s')" "m = m1(j \<mapsto> a)"
    using Cons.prems(1) by (auto split: prod.splits)
  then show ?case using Cons.IH [of s1 m1] assms(1) [OF Cons.prems(2), of j a s1] by auto
qed simp

lemma run_slot_keep:
  assumes "codec_ok (lb_json (pg_lib pg))" and "\<And>w a. w \<in> call_worlds dr \<Longrightarrow> denies w a \<Longrightarrow> E a"
    and "supported pg E rs" and "run_slot pg s dr ds age rs j = (a, rs')"
  shows "supported pg E rs' \<and> (av_Registered a = No \<longrightarrow> free_claim pg E (ds ! j))"
proof (cases "cd_slots dr j")
  case None
  then show ?thesis using assms(3,4) by (auto simp: run_slot_def zero_avail_def)
next
  case (Some x)
  obtain w ck where x: "x = (w, ck)" by fastforce
  then have w: "w \<in> call_worlds dr" using Some by (auto simp: call_worlds_def)
  have c: "checkOne (pg_lib pg) (connect (wired pg s) w) (pg_resolver pg) ck (cd_now dr) rs (ds ! j) age = (a, rs')"
    using assms(4) Some x by (simp add: run_slot_def)
  then obtain res where l: "LookupDomain (pg_lib pg) (connect (wired pg s) w) (pg_resolver pg) ck rs (ds ! j) (check_options age) = (res, rs')"
    by (auto simp: checkOne_def Let_def split: prod.splits sum.splits)
  note sup = lookup_supported [OF assms(1,3) assms(2) [OF w] l]
  have "free_claim pg E (ds ! j)" if "av_Registered a = No"
  proof -
    from checkOne_free [of "pg_lib pg" "connect (wired pg s) w" "pg_resolver pg" ck "cd_now dr" rs "ds ! j" age] c that l
    obtain rep where "res = Inr rep" "rp_Registered rep = No" by auto
    then show ?thesis using sup(2) by simp
  qed
  then show ?thesis using sup(1) by blast
qed

lemma batch_keep:
  assumes "codec_ok (lb_json (pg_lib pg))" and "\<And>w a. w \<in> call_worlds dr \<Longrightarrow> denies w a \<Longrightarrow> E a"
    and "supported pg E (sy_resolver s)" and "exec_batch pg s dr ds n = (r, rs)"
  shows "supported pg E rs \<and> reply_ok pg E (CallAvailability ds n) (ResAvailability r)"
proof -
  define age where "age = max_age (5 * minute) n"
  obtain m rs' where b: "run_slots (run_slot pg s dr (take MaxBatch ds) age) (schedule (take MaxBatch ds) (cd_schedule dr)) (sy_resolver s) = (m, rs')"
    by fastforce
  have keep: "supported pg E rs' \<and> (\<forall>j a. m j = Some a \<longrightarrow> av_Registered a = No \<longrightarrow> free_claim pg E (take MaxBatch ds ! j))"
    by (rule run_slots_keep [where I = "supported pg E" and Q = "\<lambda>j a. av_Registered a = No \<longrightarrow> free_claim pg E (take MaxBatch ds ! j)"])
      (use run_slot_keep [OF assms(1,2)] b assms(3) in auto)
  have r: "r = availabilityHandler (\<lambda>_. slot_result m) ds n" "rs = (if ds = [] then sy_resolver s else rs')"
    using assms(4) b by (auto simp: exec_batch_def age_def Let_def)
  have "reply_ok pg E (CallAvailability ds n) (ResAvailability r)"
  proof (cases "ds = []")
    case True
    then show ?thesis by (simp add: r availabilityHandler_def errorResultCode_def)
  next
    case False
    have "\<exists>j \<le> i. batch_key (ds ! j) = batch_key (ds ! i) \<and> free_claim pg E (ds ! j)"
      if i: "i < min MaxBatch (length ds)" and no: "av_Registered (CheckAvailability (slot_result m) ds ! i) = No" for i
    proof -
      define j where "j = leader (take MaxBatch ds) i"
      have j: "j \<le> i" "batch_key (ds ! j) = batch_key (ds ! i)"
        using leader_le [of "take MaxBatch ds" i] leader_key [of "take MaxBatch ds" i] i by (auto simp: j_def)
      have "av_Registered (slot_result m j (ds ! j)) = No" using CheckAvailability_nth [OF i] no by (simp add: j_def)
      then obtain a where "m j = Some a" "av_Registered a = No"
        by (auto simp: slot_result_def zero_avail_def split: option.splits)
      then have "free_claim pg E (take MaxBatch ds ! j)" using keep by blast
      then show ?thesis using j i by (intro exI [of _ j]) auto
    qed
    then show ?thesis using False by (simp add: r availabilityHandler_def CheckAvailability_length Let_def)
  qed
  then show ?thesis using keep assms(3) r(2) by auto
qed

lemma handler_supported:
  assumes "codec_ok (lb_json (pg_lib pg))" and "\<And>a. denies w a \<Longrightarrow> E a" and "supported pg E rs"
  shows "supported pg E (snd (rawHandler enforce info p T (pg_lib pg) (connect D w) ck rs d n))"
    and "supported pg E (snd (ipLookupHandler enforce info T (pg_lib pg) (connect D w) ck rs x n))"
proof -
  have op: "supported pg E (op_effect (pg_lib pg) D r rs y)" if "op_world y = w" for y r
    using op_effect_free [OF assms(1), of D r rs y] assms(2,3) that by (auto simp: supported_def)
  show "supported pg E (snd (rawHandler enforce info p T (pg_lib pg) (connect D w) ck rs d n))"
    using assms(3) op [of "OpRawRDAP w ck d (max_age TTLRaw n)"] op [of "OpRawWHOIS w ck d (max_age TTLRaw n)"]
    by (auto simp: rawHandler_def Let_def split: prod.split sum.split)
  show "supported pg E (snd (ipLookupHandler enforce info T (pg_lib pg) (connect D w) ck rs x n))"
    using assms(3) op [of "OpResource w ck x (max_age TTLNet n)"]
    by (auto simp: ipLookupHandler_def split: prod.split sum.split)
qed

lemma exec_call_keep:
  assumes "codec_ok (lb_json (pg_lib pg))" and "\<And>w a. w \<in> call_worlds dr \<Longrightarrow> denies w a \<Longrightarrow> E a"
    and "supported pg E (sy_resolver s)" and "exec_call pg info s c dr = (r, s')"
  shows "supported pg E (sy_resolver s') \<and> reply_ok pg E c r"
proof -
  have w: "denies (cd_world dr) a \<Longrightarrow> E a" for a using assms(2) by (auto simp: call_worlds_def)
  show ?thesis
  proof (cases c)
    case (CallLookup inp)
    obtain res rs where l: "LookupDomain (pg_lib pg) (connect (wired pg s) (cd_world dr)) (pg_resolver pg) (cd_clock dr)
        (sy_resolver s) (li_Domain inp) (lookup_options inp) = (res, rs)" by fastforce
    then have "s' = s\<lparr>sy_resolver := rs\<rparr>" "r = ResLookup (case res of Inl e \<Rightarrow> errorResult (pg_tools pg) (li_Domain inp) e
        | Inr rep \<Rightarrow> ToolSuccess (summarize (pg_tools pg) rep) rep)"
      using assms(4) CallLookup by (auto simp: exec_call_def lookupHandler_def Let_def split: sum.splits)
    then show ?thesis using lookup_supported [OF assms(1,3) w l] CallLookup
      by (cases res) (auto simp: errorResult_def errorResultCode_def)
  next
    case (CallAvailability ds n)
    obtain x rs where b: "exec_batch pg s dr ds n = (x, rs)" by fastforce
    then have "s' = s\<lparr>sy_resolver := rs\<rparr>" "r = ResAvailability x"
      using assms(4) CallAvailability by (auto simp: exec_call_def Let_def)
    then show ?thesis using batch_keep [OF assms(1,2,3) b] CallAvailability by simp
  next
    case (CallRaw p d n)
    then show ?thesis using assms(4) handler_supported(1) [OF assms(1) w assms(3)]
      by (auto simp: exec_call_def Let_def map_prod_def split: prod.splits) (metis snd_conv)
  next
    case (CallIP x n)
    then show ?thesis using assms(4) handler_supported(2) [OF assms(1) w assms(3)]
      by (auto simp: exec_call_def Let_def map_prod_def split: prod.splits) (metis snd_conv)
  qed (use assms(3,4) in \<open>auto simp: exec_call_def Let_def map_prod_def split: prod.splits if_splits\<close>)
qed

lemma exec_calls_keep:
  assumes "codec_ok (lb_json (pg_lib pg))" and "exec_calls pg info ds i cs s = (xs, s')" and "supported pg E (sy_resolver s)"
    and "\<forall>(c, dr, r) \<in> set xs. \<forall>w \<in> call_worlds dr. \<forall>a. denies w a \<longrightarrow> E a"
  shows "supported pg E (sy_resolver s') \<and> (\<forall>(c, dr, r) \<in> set xs. reply_ok pg E c r)"
  using assms(2-4)
proof (induction cs arbitrary: i s xs)
  case (Cons c cs)
  obtain r s1 where e: "exec_call pg info s c (ds i) = (r, s1)" by fastforce
  obtain rs where rs: "exec_calls pg info ds (i + 1) cs s1 = (rs, s')" "xs = (c, ds i, r) # rs"
    using Cons.prems(1) e by (auto split: prod.splits)
  have k: "supported pg E (sy_resolver s1) \<and> reply_ok pg E c r"
    by (rule exec_call_keep [OF assms(1) _ Cons.prems(2) e]) (use Cons.prems(3) rs(2) in auto)
  have "supported pg E (sy_resolver s') \<and> (\<forall>(c, dr, r) \<in> set rs. reply_ok pg E c r)"
    by (rule Cons.IH [OF rs(1)]) (use k Cons.prems(3) rs(2) in auto)
  then show ?case using k rs(2) by auto
qed simp

fun event_ok :: "'b program \<Rightarrow> (string \<Rightarrow> bool) \<Rightarrow> event \<Rightarrow> bool" where
  "event_ok pg E (EvMcp meth token body now (Answers xs)) \<longleftrightarrow> (\<forall>(c, dr, r) \<in> set xs. reply_ok pg E c r)"
| "event_ok pg E _ \<longleftrightarrow> True"

lemma event_ok_mono: "event_ok pg E e \<Longrightarrow> (\<And>a. E a \<Longrightarrow> E' a) \<Longrightarrow> event_ok pg E' e"
  using reply_ok_mono [of pg E _ _ E'] by (cases "(pg, E, e)" rule: event_ok.cases) auto

text \<open>A request that is answered was admitted: by a verified token when authentication is configured. Any other request
  leaves all but the denylist as it was.\<close>

definition admitted ::
    "'b program \<Rightarrow> 'b system \<Rightarrow> string option \<Rightarrow> time \<Rightarrow> token_info option \<Rightarrow> 'b system \<Rightarrow> bool" where
  "admitted pg s token now info s1 \<longleftrightarrow>
     (case pg_auth pg of
        None \<Rightarrow> info = None \<and> s1 = s
      | Some cf \<Rightarrow> (\<exists>t i d. token = Some t \<and> verify_token pg cf (sv_deny (sy_server s)) t now = (Inr i, d) \<and>
          pg_bearer pg now i \<and> info = Some i \<and> s1 = s\<lparr>sy_server := (sy_server s)\<lparr>sv_deny := d\<rparr>\<rparr>))"

lemma handle_mcp_answers:
  assumes "handle_mcp pg s meth token body now ds = (Answers xs, s')"
  obtains info b s1 where "admitted pg s token now info s1" "exec_calls pg info ds 0 (pg_calls pg b) s1 = (xs, s')"
proof (cases "pg_auth pg")
  case None
  then show ?thesis using assms that
    by (auto simp: handle_mcp_def admitted_def map_prod_def split: option.splits prod.splits)
next
  case (Some cf)
  with assms obtain t i d where t: "token = Some t" "verify_token pg cf (sv_deny (sy_server s)) t now = (Inr i, d)"
    by (auto simp: handle_mcp_def split: option.splits prod.splits sum.splits)
  define s1 where "s1 = s\<lparr>sy_server := (sy_server s)\<lparr>sv_deny := d\<rparr>\<rparr>"
  from assms Some t obtain b where "pg_bearer pg now i" "exec_calls pg (Some i) ds 0 (pg_calls pg b) s1 = (xs, s')"
    by (auto simp: handle_mcp_def s1_def Let_def map_prod_def split: prod.splits if_splits gate_result.splits)
  then show ?thesis using that [of "Some i" s1 b] Some t by (simp add: admitted_def s1_def)
qed

lemma handle_mcp_refused:
  assumes "handle_mcp pg s meth token body now ds = (resp, s')" and "\<And>xs. resp \<noteq> Answers xs"
  shows "s' = s \<or> (\<exists>cf t. pg_auth pg = Some cf \<and> token = Some t \<and>
    s' = s\<lparr>sy_server := (sy_server s)\<lparr>sv_deny := snd (verify_token pg cf (sv_deny (sy_server s)) t now)\<rparr>\<rparr>)"
proof (cases "pg_auth pg")
  case None
  then show ?thesis using assms by (auto simp: handle_mcp_def map_prod_def split: option.splits prod.splits)
next
  case (Some cf)
  show ?thesis
  proof (cases token)
    case None
    then show ?thesis using assms(1) Some by (simp add: handle_mcp_def)
  next
    case t: (Some t)
    obtain res d where v: "verify_token pg cf (sv_deny (sy_server s)) t now = (res, d)" by fastforce
    have "s' = s\<lparr>sy_server := (sy_server s)\<lparr>sv_deny := d\<rparr>\<rparr>"
      using assms Some t v
      by (auto simp: handle_mcp_def Let_def map_prod_def split: prod.splits sum.splits if_splits gate_result.splits)
    then show ?thesis using Some t v by simp
  qed
qed

lemma admitted_resolver: "admitted pg s token now info s1 \<Longrightarrow> sy_resolver s1 = sy_resolver s"
  by (auto simp: admitted_def split: option.splits)

lemma sys_step_keep:
  assumes "codec_ok (lb_json (pg_lib pg))" and "sys_step pg s e s'" and "supported pg E (sy_resolver s)"
    and "\<forall>w \<in> event_worlds e. \<forall>a. denies w a \<longrightarrow> E a"
  shows "supported pg E (sy_resolver s') \<and> event_ok pg E e"
  using assms(2)
proof cases
  case (mcp meth token body now ds resp)
  show ?thesis
  proof (cases resp)
    case (Answers xs)
    from mcp(2) obtain info b s1 where a: "admitted pg s token now info s1" "exec_calls pg info ds 0 (pg_calls pg b) s1 = (xs, s')"
      unfolding Answers by (rule handle_mcp_answers)
    have "supported pg E (sy_resolver s1)" using assms(3) admitted_resolver [OF a(1)] by simp
    moreover have "\<forall>(c, dr, r) \<in> set xs. \<forall>w \<in> call_worlds dr. \<forall>a. denies w a \<longrightarrow> E a"
      using assms(4) mcp(1) Answers by auto
    ultimately show ?thesis using exec_calls_keep [OF assms(1) a(2), of E] mcp(1) Answers by simp
  qed (use handle_mcp_refused [OF mcp(2)] mcp(1) assms(3) in auto)
qed (use assms(3) in auto)

lemma evidence_snoc: "evidence tr a \<Longrightarrow> evidence (tr @ [e]) a" "w \<in> event_worlds e \<Longrightarrow> denies w a \<Longrightarrow> evidence (tr @ [e]) a"
  by (auto simp: evidence_def)

lemma reaches_keep:
  assumes "codec_ok (lb_json (pg_lib pg))" and "reaches pg s0 tr s" and "initial pg s0"
  shows "supported pg (evidence tr) (sy_resolver s) \<and> (\<forall>e \<in> set tr. event_ok pg (evidence tr) e)"
  using assms(2)
proof (induction rule: reaches.induct)
  case start
  then show ?case using assms(3) by (auto simp: initial_def supported_def free_stored_def NewMemory_def)
next
  case (step tr s e s')
  have "supported pg (evidence (tr @ [e])) (sy_resolver s)" using step.IH supported_mono evidence_snoc(1) by blast
  from sys_step_keep [OF assms(1) step.hyps(2) this] evidence_snoc(2) [of _ e _ tr]
  have "supported pg (evidence (tr @ [e])) (sy_resolver s') \<and> event_ok pg (evidence (tr @ [e])) e" by blast
  moreover have "\<forall>e' \<in> set tr. event_ok pg (evidence (tr @ [e])) e'" using step.IH event_ok_mono evidence_snoc(1) by blast
  ultimately show ?case by simp
qed

section \<open>Scopes\<close>

fun needs :: "tool_call \<Rightarrow> string option" where
  "needs (CallRaw p d n) = Some ScopeRaw"
| "needs (CallIP x n) = Some ScopeRead"
| "needs CallSessionList = Some ScopeAdmin"
| "needs (CallSessionRevoke sid) = Some ScopeAdmin"
| "needs _ = None"

fun answered :: "'a reply \<Rightarrow> bool" where
  "answered (ToolSuccess t x) = True"
| "answered (ToolFailure e) = False"

fun succeeds :: "tool_result \<Rightarrow> bool" where
  "succeeds (ResLookup r) = answered r"
| "succeeds (ResAvailability r) = answered r"
| "succeeds (ResTldInfo r) = answered r"
| "succeeds (ResRaw r) = answered r"
| "succeeds (ResIP r) = answered r"
| "succeeds (ResSessionList r) = answered r"
| "succeeds (ResSessionRevoke r) = answered r"
| "succeeds ResNoSuchTool = False"

lemma answered_error [simp]: "\<not> answered (errorResultCode a b c)" "\<not> answered (insufficientScope x)"
  by (simp_all add: errorResultCode_def insufficientScope_def)

lemma exec_call_scope:
  assumes "exec_call pg info s c dr = (r, s')" and "pg_auth pg \<noteq> None" and "succeeds r" and "needs c = Some sc"
  shows "HasScope info sc"
  using assms
  by (cases c) (auto simp: exec_call_def rawHandler_def ipLookupHandler_def sessionListHandler_def sessionRevokeHandler_def
      RequireScope_def Let_def split: if_splits)

lemma exec_calls_scope:
  assumes "exec_calls pg info ds i cs s = (xs, s')" and "pg_auth pg \<noteq> None" and "(c, dr, r) \<in> set xs"
    and "succeeds r" and "needs c = Some sc"
  shows "HasScope info sc"
  using assms(1,3)
proof (induction cs arbitrary: i s xs)
  case (Cons c' cs)
  then show ?case using exec_call_scope [OF _ assms(2,4,5)] by (fastforce split: prod.splits)
qed simp

section \<open>Invariants of the running server\<close>

definition deny_ready :: "server_state \<Rightarrow> bool" where
  "deny_ready v \<longleftrightarrow> (case sv_deny v of None \<Rightarrow> False | Some d \<Rightarrow> dl_ttl d = AccessTokenTTL)"

definition sys_inv :: "'b system \<Rightarrow> bool" where
  "sys_inv s \<longleftrightarrow> server_inv (sy_server s) \<and> deny_ready (sy_server s) \<and> rg_byTLD (sy_registry s) \<noteq> Map.empty"

lemma Denied_ttl: "dl_ttl (snd (Denied d sid now)) = dl_ttl d"
  by (auto simp: deny_defs split: option.splits)

lemma TokenVerifier_ttl:
  "deny = Some d \<Longrightarrow> \<exists>d'. snd (TokenVerifier J i deny t now) = Some d' \<and> dl_ttl d' = dl_ttl d"
  using Denied_ttl [of d] by (auto simp: TokenVerifier_def split: sum.split prod.split bool.split) (metis snd_conv)+

lemma deny_add_ready: "deny_ready v \<Longrightarrow> sv_deny v' = deny_add (sv_deny v) sid now \<Longrightarrow> deny_ready v'"
  by (cases "sv_deny v") (simp_all add: deny_ready_def deny_add_def DenyAdd_def)

text \<open>What a request can do to the denylist: nothing, add one entry, or look a session up.\<close>

lemma authorize_deny: "sv_deny (snd (handleAuthorize cf v meth addr f dr)) = sv_deny v"
  by (auto simp: handleAuthorize_def authorizePOST_def authorize_enrolled_def Let_def split: option.split sum.split prod.split)

lemma grant_deny: "sv_deny (snd (grant_from_session cf v sess dr)) = sv_deny v"
  by (auto simp: grant_from_session_def split: option.split sum.split prod.split)

lemma token_deny:
  "sv_deny (snd (handleToken cf v meth f dr)) = sv_deny v \<or>
   (\<exists>sid. sv_deny (snd (handleToken cf v meth f dr)) = deny_add (sv_deny v) sid (td_deny dr))"
proof -
  have "sv_deny (snd (tokenFromCode cf v q dr)) = sv_deny v" for q
    by (auto simp: tokenFromCode_def grant_deny Let_def split: sum.split prod.split)
  moreover have "sv_deny (snd (tokenFromRefresh cf v q dr)) = sv_deny v \<or>
      (\<exists>sid. sv_deny (snd (tokenFromRefresh cf v q dr)) = deny_add (sv_deny v) sid (td_deny dr))" for q
    by (auto simp: tokenFromRefresh_def Let_def split: option.split sum.split prod.split store_error.split)
  ultimately show ?thesis by (auto simp: handleToken_def Let_def split: option.split)
qed

lemma revoke_deny:
  "sv_deny (snd (handleRevoke cf v meth f dr)) = sv_deny v \<or>
   (\<exists>sid. sv_deny (snd (handleRevoke cf v meth f dr)) = deny_add (sv_deny v) sid (rv_deny dr))"
proof -
  have "sv_deny (revokeSession w sid n t) = sv_deny w \<or> sv_deny (revokeSession w sid n t) = deny_add (sv_deny w) sid t" for w sid n t
    by (auto simp: revokeSession_def split: sum.split prod.split)
  from this [of v] this [of "v\<lparr>sv_sessions := m\<rparr>" for m] show ?thesis
    by (auto simp: handleRevoke_def split: option.split sum.split prod.split) metis+
qed

lemma verify_deny:
  "snd (verify_token pg cf deny t now) = deny \<or>
   snd (verify_token pg cf deny t now) = snd (TokenVerifier (al_jose (cf_lib cf)) (cf_issuer cf) deny t now)"
  by (simp add: verify_token_def)

lemma TokenVerifier_ready: "deny_ready v \<Longrightarrow> sv_deny v' = snd (TokenVerifier J i (sv_deny v) t now) \<Longrightarrow> deny_ready v'"
  using TokenVerifier_ttl [of "sv_deny v" _ J i t now] by (auto simp: deny_ready_def split: option.splits)

lemma deny_ready_cong: "sv_deny v' = sv_deny v \<Longrightarrow> deny_ready v' = deny_ready v"
  by (simp add: deny_ready_def)

lemma verify_ready: "deny_ready v \<Longrightarrow> deny_ready (v\<lparr>sv_deny := snd (verify_token pg cf (sv_deny v) t now)\<rparr>)"
  using verify_deny [of pg cf "sv_deny v" t now] TokenVerifier_ready deny_ready_cong by (metis server_state.select_convs(4) server_state.surjective server_state.update_convs(4))

lemma server_step_ready:
  assumes "deny_ready v"
  shows "deny_ready (server_step cf v req)"
proof (cases req)
  case (ReqAuthorize meth addr f dr)
  then show ?thesis using assms authorize_deny [of cf v meth addr f dr] by (simp add: deny_ready_def)
next
  case (ReqToken meth f dr)
  from token_deny [of cf v meth f dr] show ?thesis
  proof
    assume "sv_deny (snd (handleToken cf v meth f dr)) = sv_deny v"
    then show ?thesis using assms ReqToken by (simp add: deny_ready_def)
  qed (use assms ReqToken deny_add_ready in auto)
next
  case (ReqRevoke meth f dr)
  from revoke_deny [of cf v meth f dr] show ?thesis
  proof
    assume "sv_deny (snd (handleRevoke cf v meth f dr)) = sv_deny v"
    then show ?thesis using assms ReqRevoke by (simp add: deny_ready_def)
  qed (use assms ReqRevoke deny_add_ready in auto)
next
  case (ReqMCP t now)
  then show ?thesis by (simp add: TokenVerifier_ready [OF assms])
qed

text \<open>The session tool keeps the invariant of the authorization server.\<close>

lemma session_revoke_server:
  "snd (sessionRevokeHandler enforce info T input now da v) = v \<or>
   (\<exists>sid m u. Revoke (sv_sessions v) sid now = (u, m) \<and>
      (snd (sessionRevokeHandler enforce info T input now da v) = v\<lparr>sv_sessions := m\<rparr> \<or>
       snd (sessionRevokeHandler enforce info T input now da v) = v\<lparr>sv_sessions := m, sv_deny := deny_add (sv_deny v) sid da\<rparr>))"
proof (cases "Revoke (sv_sessions v) (trim_space input) now")
  case (Pair u m)
  then show ?thesis
    by (cases u) (auto simp: sessionRevokeHandler_def Let_def split: store_error.split)
qed

lemma session_revoke_inv:
  assumes "server_inv v"
  shows "server_inv (snd (sessionRevokeHandler enforce info T input now da v))"
proof -
  have "server_inv w" if "Revoke (sv_sessions v) sid now = (u, m)" "sv_sessions w = m" "sv_codes w = sv_codes v" for sid u m w
    using auth_inv_Revoke that assms server_inv_auth by metis
  then show ?thesis using session_revoke_server [of enforce info T input now da v] assms by fastforce
qed

lemma session_revoke_ready:
  assumes "deny_ready v"
  shows "deny_ready (snd (sessionRevokeHandler enforce info T input now da v))"
proof -
  have "deny_ready (v\<lparr>sv_sessions := m\<rparr>)" for m using assms by (simp add: deny_ready_def)
  moreover have "deny_ready (v\<lparr>sv_sessions := m, sv_deny := deny_add (sv_deny v) sid da\<rparr>)" for m sid
    by (rule deny_add_ready [OF assms]) simp
  ultimately show ?thesis using session_revoke_server [of enforce info T input now da v] assms by metis
qed

lemma exec_call_inv:
  assumes "exec_call pg info s c dr = (r, s')"
  shows "server_inv (sy_server s) \<Longrightarrow> server_inv (sy_server s')" and "deny_ready (sy_server s) \<Longrightarrow> deny_ready (sy_server s')"
    and "sy_registry s' = sy_registry s"
  using assms
  by (cases c; auto simp: exec_call_def Let_def map_prod_def session_revoke_inv session_revoke_ready
      split: prod.splits if_splits; metis session_revoke_inv session_revoke_ready snd_conv)+

lemma exec_calls_inv:
  assumes "exec_calls pg info ds i cs s = (xs, s')" and "sys_inv s"
  shows "sys_inv s'"
  using assms
proof (induction cs arbitrary: i s xs)
  case (Cons c cs)
  obtain r s1 where e: "exec_call pg info s c (ds i) = (r, s1)" by fastforce
  then have "sys_inv s1" using Cons.prems(2) exec_call_inv [OF e] by (simp add: sys_inv_def)
  then show ?case using Cons e by (auto split: prod.splits)
qed simp

lemma Refresh_nonempty:
  "rg_byTLD (sy_registry s) \<noteq> Map.empty \<Longrightarrow> rg_byTLD (sy_registry (refreshBootstrap pg fetch now s)) \<noteq> Map.empty"
  by (auto simp: refreshBootstrap_def Refresh_def load_def split: option.splits if_splits prod.splits)

lemma handle_mcp_inv:
  assumes "handle_mcp pg s meth token body now ds = (resp, s')" and "sys_inv s"
  shows "sys_inv s'"
proof -
  have d: "sys_inv (s\<lparr>sy_server := (sy_server s)\<lparr>sv_deny := snd (verify_token pg cf (sv_deny (sy_server s)) t now)\<rparr>\<rparr>)" for cf t
    using assms(2) verify_ready [of "sy_server s" pg cf t now] by (simp add: sys_inv_def server_inv_def)
  show ?thesis
  proof (cases resp)
    case (Answers xs)
    from assms(1) obtain info b s1 where a: "admitted pg s token now info s1" "exec_calls pg info ds 0 (pg_calls pg b) s1 = (xs, s')"
      unfolding Answers by (rule handle_mcp_answers)
    have "sys_inv s1" using a(1) d assms(2) by (auto simp: admitted_def split: option.splits) (metis snd_conv)
    then show ?thesis using exec_calls_inv [OF a(2)] by simp
  qed (use handle_mcp_refused [OF assms(1)] d assms(2) in auto)
qed

lemma sys_step_inv: "sys_step pg s e s' \<Longrightarrow> sys_inv s \<Longrightarrow> sys_inv s'"
  by (induction rule: sys_step.cases)
    (auto simp: sys_inv_def server_step_inv server_step_ready Refresh_nonempty dest: handle_mcp_inv)

lemma initial_inv: "initial pg s \<Longrightarrow> sys_inv s"
proof -
  assume "initial pg s"
  then obtain en doc now where i: "sy_server s = new_server en" "NewRegistry doc now = Inr (sy_registry s)"
    by (auto simp: initial_def)
  have "rg_byTLD (sy_registry s) \<noteq> Map.empty"
    using i(2) by (auto simp: NewRegistry_def load_def dest!: sym [of _ "sy_registry s"] split: option.splits if_splits prod.splits)
  then show ?thesis using i(1) new_server_inv by (simp add: sys_inv_def deny_ready_def new_server_def NewDenylist_def)
qed

lemma reaches_inv:
  assumes "reaches pg s0 tr s" and "sys_inv s0"
  shows "sys_inv s"
  using assms by (induction rule: reaches.induct) (auto intro: sys_step_inv)

section \<open>A denied session\<close>

text \<open>\<open>lo\<close> is the instant of the denial. The clocks of what follows do not go back behind it, and nothing is verified
  later than one access-token lifetime after it.\<close>

definition locked :: "time \<Rightarrow> string \<Rightarrow> server_state \<Rightarrow> bool" where
  "locked lo sid v \<longleftrightarrow>
     (case sv_deny v of
        None \<Rightarrow> False
      | Some d \<Rightarrow> dl_ttl d = AccessTokenTTL \<and> (case dl_revoked d sid of None \<Rightarrow> False | Some u \<Rightarrow> lo + AccessTokenTTL \<le> u))"

fun op_in_window :: "time \<Rightarrow> server_op \<Rightarrow> bool" where
  "op_in_window lo (ReqAuthorize meth addr f dr) \<longleftrightarrow> True"
| "op_in_window lo (ReqToken meth f dr) \<longleftrightarrow> lo \<le> td_deny dr"
| "op_in_window lo (ReqRevoke meth f dr) \<longleftrightarrow> lo \<le> rv_deny dr"
| "op_in_window lo (ReqMCP t now) \<longleftrightarrow> now \<le> lo + AccessTokenTTL"

fun in_window :: "time \<Rightarrow> event \<Rightarrow> bool" where
  "in_window lo (EvOAuth req) \<longleftrightarrow> op_in_window lo req"
| "in_window lo (EvMcp meth token body now (Answers xs)) \<longleftrightarrow>
     now \<le> lo + AccessTokenTTL \<and> (\<forall>(c, dr, r) \<in> set xs. lo \<le> cd_deny dr)"
| "in_window lo (EvMcp meth token body now resp) \<longleftrightarrow> now \<le> lo + AccessTokenTTL"
| "in_window lo e \<longleftrightarrow> True"

lemma locked_cong: "sv_deny v' = sv_deny v \<Longrightarrow> locked lo sid v \<Longrightarrow> locked lo sid v'"
  by (simp add: locked_def)

lemma locked_add:
  assumes "locked lo sid v" and "sv_deny v' = deny_add (sv_deny v) x t" and "lo \<le> t"
  shows "locked lo sid v'"
  using assms by (auto simp: locked_def deny_add_def DenyAdd_def split: option.splits)

lemma locked_verify:
  assumes "locked lo sid v" and "now \<le> lo + AccessTokenTTL" and "sv_deny v' = snd (TokenVerifier J i (sv_deny v) t now)"
  shows "locked lo sid v'"
  using assms
  by (auto simp: locked_def TokenVerifier_def deny_defs split: option.splits sum.splits prod.splits bool.splits if_splits)

lemma locked_refuses:
  assumes "locked lo sid v" and "now \<le> lo + AccessTokenTTL" and "sid \<noteq> []"
    and "IssuerVerify J i t now = Inr c" and "cl_SID c = sid"
  shows "fst (TokenVerifier J i (sv_deny v) t now) = Inl (SessionIsRevoked sid)"
  using assms by (auto simp: locked_def TokenVerifier_def deny_defs split: option.splits)

lemma locked_step:
  assumes "locked lo sid v" and "op_in_window lo req"
  shows "locked lo sid (server_step cf v req)"
proof (cases req)
  case (ReqAuthorize meth addr f dr)
  then show ?thesis using locked_cong [OF authorize_deny assms(1)] by simp
next
  case (ReqToken meth f dr)
  then show ?thesis using assms token_deny [of cf v meth f dr] locked_cong locked_add [OF assms(1)] by auto
next
  case (ReqRevoke meth f dr)
  then show ?thesis using assms revoke_deny [of cf v meth f dr] locked_cong locked_add [OF assms(1)] by auto
next
  case (ReqMCP t now)
  then show ?thesis using assms locked_verify [OF assms(1), of now] by simp
qed

lemma locked_session_revoke:
  assumes "locked lo sid v" and "lo \<le> da"
  shows "locked lo sid (snd (sessionRevokeHandler enforce info T input now da v))"
proof -
  have "locked lo sid (v\<lparr>sv_sessions := m\<rparr>)" for m by (rule locked_cong [OF _ assms(1)]) simp
  moreover have "locked lo sid (v\<lparr>sv_sessions := m, sv_deny := deny_add (sv_deny v) x da\<rparr>)" for m x
    by (rule locked_add [OF assms(1) _ assms(2)]) simp
  ultimately show ?thesis using session_revoke_server [of enforce info T input now da v] assms(1) by metis
qed

lemma locked_exec:
  assumes "exec_call pg info s c dr = (r, s')" and "locked lo sid (sy_server s)" and "lo \<le> cd_deny dr"
  shows "locked lo sid (sy_server s')"
  using assms
  by (cases c; auto simp: exec_call_def Let_def map_prod_def split: prod.splits if_splits; metis locked_session_revoke snd_conv)

lemma locked_execs:
  assumes "exec_calls pg info ds i cs s = (xs, s')" and "locked lo sid (sy_server s)" and "\<forall>(c, dr, r) \<in> set xs. lo \<le> cd_deny dr"
  shows "locked lo sid (sy_server s')"
  using assms
proof (induction cs arbitrary: i s xs)
  case (Cons c cs)
  obtain r s1 where e: "exec_call pg info s c (ds i) = (r, s1)" by fastforce
  obtain rs where rs: "exec_calls pg info ds (i + 1) cs s1 = (rs, s')" "xs = (c, ds i, r) # rs"
    using Cons.prems(1) e by (auto split: prod.splits)
  then show ?case using Cons.IH [OF rs(1)] locked_exec [OF e Cons.prems(2)] Cons.prems(3) by simp
qed simp

lemma locked_verify_token:
  assumes "locked lo sid v" and "now \<le> lo + AccessTokenTTL"
  shows "locked lo sid (v\<lparr>sv_deny := snd (verify_token pg cf (sv_deny v) t now)\<rparr>)"
  using verify_deny [of pg cf "sv_deny v" t now] locked_verify [OF assms] locked_cong [OF _ assms(1)] by auto

lemma locked_sys_step:
  assumes "sys_step pg s e s'" and "locked lo sid (sy_server s)" and "in_window lo e"
  shows "locked lo sid (sy_server s')"
  using assms(1)
proof cases
  case (oauth cf req)
  then show ?thesis using locked_step assms(2,3) by simp
next
  case (mcp meth token body now ds resp)
  have now: "now \<le> lo + AccessTokenTTL" using assms(3) mcp(1) by (cases resp) auto
  show ?thesis
  proof (cases resp)
    case (Answers xs)
    from mcp(2) obtain info b s1 where a: "admitted pg s token now info s1" "exec_calls pg info ds 0 (pg_calls pg b) s1 = (xs, s')"
      unfolding Answers by (rule handle_mcp_answers)
    have "locked lo sid (sy_server s1)"
      using a(1) locked_verify_token [OF assms(2) now, of pg] assms(2)
      by (auto simp: admitted_def split: option.splits) (metis snd_conv)
    then show ?thesis using locked_execs [OF a(2)] assms(3) mcp(1) Answers by simp
  qed (use handle_mcp_refused [OF mcp(2)] locked_verify_token [OF assms(2) now, of pg] assms(2) in auto)
qed (use assms(2) in auto)

lemma locked_reaches:
  assumes "reaches pg s0 tr s" and "locked lo sid (sy_server s0)" and "\<forall>e \<in> set tr. in_window lo e"
  shows "locked lo sid (sy_server s)"
  using assms by (induction rule: reaches.induct) (auto intro: locked_sys_step)

lemma exec_calls_single:
  assumes "exec_calls pg info ds i cs s = ([(c, dr, r)], s')"
  shows "exec_call pg info s c dr = (r, s')"
  using assms by (cases cs; cases "tl cs") (auto split: prod.splits)

section \<open>A concrete server\<close>

definition demo_lookup_input :: lookupInput where
  "demo_lookup_input = \<lparr>li_Domain = ''x.io'', li_IncludeContacts = None, li_MaxAgeSeconds = Some 0\<rparr>"

definition demo_program :: "server_cfg option \<Rightarrow> string \<Rightarrow> unit program" where
  "demo_program auth static = \<lparr>pg_lib = demo_libs, pg_tools = demo_tools, pg_marshal = (\<lambda>_. []), pg_unmarshal = (\<lambda>_. None),
     pg_net = Rdap_Registry.demo_lib, pg_deployment = demo_deployment, pg_resolver = NewResolver, pg_auth = auth,
     pg_static = static, pg_bearer = (\<lambda>_ _. True), pg_json = (\<lambda>_. None),
     pg_calls = (\<lambda>b. if b = ''l'' then [CallLookup demo_lookup_input] else if b = ''r'' then [CallSessionRevoke ''s1''] else [])\<rparr>"

definition demo_system :: "server_state \<Rightarrow> unit system" where
  "demo_system v = \<lparr>sy_server = v, sy_resolver = demo_start, sy_registry = cl_reg demo_client, sy_netReg = Rdap_Registry.demo_registry\<rparr>"

definition demo_call :: call_draws where
  "demo_call = \<lparr>cd_world = demo_world, cd_clock = demo_times, cd_now = 9, cd_deny = 9, cd_order = [], cd_schedule = [],
     cd_slots = (\<lambda>_. None)\<rparr>"

lemma demo_initial: "initial (demo_program auth static) (demo_system (new_server en))"
proof -
  have "usable_service [[''io''], [''https://a/'', ''https://b/'']] = Some ([''io''], [''https://a/'', ''https://b/''])"
      "service_entries ([''io''], [''https://a/'', ''https://b/'']) = [(''io'', [''https://a/'', ''https://b/''])]"
    by (simp_all add: usable_service_def preferHTTPS_def https_base_def service_entries_def text_eval List.map_filter_simps)
  then have "NewRegistry (Some \<lparr>bd_Publication = zero_time, bd_Services = [[[''io''], [''https://a/'', ''https://b/'']]]\<rparr>) zero_time =
      Inr (cl_reg demo_client)"
    by (simp add: NewRegistry_def load_def tld_entries_def List.map_filter_def empty_registry_def demo_client_def)
  then have "\<exists>doc now. NewRegistry doc now = Inr (cl_reg demo_client)" by blast
  then show ?thesis using Rdap_Registry.demo_new
    by (auto simp: initial_def demo_system_def demo_start_def demo_program_def) blast
qed

lemma demo_tool_lookup:
  "\<exists>rep rs. LookupDomain demo_libs (connect (wired (demo_program auth static) (demo_system v)) demo_world) NewResolver demo_times
       demo_start ''x.io'' (lookup_options demo_lookup_input) = (Inr rep, rs) \<and> rp_Registered rep = No"
proof -
  have u: "up_rdap (connect (wired (demo_program auth static) (demo_system v)) demo_world) = up_rdap (connect demo_deployment demo_world)"
    by (simp add: connect_def wired_def demo_program_def demo_system_def demo_deployment_def demo_client_def Let_def)
  have o: "lookup_options demo_lookup_input = fresh"
    by (simp add: lookup_options_def demo_lookup_input_def fresh_def max_age_def wrap64_def)
  show ?thesis
    by (auto simp: u o demo_rdap_query LookupDomain_def demo_name lookupOnce_def cached_value_def fresh_def fetch_report_def
        demo_start_def Let_def rdap_report_state land_def applyOptions_def demo_ascii)
qed

lemma demo_claims_sid: "cl_SID demo_claims = ''s1''"
  by (simp add: demo_claims_def mint_claims_def)

lemma demo_token_not_dev: "demo_token \<noteq> ''dev''"
proof
  assume eq: "demo_token = ''dev''"
  have "split_at (CHR ''.'') ''dev'' = [''dev'']" by simp
  then have "IssuerVerify demo_jose demo_issuer demo_token 9 = Inl (MalformedSegments 1)"
    unfolding eq by (simp add: IssuerVerify_def)
  then show False using demo_verifies by simp
qed

lemma never_static:
  "startup pip K argon sd lf getenv = Inr (listen, Some st) \<Longrightarrow> requireLoopback pip listen \<noteq> None \<Longrightarrow> as_staticTok st = []"
  using startup_off_host by blast

section \<open>Properties\<close>



text \<open>C2. A server that can be reached from other hosts answers only authorized calls. Let the start have admitted a listen
  address that is not loopback: then every request that is answered at all carries a token whose
  signature, issuer, audience and expiry check out against the issuer of that start, whose session the
  denylist did not refuse, and which passes the baseline check of the middleware; and a tool that needs a
  scope answers with data only if the claims of the token carry that scope. The development bearer opens
  nothing.\<close>

theorem off_host_answers_are_authorized:
  assumes "startup pip K argon sd lf getenv = Inr (listen, stack)" and "requireLoopback pip listen \<noteq> None"
    and "pg_auth pg = map_option (\<lambda>st. \<lparr>cf_lib = A, cf_issuer = as_issuer st, cf_form = True\<rparr>) stack"
    and "pg_static pg = (case stack of None \<Rightarrow> [] | Some st \<Rightarrow> as_staticTok st)"
    and "sys_step pg s (EvMcp meth token body now (Answers xs)) s'"
  shows "\<exists>st t c. stack = Some st \<and> token = Some t \<and> IssuerVerify (al_jose A) (as_issuer st) t now = Inr c \<and>
    (\<forall>d. sv_deny (sy_server s) = Some d \<longrightarrow> \<not> fst (Denied d (cl_SID c) now)) \<and> pg_bearer pg now (info_of c) \<and>
    (\<forall>(call, dr, r) \<in> set xs. \<forall>sc. needs call = Some sc \<and> succeeds r \<longrightarrow> sc \<in> set (ClaimsScopes c))"
proof -
  obtain st where st: "stack = Some st" "as_staticTok st = []" using startup_off_host [OF assms(1,2)] by blast
  let ?cf = "\<lparr>cf_lib = A, cf_issuer = as_issuer st, cf_form = True\<rparr>"
  have auth: "pg_auth pg = Some ?cf" "pg_static pg = []" using assms(3,4) st by simp_all
  from assms(5) obtain ds where h: "handle_mcp pg s meth token body now ds = (Answers xs, s')"
    by (auto elim: sys_stepE)
  then obtain info b s1 where a: "admitted pg s token now info s1" "exec_calls pg info ds 0 (pg_calls pg b) s1 = (xs, s')"
    by (rule handle_mcp_answers)
  from a(1) auth obtain t i d where t: "token = Some t" "info = Some i" "pg_bearer pg now i"
      "TokenVerifier (al_jose A) (as_issuer st) (sv_deny (sy_server s)) t now = (Inr i, d)"
    by (auto simp: admitted_def verify_token_def)
  then obtain c where c: "IssuerVerify (al_jose A) (as_issuer st) t now = Inr c" "i = info_of c"
      "\<forall>d. sv_deny (sy_server s) = Some d \<longrightarrow> \<not> fst (Denied d (cl_SID c) now)"
    by (auto simp: TokenVerifier_def split: sum.splits option.splits prod.splits bool.splits)
  have "sc \<in> set (ClaimsScopes c)" if "(call, dr, r) \<in> set xs" "needs call = Some sc" "succeeds r" for call dr r sc
    using exec_calls_scope [OF a(2) _ that(1,3,2)] auth t(2) c(2) by (simp add: HasScope_def info_of_def list_ex_iff)
  then show ?thesis using st(1) t(1,3) c by blast
qed

theorem off_host_answers_are_authorized_witness:
  "\<exists>st s'. startup (\<lambda>_. None) demo_keylib (\<lambda>p s. p) \<lparr>sd_keypair = Some (''k'', ''k''), sd_salt = Some ''n'', sd_form = True\<rparr>
       None demo_env = Inr ('':9'', Some st) \<and>
     sys_step (demo_program (Some \<lparr>cf_lib = OAuth_Flow.demo_lib, cf_issuer = as_issuer st, cf_form = True\<rparr>) [])
       (demo_system (new_server demo_enrollment)) (EvMcp ''POST'' (Some demo_token) (Some ''t'') 9 (Answers [])) s' \<and>
     (\<exists>c. IssuerVerify demo_jose (as_issuer st) demo_token 9 = Inr c)"
proof -
  obtain st where st: "startup (\<lambda>_. None) demo_keylib (\<lambda>p s. p) \<lparr>sd_keypair = Some (''k'', ''k''), sd_salt = Some ''n'', sd_form = True\<rparr>
      None demo_env = Inr ('':9'', Some st)" "as_issuer st = \<lparr>is_keys = NewKeyring (newKeyPair demo_keylib ''k'' ''k''),
      is_issuer = ''https://w'', is_audience = ''https://w/mcp''\<rparr>"
    using demo_started by blast
  then have i: "as_issuer st = demo_issuer" by (simp add: demo_issuer_def newKeyPair_def demo_keylib_def demo_pair_def)
  let ?pg = "demo_program (Some \<lparr>cf_lib = OAuth_Flow.demo_lib, cf_issuer = as_issuer st, cf_form = True\<rparr>) []"
    and ?s = "demo_system (new_server demo_enrollment)"
  have v: "TokenVerifier demo_jose demo_issuer (Some NewDenylist) demo_token 9 = (Inr (info_of demo_claims), Some NewDenylist)"
    using demo_verifies by (simp add: TokenVerifier_def deny_defs NewDenylist_def)
  have g: "ScopeGate (\<lambda>_. None) PrivilegedTools ''POST'' (Some ''t'') info = GateNext ''t''" for info
    by (simp add: ScopeGate_def toolNameFromBody_def trim_left_def maxGateBody_def PrivilegedTools_def)
  have "handle_mcp ?pg ?s ''POST'' (Some demo_token) (Some ''t'') 9 ds = (Answers [], ?s)" for ds
    using v g by (simp add: handle_mcp_def verify_token_def demo_program_def demo_system_def i OAuth_Flow.demo_lib_def new_server_def Let_def)
  from sys_step.mcp [OF this] have step: "sys_step ?pg ?s (EvMcp ''POST'' (Some demo_token) (Some ''t'') 9 (Answers [])) ?s" .
  have l: "requireLoopback (\<lambda>_. None) '':9'' \<noteq> None" by code_simp
  have "\<exists>st' t c. Some st = Some st' \<and> Some demo_token = Some t \<and> IssuerVerify (al_jose OAuth_Flow.demo_lib) (as_issuer st') t 9 = Inr c"
    using off_host_answers_are_authorized [OF st(1) l _ _ step, of OAuth_Flow.demo_lib]
      never_static [OF st(1) l] by (auto simp: demo_program_def)
  then show ?thesis using st(1) step by (auto simp: OAuth_Flow.demo_lib_def)
qed

text \<open>C3. A session that an administrator revoked is locked out at once. Take a state with the invariant of the running
  server, which holds in the initial state and is kept by every step, and a request that revoked a
  session there: then a request with an access token of that session is refused after any sequence of
  other steps, as long as no step falls more than one access-token lifetime after the revocation or
  records a revocation dated before it. Later than that the tokens that were minted before the revocation
  have expired by themselves.\<close>

theorem revoked_session_locked_out:
  assumes "pg_auth pg = Some cf" and "sys_inv s"
    and "sys_step pg s (EvMcp m0 tk0 b0 t0 (Answers [(CallSessionRevoke x, dr, ResSessionRevoke (ToolSuccess t res))])) s1"
    and "reaches pg s1 tr s2" and "\<forall>e \<in> set tr. in_window (cd_deny dr) e"
    and "IssuerVerify (al_jose (cf_lib cf)) (cf_issuer cf) tok now = Inr c" and "cl_SID c = ro_SID res"
    and "now \<le> cd_deny dr + AccessTokenTTL" and "pg_static pg = [] \<or> tok \<noteq> pg_static pg"
    and "sys_step pg s2 (EvMcp meth (Some tok) body now resp) s3"
  shows "resp = Unauthorized"
proof -
  from assms(3) obtain ds where h: "handle_mcp pg s m0 tk0 b0 t0 ds =
      (Answers [(CallSessionRevoke x, dr, ResSessionRevoke (ToolSuccess t res))], s1)" by (auto elim: sys_stepE)
  then obtain info b sa where a: "admitted pg s tk0 t0 info sa" "exec_calls pg info ds 0 (pg_calls pg b) sa =
      ([(CallSessionRevoke x, dr, ResSessionRevoke (ToolSuccess t res))], s1)" by (rule handle_mcp_answers)
  have ready: "deny_ready (sy_server sa)"
    using a(1) assms(1,2) verify_ready [of "sy_server s" pg cf _ t0] by (auto simp: admitted_def sys_inv_def) (metis snd_conv)
  from a(2) have "exec_call pg info sa (CallSessionRevoke x) dr = (ResSessionRevoke (ToolSuccess t res), s1)"
    by (rule exec_calls_single)
  then have r: "sessionRevokeHandler True info (pg_tools pg) x (cd_now dr) (cd_deny dr) (sy_server sa) = (ToolSuccess t res, sy_server s1)"
    using assms(1) by (auto simp: exec_call_def Let_def map_prod_def split: prod.splits)
  have sid: "ro_SID res \<noteq> []" using session_revokeD(1,2) [OF r] by simp
  have "sv_deny (sy_server s1) = deny_add (sv_deny (sy_server sa)) (ro_SID res) (cd_deny dr)"
    using session_revokeD(1,4) [OF r] by auto
  then have "locked (cd_deny dr) (ro_SID res) (sy_server s1)"
    using ready sid by (auto simp: locked_def deny_ready_def deny_add_def DenyAdd_def split: option.splits)
  then have l: "locked (cd_deny dr) (ro_SID res) (sy_server s2)" by (rule locked_reaches [OF assms(4) _ assms(5)])
  from assms(10) obtain ds' where h': "handle_mcp pg s2 meth (Some tok) body now ds' = (resp, s3)" by (auto elim: sys_stepE)
  have "fst (verify_token pg cf (sv_deny (sy_server s2)) tok now) = Inl (SessionIsRevoked (ro_SID res))"
    using locked_refuses [OF l assms(8) sid assms(6,7)] assms(9) by (auto simp: verify_token_def)
  then show ?thesis using h' assms(1)
    by (cases "verify_token pg cf (sv_deny (sy_server s2)) tok now") (simp add: handle_mcp_def)
qed

theorem revoked_session_locked_out_witness:
  "\<exists>res s1. sys_step (demo_program (Some demo_cfg) ''dev'') (demo_system demo_rotated)
       (EvMcp ''POST'' (Some ''dev'') (Some ''r'') 9 (Answers [(CallSessionRevoke ''s1'', demo_call, res)])) s1 \<and>
     (\<forall>resp s3. sys_step (demo_program (Some demo_cfg) ''dev'') s1 (EvMcp ''POST'' (Some demo_token) (Some ''l'') 9 resp) s3 \<longrightarrow>
        resp = Unauthorized)"
proof -
  let ?pg = "demo_program (Some demo_cfg) ''dev''" and ?s = "demo_system demo_rotated"
  have "HasScope (Some \<lparr>ti_Scopes = AllScopes, ti_Expiration = t, ti_UserID = u, ti_label = l, ti_jti = j\<rparr>) ScopeAdmin" for t u l j
    by (simp add: HasScope_def AllScopes_def)
  moreover have "st_sessions (sv_sessions demo_rotated) ''s1'' \<noteq> None"
    using demo_rotated_tokens(2) store_inv_tok [of "sv_sessions demo_rotated"] demo_rotated_inv
    by (fastforce simp: spent_token_def server_inv_def)
  moreover have "trim_space ''s1'' = ''s1''" by (simp add: text_eval)
  ultimately obtain t out v where r: "sessionRevokeHandler True (Some \<lparr>ti_Scopes = AllScopes, ti_Expiration = 9 + hour,
      ti_UserID = ''sess_dev_static'', ti_label = [], ti_jti = []\<rparr>) demo_tools ''s1'' 9 9 demo_rotated = (ToolSuccess t out, v)"
      "ro_SID out = ''s1''"
    by (auto simp: sessionRevokeHandler_def RequireScope_def Revoke_def Let_def)
  define s1 where "s1 = ?s\<lparr>sy_server := v\<rparr>"
  have g: "ScopeGate (\<lambda>_. None) PrivilegedTools ''POST'' (Some ''r'') info = GateNext ''r''" for info
    by (simp add: ScopeGate_def toolNameFromBody_def trim_left_def maxGateBody_def PrivilegedTools_def)
  have "handle_mcp ?pg ?s ''POST'' (Some ''dev'') (Some ''r'') 9 (\<lambda>_. demo_call) =
      (Answers [(CallSessionRevoke ''s1'', demo_call, ResSessionRevoke (ToolSuccess t out))], s1)"
    using r g
    by (simp add: handle_mcp_def verify_token_def withStaticBearer_def demo_program_def demo_system_def exec_call_def demo_call_def
        s1_def Let_def)
  then have step: "sys_step ?pg ?s (EvMcp ''POST'' (Some ''dev'') (Some ''r'') 9
      (Answers [(CallSessionRevoke ''s1'', demo_call, ResSessionRevoke (ToolSuccess t out))])) s1" by (rule sys_step.mcp)
  have inv: "sys_inv ?s"
    using demo_rotated_inv by (simp add: sys_inv_def demo_system_def demo_client_def deny_ready_def demo_rotated_def new_server_def
        NewDenylist_def)
  have "resp = Unauthorized" if "sys_step ?pg s1 (EvMcp ''POST'' (Some demo_token) (Some ''l'') 9 resp) s3" for resp s3
    using revoked_session_locked_out [OF _ inv step reaches.start _ _ _ _ _ that, of demo_cfg demo_claims] demo_verifies r(2)
    by (simp add: demo_program_def demo_cfg_def OAuth_Flow.demo_lib_def demo_claims_sid demo_call_def demo_token_not_dev AccessTokenTTL_def minute_def)
  then show ?thesis using step by blast
qed

end
