(* ===== verification/Telemetry.thy ===== *)
theory Telemetry
  imports Complex_Main Go_Prelude
begin

text \<open>
  Metrics, log levels, redaction and the start of tracing: \<open>internal/obs\<close>. A metric vector of the Prometheus client is
  a map from its label values to a counter, a gauge or the observations made; the methods of \<open>Metrics\<close>
  accept a nil receiver, so the state is an option. Of the tracing only the decisions are modelled, not the
  exporter, and of the logger only its level.
\<close>

section \<open>Metrics\<close>

definition safeTLD :: "string \<Rightarrow> string" where
  "safeTLD tld =
     (let t = to_lower (trim_space tld)
      in if t = [] \<or> 24 < length t then ''other''
         else if list_all (\<lambda>c. (97 \<le> (of_char c :: nat) \<and> (of_char c :: nat) \<le> 122) \<or> is_digit c \<or> c = CHR ''-'') t then t
         else ''other'')"

record metrics =
  me_LookupDuration :: "string \<times> string \<times> string \<Rightarrow> duration list"
  me_UpstreamTotal :: "string \<times> string \<Rightarrow> nat"
  me_CacheHits :: "string \<Rightarrow> nat"
  me_ParseConfidence :: "rat list"
  me_RateLimited :: "string \<times> string \<Rightarrow> nat"
  me_AuthFailures :: "string \<Rightarrow> nat"
  me_ActiveSessions :: int
  me_BreakerOpen :: "string \<rightharpoonup> bool"

definition NewMetrics :: metrics where
  "NewMetrics = \<lparr>me_LookupDuration = (\<lambda>_. []), me_UpstreamTotal = (\<lambda>_. 0), me_CacheHits = (\<lambda>_. 0), me_ParseConfidence = [],
     me_RateLimited = (\<lambda>_. 0), me_AuthFailures = (\<lambda>_. 0), me_ActiveSessions = 0, me_BreakerOpen = Map.empty\<rparr>"

definition inc :: "'k \<Rightarrow> ('k \<Rightarrow> nat) \<Rightarrow> 'k \<Rightarrow> nat" where
  "inc k c = c(k := c k + 1)"

definition ObserveLookup :: "metrics option \<Rightarrow> string \<Rightarrow> string \<Rightarrow> string \<Rightarrow> duration \<Rightarrow> metrics option" where
  "ObserveLookup m protocol tld outcome d =
     map_option (\<lambda>m. m\<lparr>me_LookupDuration := (me_LookupDuration m)
       ((protocol, safeTLD tld, outcome) := me_LookupDuration m (protocol, safeTLD tld, outcome) @ [d])\<rparr>) m"

definition ObserveUpstream :: "metrics option \<Rightarrow> string \<Rightarrow> string \<Rightarrow> metrics option" where
  "ObserveUpstream m host status = map_option (me_UpstreamTotal_update (inc (host, status))) m"

definition ObserveCache :: "metrics option \<Rightarrow> string \<Rightarrow> metrics option" where
  "ObserveCache m result = map_option (me_CacheHits_update (inc result)) m"

definition ObserveParse :: "metrics option \<Rightarrow> rat \<Rightarrow> metrics option" where
  "ObserveParse m confidence = map_option (me_ParseConfidence_update (\<lambda>xs. xs @ [confidence])) m"

definition ObserveRateLimited :: "metrics option \<Rightarrow> string \<Rightarrow> string \<Rightarrow> metrics option" where
  "ObserveRateLimited m host reason = map_option (me_RateLimited_update (inc (host, reason))) m"

definition ObserveAuthFailure :: "metrics option \<Rightarrow> string \<Rightarrow> metrics option" where
  "ObserveAuthFailure m reason = map_option (me_AuthFailures_update (inc reason)) m"

definition SetActiveSessions :: "metrics option \<Rightarrow> int \<Rightarrow> metrics option" where
  "SetActiveSessions m n = map_option (\<lambda>m. m\<lparr>me_ActiveSessions := n\<rparr>) m"

definition SetBreakerOpen :: "metrics option \<Rightarrow> string \<Rightarrow> bool \<Rightarrow> metrics option" where
  "SetBreakerOpen m host is_open = map_option (\<lambda>m. m\<lparr>me_BreakerOpen := (me_BreakerOpen m)(host \<mapsto> is_open)\<rparr>) m"

lemmas metric_defs = ObserveLookup_def ObserveUpstream_def ObserveCache_def ObserveParse_def ObserveRateLimited_def
  ObserveAuthFailure_def SetActiveSessions_def SetBreakerOpen_def

datatype metric_op =
    MLookup string string string duration
  | MUpstream string string
  | MCache string
  | MParse rat
  | MRateLimited string string
  | MAuthFailure string
  | MSessions int
  | MBreaker string bool

fun metric_step :: "metrics option \<Rightarrow> metric_op \<Rightarrow> metrics option" where
  "metric_step m (MLookup p t r d) = ObserveLookup m p t r d"
| "metric_step m (MUpstream h s) = ObserveUpstream m h s"
| "metric_step m (MCache r) = ObserveCache m r"
| "metric_step m (MParse c) = ObserveParse m c"
| "metric_step m (MRateLimited h r) = ObserveRateLimited m h r"
| "metric_step m (MAuthFailure r) = ObserveAuthFailure m r"
| "metric_step m (MSessions n) = SetActiveSessions m n"
| "metric_step m (MBreaker h b) = SetBreakerOpen m h b"

section \<open>Logging\<close>

datatype log_level = LevelDebug | LevelInfo | LevelWarn | LevelError

definition log_level_of :: "string \<Rightarrow> log_level" where
  "log_level_of level =
     (let l = to_lower (trim_space level)
      in if l = ''debug'' then LevelDebug
         else if l = ''warn'' \<or> l = ''warning'' then LevelWarn
         else if l = ''error'' then LevelError
         else LevelInfo)"

text \<open>The loop fills a buffer of twenty bytes from its end; \<open>acc\<close> is what is filled so far.\<close>

function itoa_loop :: "int \<Rightarrow> string \<Rightarrow> string" where
  "itoa_loop n acc = (if 0 < n then itoa_loop (n div 10) (char_of (nat (48 + n mod 10)) # acc) else acc)"
  by pat_completeness auto

termination itoa_loop
  by (relation "measure (\<lambda>(n, acc). nat n)") auto

declare itoa_loop.simps [simp del]

definition itoa :: "int \<Rightarrow> string" where
  "itoa n = (if n = 0 then ''0'' else itoa_loop n [])"

definition RedactSecret :: "string \<Rightarrow> string" where
  "RedactSecret s = (if s = [] then [] else ''[redacted len='' @ itoa (int (length s)) @ '']'')"

section \<open>Tracing\<close>

record trace_url =
  tu_Scheme :: string
  tu_Host :: string

record traceOptions =
  tc_Endpoint :: string
  tc_ServiceName :: string
  tc_ServiceVersion :: string
  tc_SampleRatio :: rat

datatype sampler = AlwaysSample | TraceIDRatioBased rat
datatype trace_error = NotAbsolute string | NotHTTP string | NoExporter string
datatype tracing = NotExported | Exporting string sampler

text \<open>\<open>parse\<close> is \<open>url.Parse\<close>, and \<open>exporter_ok\<close> whether the exporter could be made.\<close>

definition InitTracing :: "(string \<Rightarrow> trace_url option) \<Rightarrow> (string \<Rightarrow> bool) \<Rightarrow> traceOptions \<Rightarrow> trace_error + tracing" where
  "InitTracing parse exporter_ok opt =
     (let e = tc_Endpoint opt
      in if trim_space e = [] then Inr NotExported
         else case parse e of
           None \<Rightarrow> Inl (NotAbsolute e)
         | Some u \<Rightarrow>
             if tu_Scheme u = [] \<or> tu_Host u = [] then Inl (NotAbsolute e)
             else if tu_Scheme u \<noteq> ''http'' \<and> tu_Scheme u \<noteq> ''https'' then Inl (NotHTTP e)
             else if \<not> exporter_ok e then Inl (NoExporter e)
             else Inr (Exporting e (if 0 < tc_SampleRatio opt \<and> tc_SampleRatio opt < 1
                                    then TraceIDRatioBased (tc_SampleRatio opt) else AlwaysSample)))"

text \<open>The attributes of \<open>resourceFor\<close>; merging them with the defaults of the SDK is left out.\<close>

definition resourceFor :: "traceOptions \<Rightarrow> (string \<times> string) list" where
  "resourceFor opt =
     (''service.name'', if tc_ServiceName opt = [] then ''whois-mcp'' else tc_ServiceName opt) #
     (if tc_ServiceVersion opt \<noteq> [] then [(''service.version'', tc_ServiceVersion opt)] else [])"

definition UpstreamSpan :: "bool \<Rightarrow> string \<Rightarrow> string \<Rightarrow> (string \<times> (string \<times> string) list) option" where
  "UpstreamSpan hasTracer protocol host =
     (if \<not> hasTracer then None
      else Some (protocol @ '' upstream'', [(''upstream.protocol'', protocol), (''upstream.host'', host)]))"

section \<open>Lemmas\<close>

definition tld_label :: "string \<Rightarrow> bool" where
  "tld_label t \<longleftrightarrow> t \<noteq> [] \<and> length t \<le> 24 \<and>
     (\<forall>c \<in> set t. (97 \<le> (of_char c :: nat) \<and> (of_char c :: nat) \<le> 122) \<or> is_digit c \<or> c = CHR ''-'')"

lemma safeTLD_label: "tld_label (safeTLD tld)"
  by (auto simp: safeTLD_def tld_label_def Let_def list_all_iff)

lemma tld_labels_finite: "finite {t. tld_label t}"
proof (rule finite_subset)
  show "{t. tld_label t} \<subseteq> {t. set t \<subseteq> UNIV \<and> length t \<le> 24}" by (auto simp: tld_label_def)
  show "finite {t :: string. set t \<subseteq> UNIV \<and> length t \<le> 24}" by (rule finite_lists_length_le) simp
qed

definition series_inv :: "metrics option \<Rightarrow> bool" where
  "series_inv m \<longleftrightarrow>
     (\<forall>x. m = Some x \<longrightarrow> (\<forall>p t r. me_LookupDuration x (p, t, r) \<noteq> [] \<longrightarrow> tld_label t))"

lemma metric_step_inv: "series_inv m \<Longrightarrow> series_inv (metric_step m x)"
  using safeTLD_label by (cases x; cases m) (auto simp: series_inv_def metric_defs)

interpretation metric: op_system metric_step "\<lambda>s x. True" series_inv
  by unfold_locales (rule metric_step_inv)

lemma itoa_loop_append: "0 < n \<Longrightarrow> itoa_loop n acc = format_uint (nat n) @ acc"
proof (induction n acc rule: itoa_loop.induct)
  case (1 n acc)
  have d: "nat (n div 10) = nat n div 10" "nat (48 + n mod 10) = nat n mod 10 + 48"
    using "1.prems" by (simp_all add: nat_div_distrib nat_mod_distrib nat_add_distrib)
  show ?case
  proof (cases "n < 10")
    case True
    then have "n div 10 = 0" "n mod 10 = n" using "1.prems" by auto
    then show ?thesis using "1.prems" True
      by (subst itoa_loop.simps, subst itoa_loop.simps, subst format_uint.simps) (auto simp: nat_add_distrib add.commute)
  next
    case False
    then have "0 < n div 10" by auto
    then have "itoa_loop n acc = format_uint (nat n div 10) @ char_of (nat n mod 10 + 48) # acc"
      using "1.IH" "1.prems" d by (subst itoa_loop.simps) simp
    also have "\<dots> = format_uint (nat n) @ acc" using False by (subst (2) format_uint.simps) auto
    finally show ?thesis .
  qed
qed

section \<open>Properties\<close>

text \<open>The series of the lookup histogram stay few: whatever TLDs the lookups report, each series has a TLD label of at
  most 24 lower-case letters, digits and hyphens, so the number of labels is bounded for good.\<close>

theorem lookup_series_bounded:
  assumes "m = run metric_step (Some NewMetrics) ops"
  shows "\<exists>x. m = Some x \<and> finite {t. \<exists>p r. me_LookupDuration x (p, t, r) \<noteq> []} \<and>
    (\<forall>p t r. me_LookupDuration x (p, t, r) \<noteq> [] \<longrightarrow> tld_label t)"
proof -
  have "series_inv (Some NewMetrics)" by (simp add: series_inv_def NewMetrics_def)
  then have inv: "series_inv m" using metric.run_inv [of "Some NewMetrics" ops] assms by simp
  have "run metric_step (Some x) ops \<noteq> None" for x
  proof (induction ops arbitrary: x)
    case (Cons o' ops)
    obtain y where "metric_step (Some x) o' = Some y" by (cases o') (auto simp: metric_defs)
    then show ?case using Cons by simp
  qed simp
  then obtain x where x: "m = Some x" using assms by auto
  moreover have l: "\<forall>p t r. me_LookupDuration x (p, t, r) \<noteq> [] \<longrightarrow> tld_label t" using inv x by (simp add: series_inv_def)
  moreover have "finite {t. \<exists>p r. me_LookupDuration x (p, t, r) \<noteq> []}"
    by (rule finite_subset [OF _ tld_labels_finite]) (use l in auto)
  ultimately show ?thesis by blast
qed

text \<open>The hand-written decimal conversion agrees with the one of \<open>strconv\<close>.\<close>

lemma itoa_is_decimal: "0 \<le> n \<Longrightarrow> itoa n = format_uint (nat n)"
proof (cases "n = 0")
  case True
  moreover have "char_of (48 :: nat) = CHR ''0''" by (simp add: char_of_def bit_0)
  ultimately show ?thesis by (simp add: itoa_def format_uint.simps)
qed (use itoa_loop_append [of n "[]"] in \<open>simp_all add: itoa_def\<close>)

text \<open>A redacted secret reveals its length and nothing else.\<close>

lemma redaction_hides: "length s = length t \<Longrightarrow> RedactSecret s = RedactSecret t"
  by (cases s; cases t) (auto simp: RedactSecret_def)

text \<open>An endpoint that is given is exported to, or the start fails: there is no silent fallback.\<close>

lemma tracing_never_falls_back:
  "trim_space (tc_Endpoint opt) \<noteq> [] \<Longrightarrow> InitTracing parse ok opt = Inr t \<Longrightarrow>
     \<exists>s u. t = Exporting (tc_Endpoint opt) s \<and> parse (tc_Endpoint opt) = Some u \<and> tu_Host u \<noteq> [] \<and> tu_Scheme u \<in> {''http'', ''https''}"
  by (auto simp: InitTracing_def Let_def split: option.splits if_splits)

end
