(* ===== verification/Process.thy ===== *)
theory Process
  imports System Telemetry
begin

text \<open>
  The process around the server: the command line, \<open>main\<close>, \<open>run\<close> and its background loops
  (\<open>cmd/whois-mcp/main.go\<close>, and the flags of \<open>listen.go\<close>). Package \<open>flag\<close> is modelled as the standard library
  documents and implements it for string flags. The environment, the embedded snapshots, the clocks, the
  random draws and how the listener ends are arguments.
\<close>

section \<open>The command line\<close>

datatype flag_error = BadFlagSyntax string | FlagNotDefined string | FlagNeedsArgument string | ErrHelp

text \<open>\<open>registerListenFlags\<close>: the flags that exist, and the field that each one sets; \<open>None\<close> for a name that is not
  registered.\<close>

definition no_flags :: listenFlags where
  "no_flags = \<lparr>lf_listen = [], lf_address = [], lf_port = []\<rparr>"

definition registerListenFlags :: "string \<Rightarrow> (string \<Rightarrow> listenFlags \<Rightarrow> listenFlags) option" where
  "registerListenFlags name =
     (if name = ''listen'' then Some (\<lambda>v lf. lf\<lparr>lf_listen := v\<rparr>)
      else if name = ''address'' then Some (\<lambda>v lf. lf\<lparr>lf_address := v\<rparr>)
      else if name = ''port'' then Some (\<lambda>v lf. lf\<lparr>lf_port := v\<rparr>)
      else None)"

text \<open>One step of \<open>FlagSet.Parse\<close>: the arguments that are left when no flag comes next, an error, or the flags after
  one more was read.\<close>

datatype flag_step = FlagsEnd "string list" | FlagFailed flag_error | FlagSeen listenFlags "string list"

definition flag_value :: "string \<Rightarrow> string option \<Rightarrow> string list \<Rightarrow> listenFlags \<Rightarrow> flag_step" where
  "flag_value name value rest lf =
     (case registerListenFlags name of
        None \<Rightarrow> FlagFailed (if name = ''help'' \<or> name = ''h'' then ErrHelp else FlagNotDefined name)
      | Some set_flag \<Rightarrow>
          (case value of
             Some v \<Rightarrow> FlagSeen (set_flag v lf) rest
           | None \<Rightarrow>
               (case rest of
                  [] \<Rightarrow> FlagFailed (FlagNeedsArgument name)
                | v # rest \<Rightarrow> FlagSeen (set_flag v lf) rest)))"

fun parseOne :: "string list \<Rightarrow> listenFlags \<Rightarrow> flag_step" where
  "parseOne [] lf = FlagsEnd []"
| "parseOne (s # rest) lf =
     (if length s < 2 \<or> hd s \<noteq> CHR ''-'' then FlagsEnd (s # rest)
      else if s = ''--'' then FlagsEnd rest
      else
        let name = (if s ! 1 = CHR ''-'' then drop 2 s else drop 1 s)
        in if name = [] \<or> hd name = CHR ''-'' \<or> hd name = CHR ''='' then FlagFailed (BadFlagSyntax s)
           else case cut (CHR ''='') name of
             (n, v, found) \<Rightarrow> flag_value n (if found then Some v else None) rest lf)"

lemma parseOne_shorter: "parseOne args lf = FlagSeen lf' rest \<Longrightarrow> length rest < length args"
  by (cases args) (auto simp: flag_value_def Let_def split: if_splits option.splits list.splits prod.splits)

function parse_flags :: "string list \<Rightarrow> listenFlags \<Rightarrow> flag_error + listenFlags \<times> string list" where
  "parse_flags args lf =
     (case parseOne args lf of
        FlagsEnd rest \<Rightarrow> Inr (lf, rest)
      | FlagFailed e \<Rightarrow> Inl e
      | FlagSeen lf rest \<Rightarrow> parse_flags rest lf)"
  by pat_completeness auto

termination parse_flags
  by (relation "measure (length \<circ> fst)") (auto dest: parseOne_shorter)

declare parse_flags.simps [simp del]

section \<open>From the settings to a server\<close>

record config =
  cg_listen :: string
  cg_logLevel :: string
  cg_bootstrapURL :: string
  cg_otelEndpoint :: string

definition BootstrapURL :: string where "BootstrapURL = ''https://data.iana.org/rdap/dns.json''"

definition loadConfig ::
    "(string \<Rightarrow> ip option) \<Rightarrow> listenFlags \<Rightarrow> (string \<Rightarrow> string) \<Rightarrow> (string \<times> listen_error) + config" where
  "loadConfig parse_ip lf getenv =
     (case resolveListen parse_ip (Some lf) getenv of
        Inl e \<Rightarrow> Inl e
      | Inr listen \<Rightarrow>
          Inr \<lparr>cg_listen = listen,
               cg_logLevel = env getenv ''WHOIS_MCP_LOG_LEVEL'' ''info'',
               cg_bootstrapURL = env getenv ''WHOIS_MCP_RDAP_BOOTSTRAP_URL'' BootstrapURL,
               cg_otelEndpoint = env getenv ''WHOIS_MCP_OTEL_ENDPOINT'' []\<rparr>)"

text \<open>What a start draws from its surroundings: the embedded snapshots with the clock readings at which they are loaded,
  URL parsing and whether an exporter can be made, and what \<open>buildAuth\<close> draws.\<close>

record launch =
  la_getenv :: "string \<Rightarrow> string"
  la_parseIP :: "string \<Rightarrow> ip option"
  la_keys :: keylib
  la_argon :: "string \<Rightarrow> string \<Rightarrow> string"
  la_draws :: setup_draws
  la_dns :: "bootstrapDoc option \<times> time"
  la_net :: net_lib
  la_nets :: "(string \<times> string \<times> string) \<times> time \<times> time \<times> time"
  la_parseURL :: "string \<Rightarrow> trace_url option"
  la_exporter :: "string \<Rightarrow> bool"
  la_version :: string

datatype run_error =
    RunRefused start_error
  | BootstrapUnloaded load_error
  | NetBootstrapUnloaded load_error
  | TracingRefused trace_error
  | ServeFailed
  | ShutdownTimedOut

record running =
  rn_config :: config
  rn_registry :: registry
  rn_netReg :: netRegistry
  rn_tracing :: tracing
  rn_stack :: "auth_stack option"

definition trace_options :: "launch \<Rightarrow> config \<Rightarrow> traceOptions" where
  "trace_options L cfg = \<lparr>tc_Endpoint = cg_otelEndpoint cfg, tc_ServiceName = ''whois-mcp'', tc_ServiceVersion = la_version L,
     tc_SampleRatio = 0\<rparr>"

text \<open>\<open>run\<close> until it serves: every step that may refuse, in its order.\<close>

definition prepare :: "launch \<Rightarrow> listenFlags \<Rightarrow> run_error + running" where
  "prepare L lf =
     (case loadConfig (la_parseIP L) lf (la_getenv L) of
        Inl (name, e) \<Rightarrow> Inl (RunRefused (BadListenSetting name e))
      | Inr cfg \<Rightarrow>
          (let acfg = loadAuthConfig (la_getenv L)
           in case checkExposure (la_parseIP L) (cg_listen cfg) acfg of
                Some e \<Rightarrow> Inl (RunRefused (Exposed e))
              | None \<Rightarrow>
                  (case NewRegistry (fst (la_dns L)) (snd (la_dns L)) of
                     Inl e \<Rightarrow> Inl (BootstrapUnloaded e)
                   | Inr reg \<Rightarrow>
                       (case la_nets L of ((v4, v6, asn), ts) \<Rightarrow>
                          (case NewNetRegistry (la_net L) v4 v6 asn ts of
                             Inl e \<Rightarrow> Inl (NetBootstrapUnloaded e)
                           | Inr netReg \<Rightarrow>
                               (case InitTracing (la_parseURL L) (la_exporter L) (trace_options L cfg) of
                                  Inl e \<Rightarrow> Inl (TracingRefused e)
                                | Inr tracing \<Rightarrow>
                                    (case buildAuth (la_keys L) (la_argon L) (la_draws L) (cg_listen cfg) acfg NewMemoryStore of
                                       Inl e \<Rightarrow> Inl (RunRefused e)
                                     | Inr stack \<Rightarrow>
                                         Inr \<lparr>rn_config = cfg, rn_registry = reg, rn_netReg = netReg, rn_tracing = tracing,
                                              rn_stack = stack\<rparr>)))))))"

text \<open>How serving ended: the listener failed, or a signal came, and then whether \<open>Shutdown\<close> finished in its ten seconds.\<close>

datatype serve_end = ListenerFailed | Signalled bool

definition run_server :: "launch \<Rightarrow> listenFlags \<Rightarrow> serve_end \<Rightarrow> run_error option" where
  "run_server L lf how =
     (case prepare L lf of
        Inl e \<Rightarrow> Some e
      | Inr r \<Rightarrow>
          (case how of
             ListenerFailed \<Rightarrow> Some ServeFailed
           | Signalled drained \<Rightarrow> if drained then None else Some ShutdownTimedOut))"

definition main :: "launch \<Rightarrow> string list \<Rightarrow> serve_end \<Rightarrow> nat" where
  "main L args how =
     (case parse_flags args no_flags of
        Inl e \<Rightarrow> if e = ErrHelp then 0 else 2
      | Inr (lf, rest) \<Rightarrow>
          if rest \<noteq> [] then 2
          else case run_server L lf how of None \<Rightarrow> 0 | Some e \<Rightarrow> 1)"

text \<open>The line in the log about the authentication.\<close>

definition authState :: "auth_stack option \<Rightarrow> string" where
  "authState stack =
     (case stack of
        None \<Rightarrow> ''NONE - loopback only''
      | Some st \<Rightarrow>
          ''OAuth 2.1, issuer '' @ is_issuer (as_issuer st) @
          (if as_staticTok st \<noteq> [] then '' (WHOIS_MCP_DEV_STATIC_BEARER enabled)'' else []))"

section \<open>Assembly\<close>

text \<open>The constructors that \<open>run\<close> calls for the two clients. One guard with the default limits stands before both
  protocols.\<close>

definition NewClientWithOptions :: "registry \<Rightarrow> bool \<Rightarrow> rdap_client" where
  "NewClientWithOptions reg followRegistrar = \<lparr>cl_reg = reg, cl_followRegistrar = followRegistrar\<rparr>"

definition NewClient :: "registry \<Rightarrow> rdap_client" where
  "NewClient reg = NewClientWithOptions reg True"

definition NewGuard :: "'b limiter option \<Rightarrow> breaker option \<Rightarrow> 'b guard" where
  "NewGuard l br = \<lparr>gd_lim = l, gd_br = br\<rparr>"

definition shared_guard :: "'b guard" where
  "shared_guard = NewGuard (Some (NewLimiter 0 0)) (Some (NewBreaker 0 0 0))"

definition serving :: "'b program \<Rightarrow> auth_lib \<Rightarrow> running \<Rightarrow> 'b program" where
  "serving pg A r =
     pg\<lparr>pg_deployment := (pg_deployment pg)\<lparr>dp_transport := NewTransport DefaultTimeout, dp_client := NewClient (rn_registry r),
          dp_netReg := Some (rn_netReg r)\<rparr>,
        pg_resolver := NewResolver,
        pg_auth := map_option (\<lambda>st. \<lparr>cf_lib = A, cf_issuer = as_issuer st, cf_form = True\<rparr>) (rn_stack r),
        pg_static := (case rn_stack r of None \<Rightarrow> [] | Some st \<Rightarrow> as_staticTok st)\<rparr>"

text \<open>Without authentication there is no authorization server; \<open>absent\<close> stands in its place and no step reads it.\<close>

definition first_state :: "enrollment \<Rightarrow> running \<Rightarrow> 'b system" where
  "first_state absent r =
     \<lparr>sy_server = (case rn_stack r of None \<Rightarrow> new_server absent | Some st \<Rightarrow> as_server st),
      sy_resolver = \<lparr>st_guard = Some shared_guard, st_cache = NewMemory\<rparr>,
      sy_registry = rn_registry r, sy_netReg = rn_netReg r\<rparr>"

section \<open>Background loops\<close>

text \<open>The loops do their work once and then at every tick, until the context is cancelled, which is \<open>None\<close>.\<close>

fun tick_loop :: "('x \<Rightarrow> 's \<Rightarrow> 's) \<Rightarrow> 'x option list \<Rightarrow> 's \<Rightarrow> 's" where
  "tick_loop f [] s = s"
| "tick_loop f (None # xs) s = s"
| "tick_loop f (Some x # xs) s = tick_loop f xs (f x s)"

definition refreshBootstrap_loop ::
    "'b program \<Rightarrow> (string \<Rightarrow> http_reply option) \<times> time \<Rightarrow> ((string \<Rightarrow> http_reply option) \<times> time) option list \<Rightarrow>
     'b system \<Rightarrow> 'b system" where
  "refreshBootstrap_loop pg x xs s =
     (let f = (\<lambda>(fetch, now). refreshBootstrap pg fetch now) in tick_loop f xs (f x s))"

definition refreshNetBootstrap_loop ::
    "'b program \<Rightarrow> (family \<Rightarrow> http_reply option) \<times> (family \<Rightarrow> time) \<Rightarrow>
     ((family \<Rightarrow> http_reply option) \<times> (family \<Rightarrow> time)) option list \<Rightarrow> 'b system \<Rightarrow> 'b system" where
  "refreshNetBootstrap_loop pg x xs s =
     (let f = (\<lambda>(replies, clock). refreshNetBootstrap pg replies clock) in tick_loop f xs (f x s))"

text \<open>A round of the gauges reads the hosts that are open and the number of active sessions, negative when the
  store could not be read. The hosts ever open are kept in the order of their first appearance; the
  iteration order of the map that holds them does not matter, since each has its own series.\<close>

type_synonym gauge_round = "string list \<times> int"

definition publish_round :: "gauge_round \<Rightarrow> string list \<times> metrics option \<Rightarrow> string list \<times> metrics option" where
  "publish_round rd st =
     (case rd of (hosts, n) \<Rightarrow>
        (let known = fold List.insert hosts (fst st);
             m = fold (\<lambda>h m. SetBreakerOpen m h True) hosts (snd st);
             m = fold (\<lambda>h m. if h \<in> set hosts then m else SetBreakerOpen m h False) known m
         in (known, if 0 \<le> n then SetActiveSessions m n else m)))"

definition publishGauges :: "gauge_round \<Rightarrow> gauge_round option list \<Rightarrow> metrics option \<Rightarrow> metrics option" where
  "publishGauges x xs m = snd (tick_loop publish_round xs (publish_round x ([], m)))"

text \<open>The readings of a round, from the shared guard and the session store.\<close>

definition gauge_reading :: "'b guard option \<Rightarrow> string list \<Rightarrow> time \<Rightarrow> memory_store \<Rightarrow> string list \<Rightarrow> time \<Rightarrow> gauge_round" where
  "gauge_reading g hosts now sessions ord t = (GuardOpenHosts g hosts now, int (activeSessions sessions ord t))"

section \<open>Lemmas\<close>

text \<open>The ways to write a flag: one dash or two, the value after an equals sign or in the next argument.\<close>

datatype flag_id = FlagListen | FlagAddress | FlagPort

fun flag_name :: "flag_id \<Rightarrow> string" where
  "flag_name FlagListen = ''listen''"
| "flag_name FlagAddress = ''address''"
| "flag_name FlagPort = ''port''"

fun flag_field :: "flag_id \<Rightarrow> string \<Rightarrow> listenFlags \<Rightarrow> listenFlags" where
  "flag_field FlagListen v lf = lf\<lparr>lf_listen := v\<rparr>"
| "flag_field FlagAddress v lf = lf\<lparr>lf_address := v\<rparr>"
| "flag_field FlagPort v lf = lf\<lparr>lf_port := v\<rparr>"

record flag_use =
  fu_flag :: flag_id
  fu_value :: string
  fu_two :: bool
  fu_joined :: bool

definition spelled :: "flag_use \<Rightarrow> string list" where
  "spelled u =
     (let s = (if fu_two u then ''--'' else ''-'') @ flag_name (fu_flag u)
      in if fu_joined u then [s @ ''='' @ fu_value u] else [s, fu_value u])"

definition last_value :: "flag_id \<Rightarrow> flag_use list \<Rightarrow> string \<Rightarrow> string" where
  "last_value f us d = foldl (\<lambda>d u. if fu_flag u = f then fu_value u else d) d us"

lemma registered_flag: "registerListenFlags (flag_name f) = Some (flag_field f)"
  by (cases f) (auto simp: registerListenFlags_def fun_eq_iff)

lemma cut_name: "CHR ''='' \<notin> set n \<Longrightarrow> cut (CHR ''='') (n @ CHR ''='' # v) = (n, v, True)"
  and cut_bare: "CHR ''='' \<notin> set n \<Longrightarrow> cut (CHR ''='') n = (n, [], False)"
proof -
  assume n: "CHR ''='' \<notin> set n"
  then have "index_any (n @ CHR ''='' # v) [CHR ''=''] = Some (length n)" by (induction n) auto
  then show "cut (CHR ''='') (n @ CHR ''='' # v) = (n, v, True)" by (simp add: cut_def)
  from n have "index_any n [CHR ''=''] = None" by (induction n) auto
  then show "cut (CHR ''='') n = (n, [], False)" by (simp add: cut_def)
qed

lemma flag_name_plain: "CHR ''='' \<notin> set (flag_name f)" "flag_name f \<noteq> []" "hd (flag_name f) \<noteq> CHR ''-''"
    "hd (flag_name f) \<noteq> CHR ''=''"
  by (cases f; simp)+

lemma parseOne_dashes:
  assumes "n \<noteq> []" and "hd n \<noteq> CHR ''-''" and "hd n \<noteq> CHR ''=''"
  shows "parseOne (((if two then ''--'' else ''-'') @ n) # rest) lf =
    (case cut (CHR ''='') n of (m, v, found) \<Rightarrow> flag_value m (if found then Some v else None) rest lf)"
  using assms by (cases n) (auto simp: Let_def)

lemma parseOne_spelled: "parseOne (spelled u @ rest) lf = FlagSeen (flag_field (fu_flag u) (fu_value u) lf) rest"
proof -
  note n = flag_name_plain [of "fu_flag u"]
  have h: "flag_name (fu_flag u) @ ''='' @ fu_value u \<noteq> []" "hd (flag_name (fu_flag u) @ ''='' @ fu_value u) \<noteq> CHR ''-''"
      "hd (flag_name (fu_flag u) @ ''='' @ fu_value u) \<noteq> CHR ''=''"
    using n(2-4) by simp_all
  show ?thesis
    using parseOne_dashes [OF h, of "fu_two u" rest lf] parseOne_dashes [OF n(2-4), of "fu_two u" "fu_value u # rest" lf]
    by (simp add: spelled_def Let_def cut_name [OF n(1)] cut_bare [OF n(1)] flag_value_def registered_flag)
qed

lemma parse_spelled: "parse_flags (concat (map spelled us)) lf = Inr (foldl (\<lambda>lf u. flag_field (fu_flag u) (fu_value u) lf) lf us, [])"
proof (induction us arbitrary: lf)
  case (Cons u us)
  then show ?case by (subst parse_flags.simps) (simp add: parseOne_spelled)
qed (simp add: parse_flags.simps)

lemma fields_after:
  "foldl (\<lambda>lf u. flag_field (fu_flag u) (fu_value u) lf) lf us =
     \<lparr>lf_listen = last_value FlagListen us (lf_listen lf), lf_address = last_value FlagAddress us (lf_address lf),
      lf_port = last_value FlagPort us (lf_port lf)\<rparr>"
proof (induction us arbitrary: lf)
  case (Cons u us)
  show ?case by (simp only: foldl_Cons Cons.IH) (cases "fu_flag u"; simp add: last_value_def)
qed (simp add: last_value_def)

lemma prepared_startup:
  assumes "prepare L lf = Inr r"
  shows "startup (la_parseIP L) (la_keys L) (la_argon L) (la_draws L) (Some lf) (la_getenv L) =
    Inr (cg_listen (rn_config r), rn_stack r)"
  using assms by (auto simp: prepare_def loadConfig_def startup_def Let_def split: sum.splits option.splits prod.splits)

lemma prepared_registries:
  assumes "prepare L lf = Inr r"
  shows "\<exists>doc now. NewRegistry doc now = Inr (rn_registry r)"
    and "\<exists>v4 v6 asn ts. NewNetRegistry (la_net L) v4 v6 asn ts = Inr (rn_netReg r)"
  using assms by (fastforce simp: prepare_def Let_def split: sum.splits option.splits prod.splits)+

text \<open>The log never says that a server reachable from other hosts runs open, nor with the development bearer.\<close>

lemma off_host_log:
  assumes "prepare L lf = Inr r" and "requireLoopback (la_parseIP L) (cg_listen (rn_config r)) \<noteq> None"
  shows "\<exists>st. rn_stack r = Some st \<and> authState (rn_stack r) = ''OAuth 2.1, issuer '' @ is_issuer (as_issuer st)"
  using startup_off_host [OF prepared_startup [OF assms(1)] assms(2)] by (auto simp: authState_def)

text \<open>What is assembled is an initial state of the transition system of the running server.\<close>

lemma prepared_initial:
  assumes "prepare L lf = Inr r" and "pg_net pg = la_net L"
  shows "initial (serving pg A r) (first_state absent r)"
proof -
  have "\<exists>en. sy_server (first_state absent r) = new_server en"
    using started_server_is_new [of "la_parseIP L" "la_keys L" "la_argon L" "la_draws L" "Some lf" "la_getenv L"]
      prepared_startup [OF assms(1)]
    by (cases "rn_stack r") (auto simp: first_state_def)
  then show ?thesis using prepared_registries [OF assms(1)] assms(2)
    by (auto simp: initial_def first_state_def serving_def)
qed

text \<open>The loops are sequences of the refresh steps of that system.\<close>

lemma tick_loop_reaches:
  assumes "\<forall>x s. sys_step pg s e (f x s)" and "reaches pg s0 tr s"
  shows "\<exists>k. reaches pg s0 (tr @ replicate k e) (tick_loop f xs s)"
  using assms
proof (induction f xs s arbitrary: tr rule: tick_loop.induct)
  case (3 f x xs s)
  from 3(3) 3(2) have "reaches pg s0 (tr @ [e]) (f x s)" by (blast intro: reaches.step)
  with 3 obtain k where "reaches pg s0 ((tr @ [e]) @ replicate k e) (tick_loop f xs (f x s))" by blast
  then show ?case by (intro exI [of _ "Suc k"]) simp
qed (auto intro: exI [of _ "0 :: nat"])

lemma refresh_loops_reach:
  "\<exists>k. reaches pg s (replicate (Suc k) EvRefresh) (refreshBootstrap_loop pg x xs s)"
  "\<exists>k. reaches pg s (replicate (Suc k) EvNetRefresh) (refreshNetBootstrap_loop pg y ys s)"
proof -
  have one: "\<exists>k. reaches pg s (replicate (Suc k) e) (tick_loop f xs (f x s))"
    if "\<forall>x s. sys_step pg s e (f x s)" for e xs and f :: "'z \<Rightarrow> _" and x
  proof -
    have "reaches pg s [e] (f x s)" using reaches.step [OF reaches.start, of pg s e "f x s"] that by simp
    from tick_loop_reaches [OF that this, of xs] show ?thesis by simp
  qed
  show "\<exists>k. reaches pg s (replicate (Suc k) EvRefresh) (refreshBootstrap_loop pg x xs s)"
    unfolding refreshBootstrap_loop_def Let_def by (rule one) (auto intro: sys_step.refresh)
  show "\<exists>k. reaches pg s (replicate (Suc k) EvNetRefresh) (refreshNetBootstrap_loop pg y ys s)"
    unfolding refreshNetBootstrap_loop_def Let_def by (rule one) (auto intro: sys_step.netRefresh)
qed

text \<open>The rounds of the gauges implement \<open>publish\<close>.\<close>

lemma insert_hosts: "set (fold List.insert hosts known) = set known \<union> set hosts"
  by (induction hosts arbitrary: known) auto

lemma breakers_set:
  "fold (\<lambda>h m. if P h then m else SetBreakerOpen m h b) hs (Some m) =
     Some (m\<lparr>me_BreakerOpen := (\<lambda>h. if h \<in> set hs \<and> \<not> P h then Some b else me_BreakerOpen m h)\<rparr>)"
  by (induction hs arbitrary: m) (auto simp: SetBreakerOpen_def fun_eq_iff)

lemma publish_round_eq:
  "\<exists>known' x. publish_round (hosts, n) (known, Some m) = (known', Some x) \<and>
     publish hosts (set known, me_BreakerOpen m) = (set known', me_BreakerOpen x) \<and>
     me_ActiveSessions x = (if 0 \<le> n then n else me_ActiveSessions m)"
proof -
  let ?known = "fold List.insert hosts known"
  define x where "x = m\<lparr>me_BreakerOpen := (\<lambda>h. if h \<in> set ?known \<and> h \<notin> set hosts then Some False
      else if h \<in> set hosts then Some True else me_BreakerOpen m h), me_ActiveSessions := if 0 \<le> n then n else me_ActiveSessions m\<rparr>"
  have "publish_round (hosts, n) (known, Some m) = (?known, Some x)"
    using breakers_set [of "\<lambda>h. False" True hosts m]
    by (simp add: publish_round_def Let_def breakers_set SetActiveSessions_def x_def cong: if_cong)
  moreover have "publish hosts (set known, me_BreakerOpen m) = (set ?known, me_BreakerOpen x)"
    "me_ActiveSessions x = (if 0 \<le> n then n else me_ActiveSessions m)"
    by (auto simp: publish_def Let_def insert_hosts fun_eq_iff x_def)
  ultimately show ?thesis by blast
qed

lemma tick_loop_ticks: "tick_loop f (map Some xs @ None # ys) s = fold f xs s"
  by (induction xs arbitrary: s) auto

lemma gauge_rounds:
  "\<exists>known m. fold publish_round rounds ([], Some NewMetrics) = (known, Some m) \<and>
     set known = (\<Union>rd \<in> set rounds. set (fst rd)) \<and>
     (\<forall>h. me_BreakerOpen m h = (if h \<notin> set known then None else Some (h \<in> set (fst (last rounds))))) \<and>
     (rounds \<noteq> [] \<longrightarrow> 0 \<le> snd (last rounds) \<longrightarrow> me_ActiveSessions m = snd (last rounds))"
proof (induction rounds rule: rev_induct)
  case (snoc rd rounds)
  obtain hosts n where rd: "rd = (hosts, n)" by fastforce
  from snoc obtain known m where m: "fold publish_round rounds ([], Some NewMetrics) = (known, Some m)"
      "set known = (\<Union>rd \<in> set rounds. set (fst rd))"
      "\<forall>h. me_BreakerOpen m h = (if h \<notin> set known then None else Some (h \<in> set (fst (last rounds))))" by blast
  obtain known' x where x: "publish_round (hosts, n) (known, Some m) = (known', Some x)"
      "publish hosts (set known, me_BreakerOpen m) = (set known', me_BreakerOpen x)"
      "me_ActiveSessions x = (if 0 \<le> n then n else me_ActiveSessions m)" using publish_round_eq by blast
  have "set known' = set known \<union> set hosts" "me_BreakerOpen x = (\<lambda>h. if h \<in> set hosts then Some True
      else if h \<in> set known then Some False else me_BreakerOpen m h)"
    using x(2) by (auto simp: publish_def Let_def cong: if_cong)
  then have "set known' = set known \<union> set hosts"
      "\<forall>h. me_BreakerOpen x h = (if h \<notin> set known' then None else Some (h \<in> set hosts))"
    using m(3) by auto
  then show ?case using m(1,2) x(1,3) rd by (intro exI [of _ known'] exI [of _ x]) auto
qed (simp add: NewMetrics_def)

section \<open>A concrete start\<close>

definition demo_launch :: launch where
  "demo_launch = \<lparr>la_getenv = demo_env, la_parseIP = (\<lambda>_. None), la_keys = demo_keylib, la_argon = (\<lambda>p s. p),
     la_draws = \<lparr>sd_keypair = Some (''k'', ''k''), sd_salt = Some ''n'', sd_form = True\<rparr>,
     la_dns = (Some \<lparr>bd_Publication = zero_time, bd_Services = [[[''io''], [''https://a/'', ''https://b/'']]]\<rparr>, zero_time),
     la_net = Rdap_Registry.demo_lib, la_nets = ((''8/8'', ''::/0'', ''5-9''), 1, 2, 3), la_parseURL = (\<lambda>_. None),
     la_exporter = (\<lambda>_. True), la_version = []\<rparr>"

lemma demo_prepared: "\<exists>r. prepare demo_launch no_flags = Inr r \<and> rn_registry r = cl_reg demo_client"
proof -
  have "usable_service [[''io''], [''https://a/'', ''https://b/'']] = Some ([''io''], [''https://a/'', ''https://b/''])"
      "service_entries ([''io''], [''https://a/'', ''https://b/'']) = [(''io'', [''https://a/'', ''https://b/''])]"
    by (simp_all add: usable_service_def preferHTTPS_def https_base_def service_entries_def text_eval List.map_filter_simps)
  then have g: "NewRegistry (fst (la_dns demo_launch)) (snd (la_dns demo_launch)) = Inr (cl_reg demo_client)"
    by (simp add: demo_launch_def NewRegistry_def load_def tld_entries_def List.map_filter_def empty_registry_def demo_client_def)
  obtain st where "startup (\<lambda>_. None) demo_keylib (\<lambda>p s. p) (la_draws demo_launch) None demo_env = Inr ('':9'', Some st)"
    using demo_started [of "''k''" "''k''"] by (auto simp: demo_launch_def)
  then have s: "resolveListen (\<lambda>_. None) None demo_env = Inr '':9''" "checkExposure (\<lambda>_. None) '':9'' (loadAuthConfig demo_env) = None"
      "buildAuth demo_keylib (\<lambda>p s. p) (la_draws demo_launch) '':9'' (loadAuthConfig demo_env) NewMemoryStore = Inr (Some st)"
    by (auto simp: startup_def Let_def split: sum.splits option.splits)
  have "resolveListen (\<lambda>_. None) (Some no_flags) demo_env = resolveListen (\<lambda>_. None) None demo_env"
    by (simp add: resolveListen_def no_flags_def)
  moreover have "env demo_env ''WHOIS_MCP_OTEL_ENDPOINT'' [] = []" "trim_space [] = []"
    by (simp_all add: env_def demo_env_def text_eval)
  ultimately have "loadConfig (la_parseIP demo_launch) no_flags (la_getenv demo_launch) =
      Inr \<lparr>cg_listen = '':9'', cg_logLevel = env demo_env ''WHOIS_MCP_LOG_LEVEL'' ''info'',
        cg_bootstrapURL = env demo_env ''WHOIS_MCP_RDAP_BOOTSTRAP_URL'' BootstrapURL, cg_otelEndpoint = []\<rparr>"
    using s(1) by (simp add: loadConfig_def demo_launch_def)
  moreover have "InitTracing (la_parseURL demo_launch) (la_exporter demo_launch) (trace_options demo_launch
      \<lparr>cg_listen = l, cg_logLevel = v, cg_bootstrapURL = u, cg_otelEndpoint = []\<rparr>) = Inr NotExported" for l v u
    by (simp add: InitTracing_def trace_options_def text_eval)
  moreover have "la_getenv demo_launch = demo_env" "la_parseIP demo_launch = (\<lambda>_. None)" "la_keys demo_launch = demo_keylib"
      "la_argon demo_launch = (\<lambda>p s. p)" "la_net demo_launch = Rdap_Registry.demo_lib"
      "la_nets demo_launch = ((''8/8'', ''::/0'', ''5-9''), 1, 2, 3)" by (simp_all add: demo_launch_def)
  ultimately show ?thesis using s(2,3) g Rdap_Registry.demo_new by (simp add: prepare_def Let_def)
qed

section \<open>Properties\<close>

text \<open>C38. The command line says what it means: for any uses of the three flags, each with one dash or two and its value after
  an equals sign or as the next argument, whatever the values are, parsing succeeds, leaves nothing, and gives
  each flag the last value that was written for it; the process then ends with 0 or 1, and never with the
  status of a wrong command line.\<close>

theorem flags_roundtrip:
  "parse_flags (concat (map spelled us)) no_flags =
     Inr (\<lparr>lf_listen = last_value FlagListen us [], lf_address = last_value FlagAddress us [], lf_port = last_value FlagPort us []\<rparr>, []) \<and>
   main L (concat (map spelled us)) how \<in> {0, 1}"
  by (simp add: parse_spelled fields_after no_flags_def main_def split: option.split)

text \<open>C8. A process that got as far as serving stays ready: after any requests and refreshes, failed or not, \<open>/readyz\<close> says
  ready, where \<open>ord\<close> enumerates the TLDs that the registry then holds.\<close>

theorem started_process_stays_ready:
  assumes "prepare L lf = Inr r" and "pg_net pg = la_net L"
    and "reaches (serving pg A r) (first_state absent r) tr s" and "set ord = dom (rg_byTLD (sy_registry s))"
  shows "readyz (la_parseIP L) (Count (sy_registry s) ord) (rn_stack r \<noteq> None) (cg_listen (rn_config r)) = Ready"
proof -
  have "rg_byTLD (sy_registry s) \<noteq> Map.empty"
    using reaches_inv [OF assms(3) initial_inv [OF prepared_initial [OF assms(1,2)]]] by (simp add: sys_inv_def)
  then obtain t where "t \<in> set ord" "rg_byTLD (sy_registry s) t \<noteq> None" using assms(4) by (auto simp: fun_eq_iff dom_def)
  then have "Count (sy_registry s) ord \<noteq> 0" by (auto simp: Count_def filter_empty_conv)
  then show ?thesis
    using started_is_protected [OF prepared_startup [OF assms(1)], of "Count (sy_registry s) ord"]
    by (auto simp: readyz_def split: if_splits)
qed

theorem started_process_stays_ready_witness:
  "\<exists>r s. prepare demo_launch \<lparr>lf_listen = [], lf_address = [], lf_port = []\<rparr> = Inr r \<and>
     s = refreshBootstrap (serving (demo_program None []) OAuth_Flow.demo_lib r) (\<lambda>_. None) 5 (first_state demo_enrollment r) \<and>
     readyz (\<lambda>_. None) (Count (sy_registry s) [''io'']) (rn_stack r \<noteq> None) (cg_listen (rn_config r)) = Ready"
proof -
  obtain r where r: "prepare demo_launch no_flags = Inr r" "rn_registry r = cl_reg demo_client" using demo_prepared by blast
  let ?pg = "serving (demo_program None []) OAuth_Flow.demo_lib r"
  define s where "s = refreshBootstrap ?pg (\<lambda>_. None) 5 (first_state demo_enrollment r)"
  have "reaches ?pg (first_state demo_enrollment r) ([] @ [EvRefresh]) s"
    unfolding s_def by (rule reaches.step [OF reaches.start sys_step.refresh])
  moreover have "sy_registry s = cl_reg demo_client" by (simp add: s_def refreshBootstrap_def Refresh_def first_state_def r(2))
  moreover have "pg_net (demo_program None []) = la_net demo_launch" by (simp add: demo_program_def demo_launch_def)
  ultimately have "readyz (la_parseIP demo_launch) (Count (sy_registry s) [''io'']) (rn_stack r \<noteq> None) (cg_listen (rn_config r)) = Ready"
    using started_process_stays_ready [OF r(1), of "demo_program None []" OAuth_Flow.demo_lib demo_enrollment "[] @ [EvRefresh]" s "[''io'']"]
    by (simp add: demo_client_def)
  then show ?thesis using r(1) s_def by (auto simp: demo_launch_def no_flags_def)
qed

text \<open>The gauges tell the truth about the last round and never drop a series: when the loop of \<open>publishGauges\<close> has run any
  number of rounds and is cancelled, a host's breaker gauge is absent if no round saw it open, and
  otherwise says whether the last round did; the session gauge is the count of the last round.\<close>

theorem gauges_follow_last_round:
  "let rounds = x # xs; reading = map_prod id int
   in \<exists>m. publishGauges (reading x) (map (Some \<circ> reading) xs @ None # ys) (Some NewMetrics) = Some m \<and>
        me_ActiveSessions m = int (snd (last rounds)) \<and>
        me_BreakerOpen m = (\<lambda>h. if h \<in> (\<Union>rd \<in> set rounds. set (fst rd)) then Some (h \<in> set (fst (last rounds))) else None)"
proof -
  let ?rs = "map (map_prod id int) (x # xs)"
  have l: "last ?rs = map_prod id int (last (x # xs))" by (rule last_map) simp
  have s: "(\<Union>rd \<in> set ?rs. set (fst rd)) = (\<Union>rd \<in> set (x # xs). set (fst rd))" by auto
  obtain known m where m: "fold publish_round ?rs ([], Some NewMetrics) = (known, Some m)"
      "set known = (\<Union>rd \<in> set ?rs. set (fst rd))"
      "\<forall>h. me_BreakerOpen m h = (if h \<notin> set known then None else Some (h \<in> set (fst (last ?rs))))"
      "me_ActiveSessions m = snd (last ?rs)"
    using gauge_rounds [of ?rs] l by (auto simp del: list.map(2))
  have "publishGauges (map_prod id int x) (map (Some \<circ> map_prod id int) xs @ None # ys) (Some NewMetrics) = Some m"
    using m(1) by (simp add: publishGauges_def tick_loop_ticks flip: map_map)
  then show ?thesis using m(2-4) unfolding l s Let_def by (auto simp: fun_eq_iff)
qed

end
