(* ===== verification/Flights.thy ===== *)
theory Flights
  imports Resolution
begin

text \<open>
  Concurrent lookups: \<open>Lookup\<close> and \<open>lookupOnce\<close> of \<open>internal/resolve/resolver.go\<close>, with the sections of a lookup as
  steps. A flight is one run of \<open>lookupOnce\<close>: it reads the cache, asks RDAP, may ask WHOIS, and stores its report,
  and between any two of these the sections of other flights and other calls of the resolver can run. Callers
  with the key of a flight under way join it (the documented behaviour of \<open>singleflight.Group\<close>: one execution per
  key at a time, whose result goes to every caller that came meanwhile). A section is one call of the cache or
  of a client, which locks for itself.
\<close>

section \<open>A flight\<close>

datatype phase =
    Probe
  | AskRdap
  | AskWhois string "domainReport option"
  | Keep domainReport
  | Landed "resolver_error + domainReport"

record flight =
  fl_query :: query
  fl_opt :: options
  fl_clock :: lookup_clock
  fl_phase :: phase

fun next_phase ::
    "libraries \<Rightarrow> 's upstreams \<Rightarrow> resolver \<Rightarrow> query \<Rightarrow> options \<Rightarrow> lookup_clock \<Rightarrow> phase \<Rightarrow> 's rstate \<Rightarrow> phase \<times> 's rstate" where
  "next_phase L U r q opt ck Probe s =
     (case cached_value (js_readReport (lb_json L)) (\<lambda>rep. so_FetchedAt (rp_Source rep)) ck (op_MaxAge opt)
             (cacheKey (qu_ASCII q)) s of
        (Some rep, s) \<Rightarrow> (Landed (Inr (rep\<lparr>rp_Source := (rp_Source rep)\<lparr>so_Cache := ''hit''\<rparr>\<rparr>)), s)
      | (None, s) \<Rightarrow> (AskRdap, s))"
| "next_phase L U r q opt ck AskRdap s =
     (case up_rdap U (st_guard s) q (op_SkipRegistrarReferral opt) of
        (Inl ErrNoRDAPService, g) \<Rightarrow>
          (AskWhois (''TLD .'' @ qu_TLD q @ '' publishes no RDAP service'') None, s\<lparr>st_guard := g\<rparr>)
      | (Inl e, g) \<Rightarrow> (Landed (Inl (RdapFailed e)), s\<lparr>st_guard := g\<rparr>)
      | (Inr res, g) \<Rightarrow>
          (let rep = rdap_report L q (lc_fetched ck) res
           in (if rp_Registered rep = tristate.Unknown \<and> up_whois U \<noteq> None
               then AskWhois ''RDAP returned no definite answer'' (Some rep) else Keep rep, s\<lparr>st_guard := g\<rparr>)))"
| "next_phase L U r q opt ck (AskWhois because before) s =
     (case viaWHOIS L U s q (lc_fetched ck) because of (alt, s) \<Rightarrow>
        (case before of
           None \<Rightarrow> Keep alt
         | Some rep \<Rightarrow>
             if rp_Registered alt \<noteq> tristate.Unknown then Keep (alt\<lparr>rp_Warnings := rp_Warnings alt @ rp_Warnings rep\<rparr>)
             else Keep rep, s))"
| "next_phase L U r q opt ck (Keep rep) s = (Landed (Inr rep), store L r ck (cacheKey (qu_ASCII q)) rep s)"
| "next_phase L U r q opt ck (Landed res) s = (Landed res, s)"

fun steps_left :: "phase \<Rightarrow> nat" where
  "steps_left Probe = 4"
| "steps_left AskRdap = 3"
| "steps_left (AskWhois because before) = 2"
| "steps_left (Keep rep) = 1"
| "steps_left (Landed res) = 0"

text \<open>The flight that runs without interruption, as \<open>n\<close> steps with one set of upstreams.\<close>

fun fly :: "nat \<Rightarrow> libraries \<Rightarrow> 's upstreams \<Rightarrow> resolver \<Rightarrow> query \<Rightarrow> options \<Rightarrow> lookup_clock \<Rightarrow> phase \<Rightarrow> 's rstate \<Rightarrow> phase \<times> 's rstate" where
  "fly 0 L U r q opt ck p s = (p, s)"
| "fly (Suc n) L U r q opt ck p s = (case next_phase L U r q opt ck p s of (p, s) \<Rightarrow> fly n L U r q opt ck p s)"

section \<open>Callers\<close>

datatype caller =
    Waiting string options string
  | Answered string "resolver_error + domainReport"

record 's airspace =
  ai_state :: "'s rstate"
  ai_flights :: "string \<rightharpoonup> flight"
  ai_callers :: "nat \<rightharpoonup> caller"

definition answer :: "string \<Rightarrow> resolver_error + domainReport \<Rightarrow> caller \<Rightarrow> caller" where
  "answer key res c =
     (case c of Waiting input opt k \<Rightarrow> if k = key then Answered input (land opt res) else c | Answered input x \<Rightarrow> c)"

definition not_lookup :: "resolver_op \<Rightarrow> bool" where
  "not_lookup x \<longleftrightarrow> (case x of OpLookup w ck input opt \<Rightarrow> False | _ \<Rightarrow> True)"

text \<open>The steps, each with the worlds it saw: a caller whose input is refused, one that takes off, one that joins, a section
  of a flight, a landing, and any other call of the resolver. The deployment may differ from step to step,
  since the bootstrap registries are refreshed meanwhile.\<close>

inductive air_step :: "libraries \<Rightarrow> resolver \<Rightarrow> 'b guard option airspace \<Rightarrow> world list \<Rightarrow> 'b guard option airspace \<Rightarrow> bool"
  for L r where
  refuse: "ai_callers a c = None \<Longrightarrow> NormalizeQuery (lb_names L) input = Inl e \<Longrightarrow>
    air_step L r a [] (a\<lparr>ai_callers := (ai_callers a)(c \<mapsto> Answered input (Inl (InvalidDomain e)))\<rparr>)"
| takeoff: "ai_callers a c = None \<Longrightarrow> NormalizeQuery (lb_names L) input = Inr q \<Longrightarrow> key = flightKey (qu_ASCII q) opt \<Longrightarrow>
    ai_flights a key = None \<Longrightarrow>
    air_step L r a [] (a\<lparr>ai_callers := (ai_callers a)(c \<mapsto> Waiting input opt key),
      ai_flights := (ai_flights a)(key \<mapsto> \<lparr>fl_query = q, fl_opt = opt, fl_clock = ck, fl_phase = Probe\<rparr>)\<rparr>)"
| join: "ai_callers a c = None \<Longrightarrow> NormalizeQuery (lb_names L) input = Inr q \<Longrightarrow> key = flightKey (qu_ASCII q) opt \<Longrightarrow>
    ai_flights a key = Some f \<Longrightarrow>
    air_step L r a [] (a\<lparr>ai_callers := (ai_callers a)(c \<mapsto> Waiting input opt key)\<rparr>)"
| advance: "ai_flights a key = Some f \<Longrightarrow>
    next_phase L (connect D w) r (fl_query f) (fl_opt f) (fl_clock f) (fl_phase f) (ai_state a) = (p, s) \<Longrightarrow>
    air_step L r a [w] (a\<lparr>ai_state := s, ai_flights := (ai_flights a)(key \<mapsto> f\<lparr>fl_phase := p\<rparr>)\<rparr>)"
| arrive: "ai_flights a key = Some f \<Longrightarrow> fl_phase f = Landed res \<Longrightarrow>
    air_step L r a [] (a\<lparr>ai_flights := (ai_flights a)(key := None), ai_callers := map_option (answer key res) \<circ> ai_callers a\<rparr>)"
| other: "not_lookup x \<Longrightarrow>
    air_step L r a [op_world x] (a\<lparr>ai_state := op_effect L D r (ai_state a) x\<rparr>)"

inductive_cases air_stepE: "air_step L r a ws a'"

inductive airborne :: "libraries \<Rightarrow> resolver \<Rightarrow> 'b guard option airspace \<Rightarrow> world list \<Rightarrow> nat \<Rightarrow> 'b guard option airspace \<Rightarrow> bool"
  for L r a0 where
  start: "airborne L r a0 [] 0 a0"
| step: "airborne L r a0 ws n a \<Longrightarrow> air_step L r a vs a' \<Longrightarrow> airborne L r a0 (ws @ vs) (Suc n) a'"

definition quiet :: "'s \<Rightarrow> 's airspace" where
  "quiet g = \<lparr>ai_state = \<lparr>st_guard = g, st_cache = NewMemory\<rparr>, ai_flights = Map.empty, ai_callers = Map.empty\<rparr>"

section \<open>What the steps keep\<close>

lemma flightKey_ascii: "flightKey a opt = flightKey b opt' \<Longrightarrow> a = b"
  by (auto simp: flightKey_def split: if_splits)

text \<open>A flight that is about to report a free name has the evidence for it.\<close>

fun phase_ok :: "(string \<Rightarrow> bool) \<Rightarrow> string \<Rightarrow> phase \<Rightarrow> bool" where
  "phase_ok E x (AskWhois because (Some rep)) \<longleftrightarrow> (rp_Registered rep = No \<longrightarrow> E x)"
| "phase_ok E x (Keep rep) \<longleftrightarrow> (rp_Registered rep = No \<longrightarrow> E x)"
| "phase_ok E x (Landed (Inr rep)) \<longleftrightarrow> (rp_Registered rep = No \<longrightarrow> E x)"
| "phase_ok E x p \<longleftrightarrow> True"

definition held :: "libraries \<Rightarrow> (string \<Rightarrow> bool) \<Rightarrow> 's rstate \<Rightarrow> bool" where
  "held L E s \<longleftrightarrow> (\<forall>a. free_stored (lb_json L) (st_cache s) a \<longrightarrow> E a)"

lemma phase_ok_mono: "phase_ok E x p \<Longrightarrow> (\<And>a. E a \<Longrightarrow> E' a) \<Longrightarrow> phase_ok E' x p"
  by (cases "(E, x, p)" rule: phase_ok.cases) auto

context honest_upstreams
begin

lemma next_phase_ok:
  assumes "codec_ok (lb_json L)" and "\<And>a. denied a \<Longrightarrow> E a" and "held L E s" and "phase_ok E (qu_ASCII q) p"
    and "next_phase L U r q opt ck p s = (p', s')"
  shows "held L E s' \<and> phase_ok E (qu_ASCII q) p'"
proof (cases p)
  case Probe
  obtain v s1 where c: "cached_value (js_readReport (lb_json L)) (\<lambda>rep. so_FetchedAt (rp_Source rep)) ck (op_MaxAge opt)
      (cacheKey (qu_ASCII q)) s = (v, s1)" by fastforce
  then have s': "s' = s1" using assms(5) Probe by (cases v) auto
  have "held L E s1" using cached_value_free [OF c, of "lb_json L"] assms(3) unfolding held_def by blast
  moreover have "phase_ok E (qu_ASCII q) p'"
  proof (cases v)
    case (Some rep)
    then have "rp_Registered rep = No \<Longrightarrow> E (qu_ASCII q)"
      using cached_value_some [OF c [unfolded Some]] assms(3) by (auto simp: held_def free_stored_def)
    then show ?thesis using assms(5) Probe c Some by auto
  qed (use assms(5) Probe c in auto)
  ultimately show ?thesis using s' by simp
next
  case AskRdap
  then show ?thesis using assms(2,3,5) rdap_denies
    by (auto simp: held_def Let_def rdap_report_state split: prod.splits sum.splits rdap_failure.splits if_splits)
next
  case (AskWhois because before)
  obtain alt s1 where v: "viaWHOIS L U s q (lc_fetched ck) because = (alt, s1)" by fastforce
  then have "s' = s1" "p' = (case before of None \<Rightarrow> Keep alt | Some rep \<Rightarrow>
      if rp_Registered alt \<noteq> tristate.Unknown then Keep (alt\<lparr>rp_Warnings := rp_Warnings alt @ rp_Warnings rep\<rparr>) else Keep rep)"
    using assms(5) AskWhois by auto
  then show ?thesis using viaWHOIS_free [OF v] assms(2,3,4) AskWhois
    by (auto simp: held_def split: option.split)
next
  case (Keep rep)
  then show ?thesis using assms(1,3,4,5) store_free [OF assms(1), of r ck "qu_ASCII q" rep s]
    by (auto simp: held_def)
next
  case (Landed res)
  then show ?thesis using assms(3,4,5) by auto
qed

end

lemma steps_left_next: "next_phase L U r q opt ck p s = (p', s') \<Longrightarrow> steps_left p' \<le> steps_left p - 1"
  by (cases p) (auto simp: Let_def split: prod.splits option.splits sum.splits rdap_failure.splits if_splits)

lemma steps_left_0: "steps_left p = 0 \<longleftrightarrow> (\<exists>res. p = Landed res)"
  by (cases p) auto


definition air_inv :: "libraries \<Rightarrow> (string \<Rightarrow> bool) \<Rightarrow> 's airspace \<Rightarrow> bool" where
  "air_inv L E a \<longleftrightarrow> held L E (ai_state a) \<and>
     (\<forall>key f. ai_flights a key = Some f \<longrightarrow>
        key = flightKey (qu_ASCII (fl_query f)) (fl_opt f) \<and> phase_ok E (qu_ASCII (fl_query f)) (fl_phase f)) \<and>
     (\<forall>c input opt key. ai_callers a c = Some (Waiting input opt key) \<longrightarrow>
        ai_flights a key \<noteq> None \<and> (\<exists>q. NormalizeQuery (lb_names L) input = Inr q \<and> key = flightKey (qu_ASCII q) opt)) \<and>
     (\<forall>c input rep. ai_callers a c = Some (Answered input (Inr rep)) \<longrightarrow> rp_Registered rep = No \<longrightarrow>
        (\<exists>q. NormalizeQuery (lb_names L) input = Inr q \<and> E (qu_ASCII q)))"

lemma air_invD:
  assumes "air_inv L E a"
  shows "held L E (ai_state a)"
    and "ai_flights a key = Some f \<Longrightarrow> key = flightKey (qu_ASCII (fl_query f)) (fl_opt f)"
    and "ai_flights a key = Some f \<Longrightarrow> phase_ok E (qu_ASCII (fl_query f)) (fl_phase f)"
    and "ai_callers a c = Some (Waiting input opt key) \<Longrightarrow> ai_flights a key \<noteq> None"
    and "ai_callers a c = Some (Waiting input opt key) \<Longrightarrow>
      \<exists>q. NormalizeQuery (lb_names L) input = Inr q \<and> key = flightKey (qu_ASCII q) opt"
    and "ai_callers a c = Some (Answered input (Inr rep)) \<Longrightarrow> rp_Registered rep = No \<Longrightarrow>
      \<exists>q. NormalizeQuery (lb_names L) input = Inr q \<and> E (qu_ASCII q)"
  using assms unfolding air_inv_def by blast+

lemma answer_simps [simp]:
  "answer key res (Waiting input opt k) = (if k = key then Answered input (land opt res) else Waiting input opt k)"
  "answer key res (Answered input x) = Answered input x"
  "answer key res y = Waiting input opt k \<longleftrightarrow> y = Waiting input opt k \<and> k \<noteq> key"
  by (auto simp: answer_def split: caller.splits)

lemma land_No: "land opt res = Inr rep \<Longrightarrow> rp_Registered rep = No \<Longrightarrow> \<exists>rep0. res = Inr rep0 \<and> rp_Registered rep0 = No"
  by (auto simp: land_def applyOptions_def split: sum.splits if_splits)

lemma op_effect_held:
  "codec_ok (lb_json L) \<Longrightarrow> held L E s \<Longrightarrow> \<forall>a. denies (op_world x) a \<longrightarrow> E a \<Longrightarrow> held L E (op_effect L D r s x)"
  using op_effect_free unfolding held_def by blast

lemma advance_inv:
  assumes "codec_ok (lb_json L)" and "\<forall>x. denies w x \<longrightarrow> E x" and "air_inv L E a" and "ai_flights a key = Some f"
    and "next_phase L (connect D w) r (fl_query f) (fl_opt f) (fl_clock f) (fl_phase f) (ai_state a) = (p, s)"
  shows "air_inv L E (a\<lparr>ai_state := s, ai_flights := (ai_flights a)(key \<mapsto> f\<lparr>fl_phase := p\<rparr>)\<rparr>)"
proof -
  have "held L E s \<and> phase_ok E (qu_ASCII (fl_query f)) p"
    using conn.next_phase_ok [OF assms(1) _ air_invD(1,3) [OF assms(3)] assms(5)] assms(2,3,4) by blast
  then show ?thesis using assms(3,4) unfolding air_inv_def by auto
qed

lemma arrive_inv:
  assumes "air_inv L E a" and "ai_flights a key = Some f" and "fl_phase f = Landed res"
  shows "air_inv L E (a\<lparr>ai_flights := (ai_flights a)(key := None), ai_callers := map_option (answer key res) \<circ> ai_callers a\<rparr>)"
proof -
  let ?a = "a\<lparr>ai_flights := (ai_flights a)(key := None), ai_callers := map_option (answer key res) \<circ> ai_callers a\<rparr>"
  have w: "ai_callers a c = Some (Waiting input opt k) \<and> k \<noteq> key" if "ai_callers ?a c = Some (Waiting input opt k)" for c input opt k
    using that by auto
  have "\<exists>q. NormalizeQuery (lb_names L) input = Inr q \<and> E (qu_ASCII q)"
    if c: "ai_callers ?a c = Some (Answered input (Inr rep))" and no: "rp_Registered rep = No" for c input rep
  proof (cases "ai_callers a c")
    case (Some x)
    show ?thesis
    proof (cases x)
      case (Waiting i opt k)
      then have k: "k = key" "i = input" "land opt res = Inr rep"
        using c Some by (auto split: if_splits)
      obtain rep0 where "res = Inr rep0" "rp_Registered rep0 = No" using land_No [OF k(3) no] by blast
      then have E: "E (qu_ASCII (fl_query f))" using air_invD(3) [OF assms(1,2)] assms(3) by simp
      obtain q where q: "NormalizeQuery (lb_names L) input = Inr q" "key = flightKey (qu_ASCII q) opt"
        using air_invD(5) [OF assms(1)] Some Waiting k(1,2) by blast
      have "qu_ASCII q = qu_ASCII (fl_query f)"
        using air_invD(2) [OF assms(1,2)] q(2) flightKey_ascii by metis
      then show ?thesis using q(1) E by auto
    next
      case (Answered i y)
      then show ?thesis using c Some no air_invD(6) [OF assms(1), of c input rep] by auto
    qed
  qed (use c in simp)
  moreover have "ai_flights ?a k \<noteq> None \<and> (\<exists>q. NormalizeQuery (lb_names L) input = Inr q \<and> k = flightKey (qu_ASCII q) opt)"
    if "ai_callers ?a c = Some (Waiting input opt k)" for c input opt k
    using w [OF that] air_invD(4,5) [OF assms(1), of c input opt k] by simp
  moreover have "k = flightKey (qu_ASCII (fl_query g)) (fl_opt g) \<and> phase_ok E (qu_ASCII (fl_query g)) (fl_phase g)"
    if "ai_flights ?a k = Some g" for k g
    using that air_invD(2,3) [OF assms(1), of k g] by (auto split: if_splits)
  moreover have "held L E (ai_state ?a)" using air_invD(1) [OF assms(1)] by simp
  ultimately show ?thesis unfolding air_inv_def by blast
qed

lemma air_step_inv:
  assumes "air_step L r a ws a'" and "codec_ok (lb_json L)" and "\<forall>w \<in> set ws. \<forall>x. denies w x \<longrightarrow> E x" and "air_inv L E a"
  shows "air_inv L E a'"
  using assms(1)
proof cases
  case (refuse c input e)
  then show ?thesis using assms(4) unfolding air_inv_def by auto
next
  case (takeoff c input q key opt ck)
  then show ?thesis using assms(4) unfolding air_inv_def by auto
next
  case (join c input q key opt f)
  then show ?thesis using assms(4) unfolding air_inv_def by auto
next
  case (advance key f D w p s)
  then show ?thesis using advance_inv [OF assms(2) _ assms(4)] assms(3) by simp
next
  case (arrive key f res)
  then show ?thesis using arrive_inv [OF assms(4)] by simp
next
  case (other x D)
  then show ?thesis using op_effect_held [OF assms(2) air_invD(1) [OF assms(4)]] assms(3,4) unfolding air_inv_def by auto
qed

lemma airborne_inv:
  assumes "airborne L r a0 ws n a" and "codec_ok (lb_json L)" and "\<forall>w \<in> set ws. \<forall>x. denies w x \<longrightarrow> E x" and "air_inv L E a0"
  shows "air_inv L E a"
  using assms
proof (induction rule: airborne.induct)
  case (step ws n a vs a')
  have "air_inv L E a" by (rule step.IH) (use step.prems in auto)
  then show ?case by (rule air_step_inv [OF step.hyps(2) step.prems(1), rotated]) (use step.prems(2) in auto)
qed simp

lemma quiet_inv: "air_inv L E (quiet g)"
  by (simp add: air_inv_def quiet_def held_def free_stored_def NewMemory_def)


section \<open>Progress\<close>

lemma airborne_trans:
  assumes "airborne L r a1 vs m a2" and "airborne L r a0 ws n a1"
  shows "airborne L r a0 (ws @ vs) (n + m) a2"
  using assms
proof (induction rule: airborne.induct)
  case (step vs m a us a')
  then show ?case using airborne.step [of L r a0 "ws @ vs" "n + m" a us a'] by simp
qed simp

lemma airborne_one: "air_step L r a ws a' \<Longrightarrow> airborne L r a ws 1 a'"
  using airborne.step [OF airborne.start] by fastforce

text \<open>No step of anybody else moves a flight: it stays as it is until one of its own sections runs, which brings it closer to
  its end, and it is taken off the map only once it has landed.\<close>

lemma flight_undisturbed:
  assumes "air_step L r a ws a'" and "ai_flights a key = Some f"
  shows "(\<exists>f'. ai_flights a' key = Some f' \<and> (f' = f \<or> steps_left (fl_phase f') \<le> steps_left (fl_phase f) - 1)) \<or>
    steps_left (fl_phase f) = 0"
  using assms by (cases rule: air_step.cases) (auto dest: steps_left_next)

lemma served_from:
  assumes "ai_flights a key = Some f" and "ai_callers a c = Some (Waiting input opt key)"
  shows "\<exists>vs n a' x. n \<le> steps_left (fl_phase f) + 1 \<and> set vs \<subseteq> {w} \<and> airborne L r a vs n a' \<and>
    ai_callers a' c = Some (Answered input x)"
  using assms
proof (induction "steps_left (fl_phase f)" arbitrary: a f rule: less_induct)
  case less
  show ?case
  proof (cases "\<exists>res. fl_phase f = Landed res")
    case True
    then obtain res where res: "fl_phase f = Landed res" ..
    let ?a = "a\<lparr>ai_flights := (ai_flights a)(key := None), ai_callers := map_option (answer key res) \<circ> ai_callers a\<rparr>"
    have "airborne L r a [] 1 ?a" using airborne_one [OF air_step.arrive [OF less.prems(1) res]] .
    then show ?thesis using less.prems(2) by (intro exI [of _ "[]"] exI [of _ "1::nat"] exI [of _ ?a]) auto
  next
    case False
    obtain p s where n: "next_phase L (connect D w) r (fl_query f) (fl_opt f) (fl_clock f) (fl_phase f) (ai_state a) = (p, s)"
      by fastforce
    let ?f = "f\<lparr>fl_phase := p\<rparr>" and ?a = "a\<lparr>ai_state := s, ai_flights := (ai_flights a)(key \<mapsto> f\<lparr>fl_phase := p\<rparr>)\<rparr>"
    have lt: "steps_left (fl_phase ?f) < steps_left (fl_phase f)"
      using steps_left_next [OF n] False steps_left_0 [of "fl_phase f"] by simp
    have st: "airborne L r a [w] 1 ?a" using airborne_one [OF air_step.advance [OF less.prems(1) n]] .
    obtain vs m a' x where h: "m \<le> steps_left (fl_phase ?f) + 1" "set vs \<subseteq> {w}" "airborne L r ?a vs m a'"
        "ai_callers a' c = Some (Answered input x)"
      using less.hyps [OF lt, of ?a] less.prems(2) by auto
    have "airborne L r a ([w] @ vs) (1 + m) a'" using airborne_trans [OF h(3) st] .
    then show ?thesis using h(1,2,4) lt by (intro exI [of _ "[w] @ vs"] exI [of _ "1 + m"] exI [of _ a']) auto
  qed
qed

lemma fly_lookupOnce:
  assumes "NormalizeQuery (lb_names L) input = Inr q"
  shows "fly 4 L U r q opt ck Probe s = map_prod Landed id (lookupOnce L U r ck s input opt)"
proof -
  have landed: "fly n L U r q opt ck (Landed res) t = (Landed res, t)" for n res t by (induction n) simp_all
  have four: "fly 4 L U r q opt ck p t = (case next_phase L U r q opt ck p t of (p, t) \<Rightarrow> fly 3 L U r q opt ck p t)"
    "fly 3 L U r q opt ck p t = (case next_phase L U r q opt ck p t of (p, t) \<Rightarrow> fly 2 L U r q opt ck p t)"
    "fly 2 L U r q opt ck p t = (case next_phase L U r q opt ck p t of (p, t) \<Rightarrow> fly 1 L U r q opt ck p t)"
    "fly 1 L U r q opt ck p t = next_phase L U r q opt ck p t" for p t
    by (simp_all add: numeral_eq_Suc split: prod.split)
  have fetch: "fly 3 L U r q opt ck AskRdap t = map_prod Landed id (fetch_report L U r ck t q opt)" for t
    unfolding four
    by (auto simp: fetch_report_def four landed Let_def split: prod.splits sum.splits rdap_failure.splits)
  show ?thesis unfolding four(1) using assms
    by (auto simp: lookupOnce_def landed fetch split: prod.splits option.splits)
qed


lemma fly_airborne:
  assumes "ai_flights a key = Some f"
    and "fly n L (connect D w) r (fl_query f) (fl_opt f) (fl_clock f) (fl_phase f) (ai_state a) = (p, s)"
  shows "airborne L r a (replicate n w) n (a\<lparr>ai_state := s, ai_flights := (ai_flights a)(key \<mapsto> f\<lparr>fl_phase := p\<rparr>)\<rparr>)"
  using assms
proof (induction n arbitrary: a f)
  case 0
  then have "a\<lparr>ai_state := s, ai_flights := (ai_flights a)(key \<mapsto> f\<lparr>fl_phase := p\<rparr>)\<rparr> = a"
    by (auto simp: map_upd_triv)
  then show ?case using airborne.start [of L r a] by (simp del: fun_upd_apply)
next
  case (Suc n)
  obtain p1 s1 where n: "next_phase L (connect D w) r (fl_query f) (fl_opt f) (fl_clock f) (fl_phase f) (ai_state a) = (p1, s1)"
    by fastforce
  let ?f = "f\<lparr>fl_phase := p1\<rparr>" and ?a = "a\<lparr>ai_state := s1, ai_flights := (ai_flights a)(key \<mapsto> f\<lparr>fl_phase := p1\<rparr>)\<rparr>"
  have "airborne L r ?a (replicate n w) n (?a\<lparr>ai_state := s, ai_flights := (ai_flights ?a)(key \<mapsto> ?f\<lparr>fl_phase := p\<rparr>)\<rparr>)"
    by (rule Suc.IH) (use Suc.prems n in auto)
  from airborne_trans [OF this airborne_one [OF air_step.advance [OF Suc.prems(1) n]]] show ?case by (simp del: fun_upd_apply)
qed

lemma lookup_schedule:
  assumes "NormalizeQuery (lb_names L) input = Inr q" and "ai_callers a c = None"
    and "ai_flights a (flightKey (qu_ASCII q) opt) = None"
    and "\<forall>c' i o'. ai_callers a c' \<noteq> Some (Waiting i o' (flightKey (qu_ASCII q) opt))"
    and "LookupDomain L (connect D w) r ck (ai_state a) input opt = (res, s)"
  shows "airborne L r a (replicate 4 w) 6 (a\<lparr>ai_state := s, ai_callers := (ai_callers a)(c \<mapsto> Answered input res)\<rparr>)"
proof -
  let ?key = "flightKey (qu_ASCII q) opt"
  let ?f = "\<lparr>fl_query = q, fl_opt = opt, fl_clock = ck, fl_phase = Probe\<rparr>"
  let ?a1 = "a\<lparr>ai_callers := (ai_callers a)(c \<mapsto> Waiting input opt ?key), ai_flights := (ai_flights a)(?key \<mapsto> ?f)\<rparr>"
  obtain res0 where l: "lookupOnce L (connect D w) r ck (ai_state a) input opt = (res0, s)" "res = land opt res0"
    using assms(1,5) by (auto simp: LookupDomain_def split: prod.splits)
  have f1: "ai_flights ?a1 ?key = Some ?f" by simp
  have "fly 4 L (connect D w) r (fl_query ?f) (fl_opt ?f) (fl_clock ?f) (fl_phase ?f) (ai_state ?a1) = (Landed res0, s)"
    using fly_lookupOnce [OF assms(1), of "connect D w" r opt ck "ai_state a"] l(1) by simp
  from fly_airborne [OF f1 this] airborne_one [OF air_step.takeoff [OF assms(2,1) refl assms(3), of r ck]]
  have b: "airborne L r a (replicate 4 w) 5 (?a1\<lparr>ai_state := s, ai_flights := (ai_flights ?a1)(?key \<mapsto> ?f\<lparr>fl_phase := Landed res0\<rparr>)\<rparr>)"
    using airborne_trans by fastforce
  let ?a2 = "?a1\<lparr>ai_state := s, ai_flights := (ai_flights ?a1)(?key \<mapsto> ?f\<lparr>fl_phase := Landed res0\<rparr>)\<rparr>"
  let ?a3 = "?a2\<lparr>ai_flights := (ai_flights ?a2)(?key := None), ai_callers := map_option (answer ?key res0) \<circ> ai_callers ?a2\<rparr>"
  have "air_step L r ?a2 [] ?a3" by (rule air_step.arrive [where f = "?f\<lparr>fl_phase := Landed res0\<rparr>"]) simp_all
  from airborne.step [OF b this] have "airborne L r a (replicate 4 w) 6 ?a3" by simp
  moreover have "map_option (answer ?key res0) (ai_callers a x) = ai_callers a x" for x
  proof (cases "ai_callers a x")
    case (Some y)
    then show ?thesis using assms(4) by (cases y) auto
  qed simp
  then have "map_option (answer ?key res0) \<circ> (ai_callers a)(c \<mapsto> Waiting input opt ?key) = (ai_callers a)(c \<mapsto> Answered input res)"
    using l(2) by (auto simp: fun_eq_iff)
  then have "?a3 = a\<lparr>ai_state := s, ai_callers := (ai_callers a)(c \<mapsto> Answered input res)\<rparr>"
    using assms(3) by (simp add: fun_upd_idem)
  ultimately show ?thesis by simp
qed

section \<open>A concrete flight\<close>

abbreviation demo_quiet :: "unit guard option airspace" where "demo_quiet \<equiv> quiet None"

lemma demo_quiet_parts:
  "ai_state demo_quiet = demo_start" "ai_callers demo_quiet = Map.empty" "ai_flights demo_quiet = Map.empty"
  by (simp_all add: quiet_def demo_start_def)

lemma demo_airborne:
  "\<exists>rep s. rp_Registered rep = No \<and> airborne demo_libs NewResolver demo_quiet (replicate 4 demo_world) 6
     (demo_quiet\<lparr>ai_state := s, ai_callers := [0 \<mapsto> Answered ''x.io'' (Inr rep)]\<rparr>)"
proof -
  obtain rep s where l: "LookupDomain demo_libs (connect demo_deployment demo_world) NewResolver demo_times demo_start ''x.io'' fresh =
      (Inr rep, s)" "rp_Registered rep = No" using demo_lookup by blast
  from lookup_schedule [OF demo_name, of demo_quiet 0 fresh demo_deployment demo_world NewResolver demo_times "Inr rep" s]
  show ?thesis using l by (auto simp: demo_quiet_parts)
qed

lemma demo_waiting:
  "\<exists>a. airborne demo_libs NewResolver demo_quiet [] 1 a \<and>
     ai_callers a 0 = Some (Waiting ''x.io'' fresh (flightKey ''x.io'' fresh))"
  using airborne_one [OF air_step.takeoff [where a = demo_quiet and c = 0 and opt = fresh and ck = demo_times and r = NewResolver,
      OF _ demo_name refl]]
  by (fastforce simp: demo_quiet_parts demo_ascii)

section \<open>Properties\<close>







text \<open>A flight runs with the context of the caller that took off. When that caller goes away while RDAP is asked, the flight
  lands with the error of its context, and so does every caller that joined, whose own contexts are alive.\<close>

lemma leader_cancellation_fails_joiners:
  assumes "ai_flights a key = Some f" and "fl_phase f = AskRdap" and "ai_callers a c = Some (Waiting input opt key)"
    and "up_rdap (connect D w) (st_guard (ai_state a)) (fl_query f) (op_SkipRegistrarReferral (fl_opt f)) = (Inl (ContextError e), g)"
  shows "\<exists>a'. airborne L r a [w] 2 a' \<and> ai_callers a' c = Some (Answered input (Inl (RdapFailed (ContextError e))))"
proof -
  let ?f = "f\<lparr>fl_phase := Landed (Inl (RdapFailed (ContextError e)))\<rparr>"
  let ?a = "a\<lparr>ai_state := (ai_state a)\<lparr>st_guard := g\<rparr>, ai_flights := (ai_flights a)(key \<mapsto> ?f)\<rparr>"
  have "next_phase L (connect D w) r (fl_query f) (fl_opt f) (fl_clock f) (fl_phase f) (ai_state a) =
      (Landed (Inl (RdapFailed (ContextError e))), (ai_state a)\<lparr>st_guard := g\<rparr>)" using assms(2,4) by simp
  note one = airborne_one [OF air_step.advance [OF assms(1) this]]
  let ?a' = "?a\<lparr>ai_flights := (ai_flights ?a)(key := None),
      ai_callers := map_option (answer key (Inl (RdapFailed (ContextError e)))) \<circ> ai_callers ?a\<rparr>"
  have "air_step L r ?a [] ?a'" by (rule air_step.arrive [where f = ?f]) simp_all
  from airborne_trans [OF airborne_one [OF this] one] have "airborne L r a [w] 2 ?a'" by (simp only: append_Nil2 one_add_one)
  moreover have "ai_callers ?a' c = Some (Answered input (Inl (RdapFailed (ContextError e))))"
    using assms(3) by (simp add: land_def)
  ultimately show ?thesis by blast
qed

end
