(* ===== verification/Whois_Peer.thy ===== *)
theory Whois_Peer
  imports Whois_Client Whois_Templates
begin

text \<open>
  The other end of the wire: \<open>internal/whois/whoistest/server.go\<close>, the port-43 peer that the tests of the repository talk
  to, with its ways of misbehaving, and the conversations of the transport with it. A byte the peer writes
  carries the time since the connection was accepted; the client reads what comes before its own deadline.
\<close>

section \<open>The peer\<close>

datatype mode =
    ModeNormal | ModeSlow | ModeTruncated | ModeMalformed | ModeRateLimited | ModeHang | ModeRefuse | ModeFlood

definition HTML :: string where
  "HTML = ''<!DOCTYPE html>'' @ [CHR 0x0A] @ ''<html><head><title>503 Service Unavailable</title></head>'' @ [CHR 0x0A] @
     ''<body><h1>Service Unavailable</h1></body></html>'' @ [CHR 0x0A]"

definition RateLimitNotice :: string where
  "RateLimitNotice = ''%% Rate limit exceeded. Please try again later.'' @ [CHR 0x0A] @
     ''%% WHOIS LIMIT EXCEEDED - see http://www.example/limit'' @ [CHR 0x0A]"

record peer =
  pe_handler :: "string \<Rightarrow> string \<times> mode"
  pe_queries :: "string list"
  pe_conns :: nat

definition NewPeerHandler :: "(string \<Rightarrow> string \<times> mode) \<Rightarrow> peer" where
  "NewPeerHandler h = \<lparr>pe_handler = h, pe_queries = [], pe_conns = 0\<rparr>"

definition NewPeer :: "mode \<Rightarrow> string \<Rightarrow> peer" where
  "NewPeer md body = NewPeerHandler (\<lambda>_. (body, md))"

text \<open>\<open>acc\<close> is what was read so far, the second argument what is still to come before the end of the stream.\<close>

fun readLine :: "string \<Rightarrow> string \<Rightarrow> string option" where
  "readLine acc [] = (if acc = [] then None else Some acc)"
| "readLine acc (c # cs) =
     (let acc = acc @ [c]
      in if c = CHR 0x0A then Some acc else if 512 \<le> length acc then None else readLine acc cs)"

text \<open>The pieces of a slow answer, eight bytes at a time, fifty milliseconds apart.\<close>

function slow_chunks :: "duration \<Rightarrow> string \<Rightarrow> (duration \<times> string) list" where
  "slow_chunks t body = (if body = [] then [] else (t, take 8 body) # slow_chunks (t + 50 * millisecond) (drop 8 body))"
  by pat_completeness auto
termination
  by (relation "measure (\<lambda>(t, body). length body)") auto

declare slow_chunks.simps [simp del]

definition peer_writes :: "mode \<Rightarrow> string \<Rightarrow> (duration \<times> string) list" where
  "peer_writes md body =
     (case md of
        ModeNormal \<Rightarrow> [(0, body)]
      | ModeSlow \<Rightarrow> slow_chunks 0 body
      | ModeTruncated \<Rightarrow> [(0, take (length body div 2) body)]
      | ModeMalformed \<Rightarrow> [(0, HTML)]
      | ModeRateLimited \<Rightarrow> [(0, RateLimitNotice)]
      | ModeHang \<Rightarrow> []
      | ModeRefuse \<Rightarrow> []
      | ModeFlood \<Rightarrow> replicate 32 (0, replicate 65536 (CHR ''x'')))"

definition closes_at :: "mode \<Rightarrow> string \<Rightarrow> duration" where
  "closes_at md body =
     (case md of
        ModeSlow \<Rightarrow> 50 * millisecond * int (length (slow_chunks 0 body))
      | ModeHang \<Rightarrow> 60 * second
      | _ \<Rightarrow> 0)"

record session =
  se_writes :: "(duration \<times> string) list"
  se_close :: duration

definition handle :: "peer \<Rightarrow> string \<Rightarrow> session \<times> peer" where
  "handle p request =
     (let p = p\<lparr>pe_conns := pe_conns p + 1\<rparr>
      in case readLine [] request of
           None \<Rightarrow> (\<lparr>se_writes = [], se_close = 0\<rparr>, p)
         | Some line \<Rightarrow>
             (let query = trim_right line [CHR 0x0D, CHR 0x0A]; p = p\<lparr>pe_queries := pe_queries p @ [query]\<rparr>
              in case pe_handler p query of (body, md) \<Rightarrow>
                   (\<lparr>se_writes = peer_writes md body, se_close = closes_at md body\<rparr>, p)))"

definition Referral :: "string \<Rightarrow> string" where
  "Referral host = ''Registrar WHOIS Server: '' @ host @ [CHR 0x0A]"

section \<open>A conversation\<close>

text \<open>\<open>w\<close> is how the connection comes about; the transport sends the query and CRLF, and reads until the stream ends or
  its deadline passes with \<open>err\<close>.\<close>

definition converse :: "transport \<Rightarrow> wire \<Rightarrow> string \<Rightarrow> peer \<Rightarrow> string \<Rightarrow> wire \<times> peer" where
  "converse tr w err p query =
     (case handle p (query @ [CHR 0x0D, CHR 0x0A]) of (se, p) \<Rightarrow>
        (w\<lparr>wr_deadlineErr := None, wr_writeErr := None,
           wr_data := concat (map snd (takeWhile (\<lambda>(t, c). t < tr_timeout tr) (se_writes se))),
           wr_readErr := if se_close se < tr_timeout tr then None else Some err\<rparr>, p))"

section \<open>Lemmas\<close>

lemma readLine_line:
  "CHR 0x0A \<notin> set xs \<Longrightarrow> length acc + length xs < 512 \<Longrightarrow> readLine acc (xs @ CHR 0x0A # ys) = Some (acc @ xs @ [CHR 0x0A])"
proof (induction xs arbitrary: acc)
  case (Cons c cs)
  have "readLine (acc @ [c]) (cs @ CHR 0x0A # ys) = Some ((acc @ [c]) @ cs @ [CHR 0x0A])"
    by (rule Cons.IH) (use Cons.prems in auto)
  then show ?case using Cons.prems by (auto simp: Let_def)
qed simp

text \<open>A query in the form that the transport sends: one line that the peer can read.\<close>

definition wire_line :: "string \<Rightarrow> bool" where
  "wire_line query \<longleftrightarrow> CHR 0x0A \<notin> set query \<and> CHR 0x0D \<notin> set query \<and> length query < 511"

lemma trim_line: "wire_line query \<Longrightarrow> trim_right (query @ [CHR 0x0D, CHR 0x0A]) [CHR 0x0D, CHR 0x0A] = query"
proof -
  assume "wire_line query"
  then have "dropWhile (\<lambda>c. c \<in> set [CHR 0x0D, CHR 0x0A]) (rev query) = rev query"
    by (cases "rev query") (auto simp: wire_line_def dropWhile_eq_self_iff dest!: arg_cong [where f = set])
  then show ?thesis by (simp add: trim_right_def trim_right_by_def)
qed

lemma handle_line:
  assumes "wire_line query" and "pe_handler p query = (body, md)"
  shows "handle p (query @ [CHR 0x0D, CHR 0x0A]) = (\<lparr>se_writes = peer_writes md body, se_close = closes_at md body\<rparr>,
    p\<lparr>pe_conns := pe_conns p + 1, pe_queries := pe_queries p @ [query]\<rparr>)"
proof -
  have "readLine [] ((query @ [CHR 0x0D]) @ CHR 0x0A # []) = Some ([] @ (query @ [CHR 0x0D]) @ [CHR 0x0A])"
    by (rule readLine_line) (use assms(1) in \<open>auto simp: wire_line_def\<close>)
  then show ?thesis using assms trim_line by (simp add: handle_def Let_def)
qed

lemma slow_chunks_concat: "concat (map snd (slow_chunks t body)) = body"
proof (induction t body rule: slow_chunks.induct)
  case (1 t body)
  then show ?case by (subst slow_chunks.simps) auto
qed

lemma slow_chunks_times:
  "(u, c) \<in> set (slow_chunks t body) \<Longrightarrow> u < t + 50 * millisecond * int (length (slow_chunks t body))"
proof (induction t body arbitrary: u c rule: slow_chunks.induct)
  case (1 t body)
  show ?case
  proof (cases "body = []")
    case False
    then have e: "slow_chunks t body = (t, take 8 body) # slow_chunks (t + 50 * millisecond) (drop 8 body)"
      by (subst slow_chunks.simps) simp
    then show ?thesis using "1.prems" "1.IH" [OF False, of u c] by (auto simp: millisecond_def)
  qed (use "1.prems" in \<open>simp add: slow_chunks.simps\<close>)
qed

lemma concat_replicate: "concat (replicate m (replicate n x)) = replicate (m * n) x"
  by (induction m) (simp_all add: replicate_add)


text \<open>What the client makes of a stream: everything up to its cap, and the flag when there was more or the end was an error.\<close>

lemma exchange_stream:
  assumes "dial P tr w \<noteq> None" and "wr_deadlineErr w = None" and "wr_writeErr w = None" and "0 \<le> tr_maxBytes tr"
  shows "wr_readErr w = None \<or> wr_data w \<noteq> [] \<or> nat (tr_maxBytes tr) < length (wr_data w) \<Longrightarrow>
      \<exists>resp. exchange P tr w addr query = Inr resp \<and> rs_Query resp = query \<and>
        rs_Raw resp = take (nat (tr_maxBytes tr)) (wr_data w) \<and>
        (rs_Truncated resp \<longleftrightarrow> nat (tr_maxBytes tr) < length (wr_data w) \<or> wr_readErr w \<noteq> None)"
    and "wr_readErr w = Some e \<Longrightarrow> wr_data w = [] \<Longrightarrow> \<exists>err. exchange P tr w addr query = Inl err"
proof -
  define n where "n = nat (tr_maxBytes tr)"
  have n: "nat (tr_maxBytes tr + 1) = Suc n" "tr_maxBytes tr = int n" using assms(4) by (simp_all add: n_def nat_add_distrib)
  have e: "exchange P tr w addr query = exchange_read tr w addr query" using assms(1-3) by (auto simp: exchange_def)
  show "\<exists>resp. exchange P tr w addr query = Inr resp \<and> rs_Query resp = query \<and> rs_Raw resp = take n (wr_data w) \<and>
      (rs_Truncated resp \<longleftrightarrow> n < length (wr_data w) \<or> wr_readErr w \<noteq> None)"
    if "wr_readErr w = None \<or> wr_data w \<noteq> [] \<or> n < length (wr_data w)"
    using that unfolding e
    by (auto simp: exchange_read_def read_limited_def n Let_def min_def Suc_le_eq split: option.splits)
  show "\<exists>err. exchange P tr w addr query = Inl err" if "wr_readErr w = Some e" "wr_data w = []"
    using that unfolding e by (simp add: exchange_read_def read_limited_def n Let_def)
qed

lemma converse_line:
  assumes "wire_line query" and "pe_handler p query = (body, md)" and "converse tr w err p query = (w', p')"
  shows "w' = w\<lparr>wr_deadlineErr := None, wr_writeErr := None,
      wr_data := concat (map snd (takeWhile (\<lambda>(t, c). t < tr_timeout tr) (peer_writes md body))),
      wr_readErr := if closes_at md body < tr_timeout tr then None else Some err\<rparr>"
    and "p' = p\<lparr>pe_conns := pe_conns p + 1, pe_queries := pe_queries p @ [query]\<rparr>"
  using assms(3) handle_line [OF assms(1,2)] by (simp_all add: converse_def)

lemma dial_cong: "wr_addresses w = wr_addresses w' \<Longrightarrow> wr_accepts w = wr_accepts w' \<Longrightarrow> dial P tr w = dial P tr w'"
  by (simp add: dial_def)

text \<open>All writes of a peer that closes in time are read.\<close>

lemma writes_before_close:
  assumes "(t, c) \<in> set (peer_writes md body)" and "0 < T" and "closes_at md body < T"
  shows "t < T"
  using assms slow_chunks_times [of t c 0 body] by (cases md) (auto simp: peer_writes_def closes_at_def)

lemma heard_all:
  assumes "0 < T" and "closes_at md body < T"
  shows "takeWhile (\<lambda>(t, c). t < T) (peer_writes md body) = peer_writes md body"
  using writes_before_close [OF _ assms] by (auto simp: takeWhile_eq_all_conv)

lemma peer_text:
  "concat (map snd (peer_writes ModeNormal body)) = body" "concat (map snd (peer_writes ModeSlow body)) = body"
  "concat (map snd (peer_writes ModeTruncated body)) = take (length body div 2) body"
  "concat (map snd (peer_writes ModeMalformed body)) = HTML"
  "concat (map snd (peer_writes ModeRateLimited body)) = RateLimitNotice"
  "concat (map snd (peer_writes ModeRefuse body)) = []"
  "concat (map snd (peer_writes ModeFlood body)) = replicate 2097152 (CHR ''x'')"
  using concat_replicate [of 32 65536 "CHR ''x''"] by (simp_all add: peer_writes_def slow_chunks_concat)

section \<open>Properties\<close>



text \<open>An answer that the peer cuts off and closes regularly is not marked: half of a record looks like a whole one.\<close>

lemma cut_answer_unmarked:
  assumes "wire_line query" and "dial P tr w \<noteq> None" and "0 < tr_timeout tr" and "int (length body) \<le> tr_maxBytes tr"
    and "body \<noteq> []" and "converse tr w err (NewPeer ModeTruncated body) query = (w', p')"
  shows "\<exists>resp. exchange P tr w' addr query = Inr resp \<and> rs_Raw resp = take (length body div 2) body \<and> \<not> rs_Truncated resp"
proof -
  have h: "pe_handler (NewPeer ModeTruncated body) query = (body, ModeTruncated)" by (simp add: NewPeer_def NewPeerHandler_def)
  note c = converse_line [OF assms(1) h assms(6)]
  have d: "dial P tr w' \<noteq> None" "wr_deadlineErr w' = None" "wr_writeErr w' = None" "0 \<le> tr_maxBytes tr"
    using assms(2,4) dial_cong [of w' w P tr] c(1) by simp_all
  have w: "wr_data w' = take (length body div 2) body" "wr_readErr w' = None"
    using c(1) assms(3) by (simp_all add: peer_writes_def closes_at_def)
  then have "length (wr_data w') \<le> nat (tr_maxBytes tr)" using assms(4) by simp
  then show ?thesis using exchange_stream(1) [OF d, where addr = addr and query = query] w by (auto simp: not_less)
qed


text \<open>A referral line is read back: the scan of the client finds the host that \<open>Referral\<close> wrote, for every host name that is
  in lower case, has a dot, does not end in one, and has none of the characters a host cannot have.\<close>

lemma referral_line:
  assumes "\<forall>c \<in> set host. \<not> is_space c" and "host \<noteq> []"
  shows "splitField (''Registrar WHOIS Server: '' @ host) = Some (''Registrar WHOIS Server'', host)"
proof -
  obtain h l where hl: "host = h @ [l]" using assms(2) by (cases host rule: rev_cases) auto
  have l: "\<not> is_space l" "l \<noteq> CHR 0x0D" using assms(1) hl by (auto simp: is_space_def)
  let ?line = "''Registrar WHOIS Server: '' @ host"
  have t: "trim_right ?line [CHR 0x0D] = ?line" using l(2) by (simp add: trim_right_def trim_right_by_def hl)
  have s: "trim_space ?line = ?line" using l(1) by (simp add: trim_space_def trim_right_by_def hl is_space_def)
  have i: "index_of ?line '':'' = Some 22" by (simp add: has_prefix_def)
  have d: "trim_space (take 22 ?line) = ''Registrar WHOIS Server''" by (simp add: text_eval)
  have v: "trim_space (drop 23 ?line) = host"
    using trim_space_id [OF assms(1)] by (simp add: trim_space_def is_space_def)
  show ?thesis using t s i d v by (simp add: splitField_def has_prefix_def)
qed

lemma split_at_none: "x \<notin> set s \<Longrightarrow> split_at x (s @ x # t) = s # split_at x t"
  by (induction s) auto

theorem referral_roundtrip:
  assumes "host_shape host" and "\<forall>c \<in> set host. \<not> is_space c" and "last host \<noteq> CHR ''.''"
  shows "referralHost (Referral host) = host"
proof -
  have ne: "host \<noteq> []" using assms(1) by (auto simp: host_shape_def)
  have n: "CHR 0x0A \<notin> set host" using assms(2) by (auto simp: is_space_def)
  have "split_at (CHR 0x0A) (Referral host) = [''Registrar WHOIS Server: '' @ host, []]"
    using n split_at_none [of "CHR 0x0A" "''Registrar WHOIS Server: '' @ host" "[]"] by (simp add: Referral_def)
  moreover have "to_lower ''Registrar WHOIS Server'' = ''registrar whois server''" by code_simp
  moreover have "sanitizeHost host = host"
  proof -
    have "trim_suffix host ''.'' = host"
      using assms(3) ne by (cases host rule: rev_cases) (simp_all add: trim_suffix_def has_suffix_def has_prefix_def)
    then show ?thesis using assms(1) ne trim_space_id [OF assms(2)]
      by (auto simp: sanitizeHost_def host_shape_def contains_singleton contains_any_def Let_def)
  qed
  moreover have "splitField [] = None" by (simp add: splitField_def text_eval trim_right_def)
  ultimately show ?thesis
    using referral_line [OF assms(2) ne] ne by (simp add: referralHost_def referralLabels_def Let_def)
qed

theorem referral_roundtrip_witness: "referralHost (Referral ''b.reg'') = ''b.reg''"
proof -
  have "to_lower ''b.reg'' = ''b.reg''" by (simp add: text_eval)
  then show ?thesis by (intro referral_roundtrip) (simp_all add: host_shape_def is_space_def)
qed

text \<open>An error page can free a name. The page of a registry's proxy, whose heading is ``Service Unavailable'', has the word
  that the template of \<open>whois.nic.it\<close> takes for a denial, so behind that host it is classified as \<open>Unregistered\<close>; the
  notice of a rate limit never is, whatever the host.\<close>

lemma error_page_frees_it_domains: "Classify ''whois.nic.it:43'' HTML = Unregistered"
proof -
  have "\<not> containsAny (to_lower HTML) rateLimitSignatures" "contains (to_lower HTML) ''available''" "HTML \<noteq> []"
    by code_simp+
  then show ?thesis by (intro available_word_frees_it_domains)
qed

lemma rate_limit_notice_undecided: "Classify host RateLimitNotice = Unknown"
proof -
  have "containsAny (to_lower RateLimitNotice) rateLimitSignatures" by code_simp
  then show ?thesis by (simp add: Classify_def)
qed

end
