(* ===== verification/Http_Client.thy ===== *)
theory Http_Client
  imports Rdap_Client
begin

text \<open>
  The HTTP client behind every RDAP query and bootstrap refresh: \<open>internal/rdapx/guard.go\<close>. The policy is what
  \<open>NewHTTPClientWithOptions\<close> puts into the client (the dialer's hook, the redirect rule, the body cap); the
  loop that follows redirects is that of \<open>net/http\<close> for a GET. What the name of a host resolves to, which
  addresses accept, and what they answer is the environment, and may change between requests.
\<close>

section \<open>The client\<close>

record http_client =
  hc_timeout :: duration
  hc_control :: bool
  hc_allowPrivate :: bool

definition NewHTTPClientWithOptions :: "duration \<Rightarrow> bool \<Rightarrow> http_client" where
  "NewHTTPClientWithOptions timeout allowPrivate =
     \<lparr>hc_timeout = timeout, hc_control = (\<not> allowPrivate), hc_allowPrivate = allowPrivate\<rparr>"

definition NewHTTPClient :: "duration \<Rightarrow> http_client" where
  "NewHTTPClient timeout = NewHTTPClientWithOptions timeout False"

section \<open>A request\<close>

record target =
  tg_scheme :: string
  tg_url :: string

datatype http_answer =
    AnsBroken
  | AnsRedirect target
  | AnsBody nat string

record site =
  si_addresses :: "string list"
  si_accepts :: "string \<Rightarrow> bool"
  si_answer :: http_answer

datatype http_outcome =
    DialRefused
  | TripFailed
  | RedirectRefused redirect_refusal
  | Got nat string

definition http_dial :: "http_client \<Rightarrow> (string \<Rightarrow> ip option) \<Rightarrow> site \<Rightarrow> string option" where
  "http_dial c parse w =
     List.find (\<lambda>a. (hc_control c \<longrightarrow> Control (\<lambda>a. map_option fst (SplitHostPort a)) parse a = None) \<and> si_accepts w a)
       (si_addresses w)"

text \<open>The redirect loop: the requests that were sent, each with the address it went to, and the outcome.
  \<open>via\<close> counts the requests before this one.\<close>

function http_do ::
    "http_client \<Rightarrow> (string \<Rightarrow> ip option) \<Rightarrow> (nat \<Rightarrow> target \<Rightarrow> site) \<Rightarrow> nat \<Rightarrow> target \<Rightarrow> (target \<times> string) list \<times> http_outcome" where
  "http_do c parse net via u =
     (case http_dial c parse (net via u) of
        None \<Rightarrow> ([], DialRefused)
      | Some a \<Rightarrow>
          (case si_answer (net via u) of
             AnsBroken \<Rightarrow> ([(u, a)], TripFailed)
           | AnsBody status body \<Rightarrow> ([(u, a)], Got status (limited_body body))
           | AnsRedirect v \<Rightarrow>
               (case CheckRedirect (hc_allowPrivate c) (via + 1) (tg_scheme v) of
                  Some e \<Rightarrow> ([(u, a)], RedirectRefused e)
                | None \<Rightarrow> map_prod (\<lambda>sent. (u, a) # sent) id (http_do c parse net (via + 1) v))))"
  by pat_completeness auto
termination
  by (relation "measure (\<lambda>(c, parse, net, via, u). maxRedirects - via)")
    (auto simp: CheckRedirect_def split: if_splits)

declare http_do.simps [simp del]

definition public_address :: "(string \<Rightarrow> ip option) \<Rightarrow> string \<Rightarrow> bool" where
  "public_address parse a \<longleftrightarrow>
     (case SplitHostPort a of
        None \<Rightarrow> False
      | Some (h, port) \<Rightarrow> (case parse h of None \<Rightarrow> False | Some x \<Rightarrow> BlockReason (Some x) = []))"

lemma http_dial_public:
  assumes "http_dial c parse w = Some a" and "hc_control c"
  shows "public_address parse a"
proof -
  have "Control (\<lambda>a. map_option fst (SplitHostPort a)) parse a = None"
    using assms by (auto simp: http_dial_def find_Some_iff)
  moreover have "BlockReason None \<noteq> []" by (simp add: BlockReason_def)
  ultimately show ?thesis
    by (auto simp: Control_def public_address_def Let_def split: option.splits if_splits)
qed

lemma CheckRedirect_None: "CheckRedirect allow via s = None \<longleftrightarrow> via < maxRedirects \<and> (s = ''https'' \<or> allow)"
  by (auto simp: CheckRedirect_def)

lemma http_do_contained:
  assumes "hc_control c" and "\<not> hc_allowPrivate c" and "http_do c parse net via u = (sent, out)" and "via < maxRedirects"
  shows "length sent \<le> maxRedirects - via \<and> (\<forall>(v, a) \<in> set sent. public_address parse a) \<and>
    (\<forall>(v, a) \<in> set (tl sent). tg_scheme v = ''https'') \<and> (sent \<noteq> [] \<longrightarrow> fst (hd sent) = u) \<and>
    (case out of Got st body \<Rightarrow> length body \<le> MaxBodyBytes | _ \<Rightarrow> True)"
  using assms
proof (induction c parse net via u arbitrary: sent out rule: http_do.induct)
  case (1 c parse net via u)
  show ?case
  proof (cases "http_dial c parse (net via u)")
    case None
    then show ?thesis using 1(4) by (auto simp: http_do.simps [of c parse net via u])
  next
    case (Some a)
    have pub: "public_address parse a" using http_dial_public [OF Some 1(2)] .
    show ?thesis
    proof (cases "\<exists>v. si_answer (net via u) = AnsRedirect v \<and> CheckRedirect (hc_allowPrivate c) (via + 1) (tg_scheme v) = None")
      case True
      then obtain v where v: "si_answer (net via u) = AnsRedirect v" "CheckRedirect (hc_allowPrivate c) (via + 1) (tg_scheme v) = None"
        by blast
      obtain rest o2 where r: "http_do c parse net (via + 1) v = (rest, o2)" by fastforce
      have s: "sent = (u, a) # rest" "out = o2" using 1(4) Some v r by (auto simp: http_do.simps [of c parse net via u])
      have h: "via + 1 < maxRedirects" "tg_scheme v = ''https''" using v(2) 1(3) by (simp_all add: CheckRedirect_None)
      have IH: "length rest \<le> maxRedirects - (via + 1)" "\<forall>(v, a) \<in> set rest. public_address parse a"
          "\<forall>(v, a) \<in> set (tl rest). tg_scheme v = ''https''" "rest \<noteq> [] \<longrightarrow> fst (hd rest) = v"
          "case o2 of Got st body \<Rightarrow> length body \<le> MaxBodyBytes | _ \<Rightarrow> True"
        using 1(1) [OF Some v 1(2,3) r h(1)] by blast+
      have "\<forall>(v, a) \<in> set rest. tg_scheme v = ''https''" using IH(3,4) h(2) by (cases rest) auto
      then show ?thesis using IH(1,2,5) pub s h(1) by auto
    next
      case False
      then show ?thesis using 1(4,5) Some pub
        by (auto simp: http_do.simps [of c parse net via u] limited_body_def split: http_answer.splits option.splits)
    qed
  qed
qed

section \<open>Properties\<close>


definition demo_web :: "nat \<Rightarrow> target \<Rightarrow> site" where
  "demo_web n u = \<lparr>si_addresses = [''10.0.0.1:443'', ''8.8.8.8:443''], si_accepts = (\<lambda>_. True),
     si_answer = AnsRedirect \<lparr>tg_scheme = ''https'', tg_url = ''next''\<rparr>\<rparr>"

definition demo_resolve :: "string \<Rightarrow> ip option" where
  "demo_resolve h = (if h = ''10.0.0.1'' then Some [10, 0, 0, 1] else if h = ''8.8.8.8'' then Some [8, 8, 8, 8] else None)"

definition demo_target :: target where "demo_target = \<lparr>tg_scheme = ''http'', tg_url = ''start''\<rparr>"

text \<open>The bound of two counts the first request: the second redirect of a chain is already refused. And the rule is
  about redirects only: the first request goes out in whatever scheme it has.\<close>

lemma second_redirect_refused:
  "http_do (NewHTTPClient t) demo_resolve demo_web 0 demo_target =
     ([(demo_target, ''8.8.8.8:443''), (\<lparr>tg_scheme = ''https'', tg_url = ''next''\<rparr>, ''8.8.8.8:443'')],
      RedirectRefused TooManyRedirects)"
proof -
  have s: "SplitHostPort ''10.0.0.1:443'' = Some (''10.0.0.1'', ''443'')" "SplitHostPort ''8.8.8.8:443'' = Some (''8.8.8.8'', ''443'')"
    by code_simp+
  have b: "BlockReason (Some [10, 0, 0, 1]) \<noteq> []" "BlockReason (Some [8, 8, 8, 8]) = []"
    by (simp_all add: BlockReason_v4_cases extraBlocked_v4 ip_value4)
  have d: "http_dial (NewHTTPClient t) demo_resolve (demo_web n u) = Some ''8.8.8.8:443''" for n u
    using b by (simp add: http_dial_def demo_web_def NewHTTPClient_def NewHTTPClientWithOptions_def Control_def demo_resolve_def s Let_def)
  have "si_answer (demo_web n u) = AnsRedirect \<lparr>tg_scheme = ''https'', tg_url = ''next''\<rparr>" for n u by (simp add: demo_web_def)
  then show ?thesis
    by (simp add: http_do.simps [of _ _ _ 0] http_do.simps [of _ _ _ "Suc 0"] d CheckRedirect_def maxRedirects_def)
qed


end
