(* ===== verification/Http_Surface.thy ===== *)
theory Http_Surface
  imports Mcp_Tools Startup
begin

text \<open>
  What the process shows to the outside beside its answers: the routes of the HTTP server
  (\<open>cmd/whois-mcp/main.go\<close> and \<open>Routes\<close> of \<open>internal/auth/oauthsrv.go\<close>), and the client address in the audit log
  (\<open>redactSource\<close> of \<open>internal/auth/enrollment.go\<close>), and the refusal of the scope gate with its challenge
  (\<open>scopegate.go\<close>, \<open>verifier.go\<close>). \<open>net.ParseIP\<close>, the text form of an IPv6 address, JSON and the quoting of
  package fmt are arguments.
\<close>

section \<open>Routes\<close>

datatype endpoint =
    EpASMetadata | EpPRM | EpJWKS | EpAuthorize | EpToken | EpRevoke | EpRegister
  | EpMcp bool
  | EpMetrics | EpHealthz | EpReadyz

definition PathPRM :: string where "PathPRM = ''/.well-known/oauth-protected-resource''"
definition PathASMetadata :: string where "PathASMetadata = ''/.well-known/oauth-authorization-server''"

definition Routes :: "(string \<times> endpoint) list" where
  "Routes = [(PathASMetadata, EpASMetadata), (PathPRM, EpPRM), (PathJWKS, EpJWKS), (PathAuthorize, EpAuthorize),
     (PathToken, EpToken), (PathRevoke, EpRevoke), (PathRegister, EpRegister)]"

text \<open>The flag of \<open>EpMcp\<close> says whether the bearer middleware and the scope gate stand before the tools.\<close>

definition mux_routes :: "bool \<Rightarrow> (string \<times> endpoint) list" where
  "mux_routes authenticated =
     (if authenticated then (''/mcp'', EpMcp True) # Routes else [(''/mcp'', EpMcp False)]) @
     [(''/metrics'', EpMetrics), (''/healthz'', EpHealthz), (''/readyz'', EpReadyz)]"

lemmas path_defs = PathASMetadata_def PathPRM_def PathJWKS_def PathAuthorize_def PathToken_def PathRevoke_def PathRegister_def
  PathMCP_def

text \<open>\<open>ServeMux\<close> panics on a pattern that is registered twice; no start of the server does that.\<close>

lemma routes_do_not_clash: "distinct (map fst (mux_routes authenticated))"
  by (cases authenticated) (simp_all add: mux_routes_def Routes_def path_defs)

text \<open>The documents of discovery name only what is served: each URL of the metadata is the base URL followed by the path
  of its handler, and the protected resource is the protected endpoint of the tools.\<close>

lemma advertised_endpoints_served:
  assumes "startup pip K argon sd lf getenv = Inr (listen, Some st)" and "cf_issuer cf = as_issuer st"
  shows "\<exists>url. is_audience (cf_issuer cf) = url @ ''/mcp'' \<and> map_of (mux_routes True) ''/mcp'' = Some (EpMcp True)"
    and "\<forall>(url, ep) \<in> {(md_AuthorizationEndpoint (metadata cf), EpAuthorize), (md_TokenEndpoint (metadata cf), EpToken),
        (md_RevocationEndpoint (metadata cf), EpRevoke), (md_RegistrationEndpoint (metadata cf), EpRegister),
        (md_JWKSURI (metadata cf), EpJWKS)}.
      \<exists>p. url = md_Issuer (metadata cf) @ p \<and> map_of (mux_routes True) p = Some ep"
proof -
  have "\<exists>url. is_audience (as_issuer st) = url @ ''/mcp''"
    using assms(1)
    by (auto simp: startup_def buildAuth_def Let_def PathMCP_def split: sum.splits option.splits if_splits)
  then show "\<exists>url. is_audience (cf_issuer cf) = url @ ''/mcp'' \<and> map_of (mux_routes True) ''/mcp'' = Some (EpMcp True)"
    using assms(2) by (simp add: mux_routes_def)
  show "\<forall>(url, ep) \<in> {(md_AuthorizationEndpoint (metadata cf), EpAuthorize), (md_TokenEndpoint (metadata cf), EpToken),
        (md_RevocationEndpoint (metadata cf), EpRevoke), (md_RegistrationEndpoint (metadata cf), EpRegister),
        (md_JWKSURI (metadata cf), EpJWKS)}.
      \<exists>p. url = md_Issuer (metadata cf) @ p \<and> map_of (mux_routes True) p = Some ep"
    by (simp add: metadata_def Let_def mux_routes_def Routes_def path_defs)
qed

section \<open>The client address in the log\<close>

definition mask48 :: "ip \<Rightarrow> ip" where
  "mask48 x = take 6 x @ replicate (length x - 6) 0"

definition redactSource :: "(string \<Rightarrow> ip option) \<Rightarrow> (ip \<Rightarrow> string) \<Rightarrow> string \<Rightarrow> string" where
  "redactSource parse show6 source =
     (let host = (case SplitHostPort source of Some (h, port) \<Rightarrow> h | None \<Rightarrow> source)
      in case parse host of
           None \<Rightarrow> ''unknown''
         | Some x \<Rightarrow>
             (case To4 x of
                Some v \<Rightarrow> format_uint (v ! 0) @ ''.'' @ format_uint (v ! 1) @ ''.'' @ format_uint (v ! 2) @ ''.0/24''
              | None \<Rightarrow> show6 (mask48 x) @ ''/48''))"

definition source_host :: "string \<Rightarrow> string" where
  "source_host source = (case SplitHostPort source of Some (h, port) \<Rightarrow> h | None \<Rightarrow> source)"

lemma format_uint_no_dot: "CHR ''.'' \<notin> set (format_uint n)"
  using format_uint_digits [of n] by (auto simp: list_all_iff is_digit_def)

lemma split_first:
  assumes "c \<notin> set a" and "c \<notin> set b" and "a @ c # x = b @ c # y"
  shows "a = b \<and> x = y"
proof -
  have "takeWhile (\<lambda>d. d \<noteq> c) (a @ c # x) = a" "takeWhile (\<lambda>d. d \<noteq> c) (b @ c # y) = b"
    using assms(1,2) by (simp_all add: takeWhile_append)
  then show ?thesis using assms(3) by auto
qed

lemma format_uint_inject: "format_uint m = format_uint n \<longleftrightarrow> m = n"
  using digits_value_format by metis

lemma dotted_inject:
  "format_uint a @ CHR ''.'' # x = format_uint b @ CHR ''.'' # y \<longleftrightarrow> a = b \<and> x = y"
  using split_first [OF format_uint_no_dot format_uint_no_dot, of a x b y] by (auto simp: format_uint_inject)

text \<open>The log shows the network of a client and nothing else of it: two IPv4 clients look the same exactly when they are
  in one /24, and two IPv6 clients look the same whenever they are in one /48.\<close>

lemma audit_shows_network_only:
  assumes "parse (source_host s) = Some x" and "parse (source_host t) = Some y"
  shows "To4 x = Some v \<Longrightarrow> To4 y = Some w \<Longrightarrow>
      redactSource parse show6 s = redactSource parse show6 t \<longleftrightarrow> v ! 0 = w ! 0 \<and> v ! 1 = w ! 1 \<and> v ! 2 = w ! 2"
    and "To4 x = None \<Longrightarrow> To4 y = None \<Longrightarrow> length x = length y \<Longrightarrow> take 6 x = take 6 y \<Longrightarrow>
      redactSource parse show6 s = redactSource parse show6 t"
  using assms by (simp_all add: redactSource_def source_host_def dotted_inject format_uint_inject mask48_def)

section \<open>The refusal of the scope gate\<close>

definition ScopeChallenge :: "(string \<Rightarrow> string) \<Rightarrow> string \<Rightarrow> string \<Rightarrow> string" where
  "ScopeChallenge quote scope resourceMetadataURL =
     ''Bearer error=\"insufficient_scope\", error_description=\"this tool requires the '' @ scope @
     '' scope\", scope='' @ quote scope @ '', resource_metadata='' @ quote resourceMetadataURL"

record gate_refusal =
  gr_status :: nat
  gr_challenge :: string
  gr_error :: string
  gr_description :: string
  gr_scope :: string

definition gate_refusal_of :: "(string \<Rightarrow> string) \<Rightarrow> string \<Rightarrow> gate_result \<Rightarrow> gate_refusal option" where
  "gate_refusal_of quote prm g =
     (case g of
        GateForbidden tool required \<Rightarrow>
          Some \<lparr>gr_status = 403, gr_challenge = ScopeChallenge quote required prm, gr_error = ''insufficient_scope'',
            gr_description = ''the '' @ tool @ '' tool requires the '' @ required @ '' scope; request it and retry'',
            gr_scope = required\<rparr>
      | _ \<Rightarrow> None)"

text \<open>The step-up that the refusal asks for works: the scope it names is one that the server grants, and the same request
  with a token that carries it passes the gate.\<close>

lemma step_up_suffices:
  assumes "gate_refusal_of quote prm (ScopeGate js PrivilegedTools meth body info) = Some r"
  shows "knownScope (gr_scope r)"
    and "gr_scope r \<in> set (ti_Scopes i) \<Longrightarrow> \<exists>b. ScopeGate js PrivilegedTools meth body (Some i) = GateNext b"
proof -
  obtain tool where g: "ScopeGate js PrivilegedTools meth body info = GateForbidden tool (gr_scope r)"
    using assms by (auto simp: gate_refusal_of_def split: gate_result.splits)
  then show "knownScope (gr_scope r)"
    by (auto simp: ScopeGate_def PrivilegedTools_def knownScope_def AllScopes_def Let_def split: option.splits if_splits)
  assume "gr_scope r \<in> set (ti_Scopes i)"
  then show "\<exists>b. ScopeGate js PrivilegedTools meth body (Some i) = GateNext b"
    using g by (auto simp: ScopeGate_def HasScope_def list_ex_iff Let_def split: option.splits if_splits)
qed

section \<open>Keys and secrets\<close>

definition JWKSJSON :: "(jwk list \<Rightarrow> string) \<Rightarrow> keyring \<Rightarrow> string" where
  "JWKSJSON marshal k = marshal (JWKS k)"

text \<open>An operator's secret: 32 random bytes, in Base64.\<close>

definition GenerateEnrollmentToken :: "string option \<Rightarrow> string option" where
  "GenerateEnrollmentToken bytes = randomID bytes"

end
