(* ===== verification/Enroll_Form.thy ===== *)
theory Enroll_Form
  imports OAuth_Flow
begin

text \<open>
  The enrollment page: \<open>internal/web/web.go\<close>, and how the two handlers of \<open>internal/auth/oauthsrv.go\<close> write it. The
  data of the page is modelled, not its HTML: the template shows the scopes, carries the hidden fields,
  and asks for the secret and a label. A response writer of \<open>net/http\<close> is its header map and, once the
  status is written, the status and the headers that went out; changing the map after that has no effect.
\<close>

section \<open>The response writer\<close>

record http_writer =
  hw_header :: "string \<rightharpoonup> string"
  hw_sent :: "(int \<times> (string \<rightharpoonup> string)) option"

definition new_writer :: http_writer where
  "new_writer = \<lparr>hw_header = Map.empty, hw_sent = None\<rparr>"

definition set_header :: "string \<times> string \<Rightarrow> http_writer \<Rightarrow> http_writer" where
  "set_header kv w = w\<lparr>hw_header := (hw_header w)(fst kv \<mapsto> snd kv)\<rparr>"

definition write_header :: "int \<Rightarrow> http_writer \<Rightarrow> http_writer" where
  "write_header code w = (if hw_sent w = None then w\<lparr>hw_sent := Some (code, hw_header w)\<rparr> else w)"

text \<open>Writing the body sends the status 200 first, unless one was sent.\<close>

definition write_body :: "http_writer \<Rightarrow> http_writer" where
  "write_body w = write_header 200 w"

section \<open>The page\<close>

record hiddenField =
  hf_Name :: string
  hf_Value :: string

record scopeRow =
  sr_Name :: string
  sr_Description :: string

record pageData =
  pd_Action :: string
  pd_Error :: string
  pd_Hidden :: "hiddenField list"
  pd_Scopes :: "scopeRow list"
  pd_Label :: string
  pd_ClientID :: string
  pd_Resource :: string

definition preservedParams :: "string list" where
  "preservedParams = [''response_type'', ''client_id'', ''redirect_uri'', ''state'', ''code_challenge'',
     ''code_challenge_method'', ''scope'', ''resource'']"

definition scopeDescriptions :: "(string \<times> string) list" where
  "scopeDescriptions = [(ScopeRead, ''look up domain registration data''),
     (ScopeRaw, ''read the unredacted raw RDAP and WHOIS responses''), (ScopeAdmin, ''list and revoke enrolled sessions'')]"

definition scope_row :: "string \<Rightarrow> scopeRow" where
  "scope_row s = \<lparr>sr_Name = s,
     sr_Description = (case map_of scopeDescriptions s of Some d \<Rightarrow> d | None \<Rightarrow> ''unrecognised scope'')\<rparr>"

definition requested_scopes :: "form \<Rightarrow> string list" where
  "requested_scopes q =
     (let requested = NormalizeScopes (str_fields (q ''scope'')) in if requested = [] then MinimumScopes else requested)"

definition page_data :: "string \<Rightarrow> form \<Rightarrow> string \<Rightarrow> pageData" where
  "page_data action q errMsg =
     \<lparr>pd_Action = action, pd_Error = errMsg,
      pd_Hidden = map (\<lambda>n. \<lparr>hf_Name = n, hf_Value = q n\<rparr>) (filter (\<lambda>n. q n \<noteq> []) preservedParams),
      pd_Scopes = sort_key sr_Name (map scope_row (requested_scopes q)),
      pd_Label = q ''label'', pd_ClientID = q ''client_id'', pd_Resource = q ''resource''\<rparr>"

definition form_headers :: "(string \<times> string) list" where
  "form_headers =
     [(''Content-Type'', ''text/html; charset=utf-8''),
      (''Cache-Control'', ''no-store, no-cache, must-revalidate''),
      (''Pragma'', ''no-cache''),
      (''X-Content-Type-Options'', ''nosniff''),
      (''X-Frame-Options'', ''DENY''),
      (''Referrer-Policy'', ''no-referrer''),
      (''Content-Security-Policy'',
       ''default-src '' @ [CHR 0x27] @ ''none'' @ [CHR 0x27] @ ''; style-src '' @ [CHR 0x27] @ ''unsafe-inline'' @ [CHR 0x27] @
       ''; form-action '' @ [CHR 0x27] @ ''self'' @ [CHR 0x27] @ ''; frame-ancestors '' @ [CHR 0x27] @ ''none'' @ [CHR 0x27] @
       ''; base-uri '' @ [CHR 0x27] @ ''none'' @ [CHR 0x27])]"

definition Render :: "string \<Rightarrow> http_writer \<Rightarrow> form \<Rightarrow> string \<Rightarrow> pageData \<times> http_writer" where
  "Render action w q errMsg = (page_data action q errMsg, write_body (fold set_header form_headers w))"

definition PathAuthorize :: string where "PathAuthorize = ''/oauth/authorize''"

definition NewForm :: "string \<Rightarrow> string" where
  "NewForm action = (if action = [] then PathAuthorize else action)"

text \<open>The page of a GET, and the page after a secret that was not accepted: there the handler has written the
  status 401 before it renders.\<close>

definition first_page :: "string \<Rightarrow> form \<Rightarrow> pageData \<times> http_writer" where
  "first_page action q = Render action new_writer q []"

definition retry_page :: "string \<Rightarrow> form \<Rightarrow> string \<Rightarrow> pageData \<times> http_writer" where
  "retry_page action q msg = Render action (write_header 401 new_writer) q msg"

text \<open>What a browser posts: the hidden fields, and the two that the person fills in.\<close>

definition submit :: "pageData \<Rightarrow> string \<Rightarrow> string \<Rightarrow> form" where
  "submit p token label k =
     (if k = ''enrollment_token'' then token
      else if k = ''label'' then label
      else case map_of (map (\<lambda>h. (hf_Name h, hf_Value h)) (pd_Hidden p)) k of Some v \<Rightarrow> v | None \<Rightarrow> [])"

section \<open>Lemmas\<close>

lemma submit_hidden:
  assumes "n \<in> set preservedParams"
  shows "submit (page_data action q msg) token label n = q n"
proof -
  have n: "n \<noteq> ''enrollment_token''" "n \<noteq> ''label''" using assms by (auto simp: preservedParams_def)
  have m: "map_of (map (\<lambda>n. (n, q n)) ns) n = (if n \<in> set ns then Some (q n) else None)" for ns
    by (induction ns) auto
  show ?thesis using n assms m [of "filter (\<lambda>n. q n \<noteq> []) preservedParams"]
    by (auto simp: submit_def page_data_def comp_def)
qed

lemma submit_dropped:
  "k \<notin> set preservedParams \<Longrightarrow> k \<noteq> ''enrollment_token'' \<Longrightarrow> k \<noteq> ''label'' \<Longrightarrow> submit (page_data action q msg) token label k = []"
  by (auto simp: submit_def page_data_def comp_def map_of_eq_None_iff split: option.split dest!: map_of_SomeD)

lemma preserved:
  "''response_type'' \<in> set preservedParams" "''client_id'' \<in> set preservedParams" "''redirect_uri'' \<in> set preservedParams"
  "''state'' \<in> set preservedParams" "''code_challenge'' \<in> set preservedParams" "''code_challenge_method'' \<in> set preservedParams"
  "''scope'' \<in> set preservedParams" "''resource'' \<in> set preservedParams"
  by (simp_all add: preservedParams_def)

lemma resubmit_parse: "parseAuthRequest cf (submit (page_data action q msg) token label) = parseAuthRequest cf q"
  unfolding parseAuthRequest_def by (simp only: preserved submit_hidden)

lemma requested_sorted: "sorted (requested_scopes q)"
  using NormalizeScopes_props(2) by (simp add: requested_scopes_def Let_def MinimumScopes_def)

lemma rows_requested: "map sr_Name (pd_Scopes (page_data action q msg)) = requested_scopes q"
proof -
  have "sorted (map sr_Name (map scope_row (requested_scopes q)))"
    using requested_sorted by (simp add: scope_row_def comp_def)
  then have "sort_key sr_Name (map scope_row (requested_scopes q)) = map scope_row (requested_scopes q)"
    by (rule sort_key_id_if_sorted)
  then show ?thesis by (simp add: page_data_def scope_row_def comp_def)
qed

lemma parse_scopes: "parseAuthRequest cf q = Inr req \<Longrightarrow> ar_Scopes req = requested_scopes q"
  by (auto simp: parseAuthRequest_def requested_scopes_def Let_def split: option.splits if_splits)

lemma sent_once: "hw_sent w = Some x \<Longrightarrow> hw_sent (snd (Render action w q msg)) = Some x"
proof -
  assume "hw_sent w = Some x"
  then have "hw_sent (fold set_header kvs w) = Some x" for kvs
    by (induction kvs arbitrary: w) (auto simp: set_header_def)
  then show ?thesis by (simp add: Render_def write_body_def write_header_def)
qed

lemma authorize_enrolledD:
  assumes "authorize_enrolled cf s req label dr = (resp, s')" and "st_sessions (sv_sessions s) k = None"
    and "st_sessions (sv_sessions s') k = Some x"
  shows "sess_Scopes x = ar_Scopes req" and "sess_Label x = label"
  using assms
  by (auto simp: authorize_enrolled_def Create_def enrolled_session_def Let_def
      split: option.splits sum.splits prod.splits if_splits)

lemma authorizePOST_sessionD:
  assumes "authorizePOST cf s addr (Some f) dr = (resp, s')" and "parseAuthRequest cf f = Inr req"
    and "st_sessions (sv_sessions s) k = None" and "st_sessions (sv_sessions s') k = Some x"
  shows "sess_Scopes x = ar_Scopes req" and "sess_Label x = session_label (f ''label'')"
  using assms authorize_enrolledD [where s = "s\<lparr>sv_enroll := e\<rparr>" for e]
  by (auto simp: authorizePOST_def split: prod.splits sum.splits)

lemma authorizePOST_redirectD:
  assumes "authorizePOST cf s addr (Some f) dr = (RespRedirect uri ps, s')" and "parseAuthRequest cf f = Inr req"
  shows "uri = ar_RedirectURI req"
  using assms
  by (auto simp: authorizePOST_def authorize_enrolled_def Let_def split: option.splits prod.splits sum.splits if_splits)

section \<open>Properties\<close>

text \<open>C12. What a person agrees to on the page is what the session gets. Let a request be shown as the enrollment page; the
  form that the browser posts from it, with whatever secret and label the person types, is the same
  authorization request again, so if a session comes of it, its scopes are those that the page listed,
  its label is the one that was typed, and the code is sent to the redirect target of the request.\<close>

theorem consent_matches_grant:
  assumes "authorizeGET cf q = RespForm 200 []" and "first_page action q = (page, w)"
    and "f = submit page token label" and "handleAuthorize cf s ''POST'' addr (Some f) dr = (resp, s')"
  shows "parseAuthRequest cf f = parseAuthRequest cf q \<and>
    (\<forall>k x. st_sessions (sv_sessions s) k = None \<and> st_sessions (sv_sessions s') k = Some x \<longrightarrow>
       sess_Scopes x = map sr_Name (pd_Scopes page) \<and> sess_Label x = session_label label) \<and>
    (\<forall>uri ps. resp = RespRedirect uri ps \<longrightarrow> uri = q ''redirect_uri'')"
proof -
  have page: "page = page_data action q []" using assms(2) by (simp add: first_page_def Render_def)
  have parse: "parseAuthRequest cf f = parseAuthRequest cf q" using assms(3) page resubmit_parse by simp
  obtain req where req: "parseAuthRequest cf q = Inr req"
    using assms(1) by (auto simp: authorizeGET_def authorizeError_def split: sum.splits prod.splits option.splits if_splits)
  have post: "authorizePOST cf s addr (Some f) dr = (resp, s')" using assms(4) by (simp add: handleAuthorize_def)
  have l: "f ''label'' = label" using assms(3) by (simp add: submit_def)
  have shown: "map sr_Name (pd_Scopes page) = ar_Scopes req" using page rows_requested parse_scopes [OF req] by simp
  show ?thesis
    using parse authorizePOST_sessionD [OF post, of req] authorizePOST_redirectD [of cf s addr f dr _ _ s' req]
      parseAuthRequest_okD(2) [OF req] post l shown req by auto
qed

theorem consent_matches_grant_witness:
  "\<exists>resp s'. handleAuthorize demo_cfg (new_server demo_enrollment) ''POST'' ''peer''
       (Some (submit (fst (first_page PathAuthorize demo_request)) ''secret'' ''laptop'')) demo_draws = (resp, s') \<and>
     parseAuthRequest demo_cfg (submit (fst (first_page PathAuthorize demo_request)) ''secret'' ''laptop'') = Inr demo_req"
proof -
  have g: "authorizeGET demo_cfg demo_request = RespForm 200 []"
    by (simp add: authorizeGET_def demo_parse) (simp add: demo_cfg_def)
  obtain page w where p: "first_page PathAuthorize demo_request = (page, w)" by fastforce
  obtain resp s' where h: "handleAuthorize demo_cfg (new_server demo_enrollment) ''POST'' ''peer''
      (Some (submit page ''secret'' ''laptop'')) demo_draws = (resp, s')" by fastforce
  from consent_matches_grant [OF g p refl h] h p demo_parse show ?thesis by simp
qed

text \<open>The page carries a field for the secret, so it must not be stored or framed: the first page goes out with the
  headers that say so, but the page after a failed attempt goes out with none of them, because its
  status is written before they are set.\<close>

lemma first_page_protected:
  "\<exists>h. hw_sent (snd (first_page action q)) = Some (200, h) \<and> (\<forall>kv \<in> set form_headers. h (fst kv) = Some (snd kv))"
  by (simp add: first_page_def Render_def write_body_def write_header_def new_writer_def set_header_def form_headers_def)

lemma retry_page_unprotected: "hw_sent (snd (retry_page action q msg)) = Some (401, Map.empty)"
  unfolding retry_page_def by (rule sent_once) (simp add: write_header_def new_writer_def)

end
