(* ===== verification/Instruments.thy ===== *)
theory Instruments
  imports Telemetry
begin

text \<open>
  The instruments that \<open>NewMetrics\<close> of \<open>internal/obs/metrics.go\<close> declares and registers, and the rules of the Prometheus
  client whose breach is a panic: a name is registered once, the buckets of a histogram increase strictly, and
  a series is addressed with as many label values as the instrument has labels.
\<close>

datatype instrument_kind = Histogram "rat list" | Counter | Gauge

record instrument =
  in_Name :: string
  in_Kind :: instrument_kind
  in_Labels :: "string list"

definition lookupDuration :: instrument where
  "lookupDuration = \<lparr>in_Name = ''whois_mcp_lookup_duration_seconds'',
     in_Kind = Histogram [0.001, 0.005, 0.025, 0.1, 0.25, 0.5, 1, 2.5, 5, 10], in_Labels = [''protocol'', ''tld'', ''outcome'']\<rparr>"

definition upstreamTotal :: instrument where
  "upstreamTotal = \<lparr>in_Name = ''whois_mcp_upstream_requests_total'', in_Kind = Counter, in_Labels = [''host'', ''status'']\<rparr>"

definition cacheHits :: instrument where
  "cacheHits = \<lparr>in_Name = ''whois_mcp_cache_hits_total'', in_Kind = Counter, in_Labels = [''result'']\<rparr>"

definition parseConfidence :: instrument where
  "parseConfidence = \<lparr>in_Name = ''whois_mcp_parse_confidence'', in_Kind = Histogram [0.1, 0.25, 0.5, 0.7, 0.85, 0.95, 1],
     in_Labels = []\<rparr>"

definition rateLimited :: instrument where
  "rateLimited = \<lparr>in_Name = ''whois_mcp_rate_limited_total'', in_Kind = Counter, in_Labels = [''host'', ''reason'']\<rparr>"

definition authFailures :: instrument where
  "authFailures = \<lparr>in_Name = ''whois_mcp_auth_failures_total'', in_Kind = Counter, in_Labels = [''reason'']\<rparr>"

definition activeSessionsGauge :: instrument where
  "activeSessionsGauge = \<lparr>in_Name = ''whois_mcp_active_sessions'', in_Kind = Gauge, in_Labels = []\<rparr>"

definition breakerOpen :: instrument where
  "breakerOpen = \<lparr>in_Name = ''whois_mcp_breaker_open'', in_Kind = Gauge, in_Labels = [''host'']\<rparr>"

definition registered :: "instrument list" where
  "registered = [lookupDuration, upstreamTotal, cacheHits, parseConfidence, rateLimited, authFailures, activeSessionsGauge, breakerOpen]"

lemmas instrument_defs = lookupDuration_def upstreamTotal_def cacheHits_def parseConfidence_def rateLimited_def authFailures_def
  activeSessionsGauge_def breakerOpen_def

text \<open>The instrument that a recording method addresses, the label values it passes, and how it records: by \<open>Observe\<close>, \<open>Inc\<close>
  or \<open>Set\<close>.\<close>

datatype record_call = CallObserve | CallInc | CallSet

fun addressed :: "metric_op \<Rightarrow> instrument \<times> string list \<times> record_call" where
  "addressed (MLookup p t r d) = (lookupDuration, [p, safeTLD t, r], CallObserve)"
| "addressed (MUpstream h s) = (upstreamTotal, [h, s], CallInc)"
| "addressed (MCache r) = (cacheHits, [r], CallInc)"
| "addressed (MParse c) = (parseConfidence, [], CallObserve)"
| "addressed (MRateLimited h r) = (rateLimited, [h, r], CallInc)"
| "addressed (MAuthFailure r) = (authFailures, [r], CallInc)"
| "addressed (MSessions n) = (activeSessionsGauge, [], CallSet)"
| "addressed (MBreaker h b) = (breakerOpen, [h], CallSet)"

fun kind_takes :: "instrument_kind \<Rightarrow> record_call \<Rightarrow> bool" where
  "kind_takes (Histogram bs) c \<longleftrightarrow> c = CallObserve"
| "kind_takes Counter c \<longleftrightarrow> c = CallInc"
| "kind_takes Gauge c \<longleftrightarrow> c = CallSet"

definition well_declared :: "instrument \<Rightarrow> bool" where
  "well_declared i \<longleftrightarrow> distinct (in_Labels i) \<and> (case in_Kind i of Histogram bs \<Rightarrow> bs \<noteq> [] \<and> sorted_wrt (<) bs | _ \<Rightarrow> True)"

section \<open>Properties\<close>

text \<open>Nothing in the metrics can panic: the names are pairwise different, every instrument is well declared, and every
  recording method addresses a registered instrument of its kind with the right number of labels.\<close>

theorem metrics_never_panic:
  "distinct (map in_Name registered) \<and> list_all well_declared registered \<and>
   (case addressed x of (i, values, c) \<Rightarrow>
      i \<in> set registered \<and> length values = length (in_Labels i) \<and> kind_takes (in_Kind i) c)"
proof -
  have "distinct (map in_Name registered)" by (simp add: registered_def instrument_defs)
  moreover have "list_all well_declared registered"
    by (simp add: registered_def instrument_defs well_declared_def)
  moreover have "case addressed x of (i, values, c) \<Rightarrow>
      i \<in> set registered \<and> length values = length (in_Labels i) \<and> kind_takes (in_Kind i) c"
    by (cases x) (simp_all add: registered_def, simp_all add: instrument_defs)
  ultimately show ?thesis by blast
qed

end
