(* ===== verification/Registry_Fixtures.thy ===== *)
theory Registry_Fixtures
  imports Rdap_Registry
begin

text \<open>
  The registries that \<open>bootstrap.go\<close> and \<open>netregistry.go\<close> of \<open>internal/rdapx\<close> build for the tests of other packages.
  \<open>net.ParseCIDR\<close> is an argument.
\<close>

section \<open>Construction\<close>

text \<open>The loop over the given map: \<open>entries\<close> are its entries in the order of the iteration. Keys that differ only in case
  collide, and the one that comes last stays.\<close>

definition NewRegistryForTest :: "(string \<times> string list) list \<Rightarrow> time \<Rightarrow> registry option" where
  "NewRegistryForTest entries now =
     (if entries = [] then None
      else Some \<lparr>rg_byTLD = map_of (rev (map (\<lambda>(k, v). (to_lower k, v)) entries)), rg_publication = zero_time, rg_loadedAt = now,
                 rg_etag = [], rg_fromNetwork = False\<rparr>)"

datatype fixture_error = BaseRequired | BadCIDR string

definition NewNetRegistryForTest ::
    "(string \<Rightarrow> ipnet option) \<Rightarrow> string \<Rightarrow> time \<Rightarrow> time \<Rightarrow> fixture_error + netRegistry" where
  "NewNetRegistryForTest parse_cidr base loaded published =
     (if base = [] then Inl BaseRequired
      else case parse_cidr ''0.0.0.0/0'' of
        None \<Rightarrow> Inl (BadCIDR ''0.0.0.0/0'')
      | Some all4 \<Rightarrow>
          (case parse_cidr ''::/0'' of
             None \<Rightarrow> Inl (BadCIDR ''::/0'')
           | Some all6 \<Rightarrow>
               Inr \<lparr>nr_v4 = [\<lparr>ns_prefixes = [all4], ns_bases = [base]\<rparr>], nr_v6 = [\<lparr>ns_prefixes = [all6], ns_bases = [base]\<rparr>],
                    nr_asns = [\<lparr>as_lo = 0, as_hi = 2 ^ 32 - 1, as_bases = [base]\<rparr>], nr_publication = published,
                    nr_loadedAt = loaded, nr_fromNetwork = False\<rparr>))"

section \<open>What they answer\<close>

lemma ip_value_snoc: "ip_value (x @ [b]) = 256 * ip_value x + b"
  by (simp add: ip_value_def)

lemma ip_value_bound: "(\<forall>b \<in> set x. b < 256) \<Longrightarrow> ip_value x < 256 ^ length x"
proof (induction x rule: rev_induct)
  case (snoc b x)
  then have "ip_value x + 1 \<le> 256 ^ length x" "b < 256" by auto
  then have "256 * ip_value x + b < 256 * 256 ^ length x" by linarith
  then show ?case by (simp add: ip_value_snoc)
qed (simp add: ip_value_def)

lemma zero_net_contains:
  assumes "length x = n" and "\<forall>b \<in> set x. b < 256" and "To4 x = None \<or> n = 4"
  shows "cidr_contains (replicate n 0) 0 x"
proof -
  have z: "ip_value (replicate k 0) = 0" for k
    by (induction k) (simp_all add: ip_value_def)
  have "2 ^ (8 * n) = (256 :: nat) ^ n" by (simp add: power_mult)
  then have "ip_value x div 2 ^ (8 * n) = 0" using ip_value_bound [OF assms(2)] assms(1) by simp
  moreover have "(case To4 x of Some v \<Rightarrow> v | None \<Rightarrow> x) = x" using assms(1,3) by (auto simp: To4_def)
  ultimately show ?thesis using assms(1) by (simp add: cidr_contains_def z Let_def)
qed

text \<open>The registry for tests routes every address and every AS number to its one base.\<close>

lemma test_registry_routes_everything:
  assumes "NewNetRegistryForTest pc base t p = Inr r"
    and "pc ''0.0.0.0/0'' = Some \<lparr>pn_IP = [0, 0, 0, 0], pn_ones = 0\<rparr>" and "pc ''::/0'' = Some \<lparr>pn_IP = replicate 16 0, pn_ones = 0\<rparr>"
  shows "length x \<in> {4, 16} \<Longrightarrow> (\<forall>b \<in> set x. b < 256) \<Longrightarrow> LookupIP r (Some x) = Some [base]"
    and "asn < 2 ^ 32 \<Longrightarrow> LookupASN r asn = Some [base]"
proof -
  have r: "nr_v4 r = [\<lparr>ns_prefixes = [\<lparr>pn_IP = [0, 0, 0, 0], pn_ones = 0\<rparr>], ns_bases = [base]\<rparr>]"
      "nr_v6 r = [\<lparr>ns_prefixes = [\<lparr>pn_IP = replicate 16 0, pn_ones = 0\<rparr>], ns_bases = [base]\<rparr>]"
      "nr_asns r = [\<lparr>as_lo = 0, as_hi = 2 ^ 32 - 1, as_bases = [base]\<rparr>]"
    using assms by (auto simp: NewNetRegistryForTest_def split: if_splits)
  {
    assume x: "length x \<in> {4, 16}" "\<forall>b \<in> set x. b < 256"
    show "LookupIP r (Some x) = Some [base]"
    proof (cases "To4 x")
      case None
      then have "length x = 16" using x(1) by (auto simp: To4_def)
      then have "cidr_contains (replicate 16 0) 0 x" using zero_net_contains [OF _ x(2)] None by blast
      moreover have "To4 (replicate 16 0) = None" by (simp add: To4_def v4_prefix_def numeral_eq_Suc)
      ultimately have "net_contains \<lparr>pn_IP = replicate 16 0, pn_ones = 0\<rparr> x" by (simp add: net_contains_def)
      then show ?thesis using None by (simp add: LookupIP_def r)
    next
      case (Some v)
      then have v: "length v = 4" "\<forall>b \<in> set v. b < 256" using x in_set_dropD [of _ 12 x] by (auto simp: To4_def split: if_splits)
      then have v4: "To4 v = Some v" by (simp add: To4_def)
      have "cidr_contains (replicate 4 0) 0 v" using zero_net_contains [OF v] by blast
      moreover have "replicate 4 0 = [0, 0, 0, 0 :: nat]" by (simp add: numeral_eq_Suc)
      ultimately have "cidr_contains [0, 0, 0, 0] 0 x" using Some v4 by (simp add: cidr_contains_def)
      then have "net_contains \<lparr>pn_IP = [0, 0, 0, 0], pn_ones = 0\<rparr> x" by (simp add: net_contains_def To4_def)
      then show ?thesis using Some by (simp add: LookupIP_def r)
    qed
  next
    assume "asn < 2 ^ 32"
    have "search f 0 1 = 1" if "\<not> f 0" for f
      using that search.simps [of f 0 1] search.simps [of f 1 1] by (simp add: Let_def)
    then have "search (\<lambda>i. asn < as_lo (nr_asns r ! i)) 0 (length (nr_asns r)) = 1" by (simp add: r)
    then have "LookupASN r asn = step_back (nr_asns r) asn (Suc 0) (Suc 3)" by (simp add: LookupASN_def)
    then show "LookupASN r asn = Some [base]" using \<open>asn < 2 ^ 32\<close> unfolding step_back.simps by (simp add: r)
  }
qed

lemma map_of_rev_last: "map_of (rev xs) k = Some v \<Longrightarrow> (k, v) \<in> set xs"
  by (drule map_of_SomeD) simp

text \<open>A registry for tests answers for the TLDs it was given, in any spelling, and for no others.\<close>

lemma test_registry_lookup:
  assumes "NewRegistryForTest entries now = Some r"
  shows "Lookup r tld = Some urls \<Longrightarrow> \<exists>k. to_lower k = to_lower tld \<and> (k, urls) \<in> set entries"
    and "distinct (map (to_lower \<circ> fst) entries) \<Longrightarrow> (k, urls) \<in> set entries \<Longrightarrow> urls \<noteq> [] \<Longrightarrow> to_lower tld = to_lower k \<Longrightarrow>
      Lookup r tld = Some urls"
proof -
  let ?m = "map (\<lambda>(k, v). (to_lower k, v)) entries"
  have r: "rg_byTLD r = map_of (rev ?m)" using assms by (auto simp: NewRegistryForTest_def split: if_splits)
  {
    assume "Lookup r tld = Some urls"
    then have "map_of (rev ?m) (to_lower tld) = Some urls" by (auto simp: Lookup_def r split: option.splits if_splits)
    from map_of_rev_last [OF this] show "\<exists>k. to_lower k = to_lower tld \<and> (k, urls) \<in> set entries" by auto
  next
    assume d: "distinct (map (to_lower \<circ> fst) entries)" and k: "(k, urls) \<in> set entries" "urls \<noteq> []" "to_lower tld = to_lower k"
    have "map fst ?m = map (to_lower \<circ> fst) entries" by (simp add: case_prod_beta comp_def)
    then have "distinct (map fst (rev ?m))" using d by (metis distinct_rev rev_map)
    moreover have "(to_lower k, urls) \<in> set (rev ?m)" using k(1) by force
    ultimately have "map_of (rev ?m) (to_lower k) = Some urls" by (simp add: map_of_eq_Some_iff)
    then show "Lookup r tld = Some urls" using k(2,3) by (simp add: Lookup_def r)
  }
qed

end
