(* ===== verification/Spec2Isabelle.thy ===== *)
theory Spec2Isabelle
  imports Process Flights Whois_Peer Http_Client Http_Surface Enroll_Form Instruments Registry_Fixtures
begin

text \<open>
  whois-mcp: an MCP server that answers questions about domain names, IP addresses and AS numbers from
  RDAP services and port-43 WHOIS servers, behind an OAuth authorization server of its own.

  \<^bold>\<open>How the program hangs together.\<close> \<open>cmd/whois-mcp\<close> reads the settings, refuses an exposure without
  authentication, builds one upstream guard, one result cache, one resolver and one session store, and
  serves HTTP. A request to \<open>/mcp\<close> passes the bearer middleware (\<open>auth.Verifier\<close> with the denylist) and the
  scope gate, then the MCP SDK calls a tool of \<open>internal/mcpsrv\<close>. A tool asks \<open>internal/resolve\<close>, which reduces
  the input to a domain, looks into the cache, queries RDAP (\<open>internal/rdapx\<close>) and falls back to WHOIS
  (\<open>internal/whois\<close>), maps the answer onto the canonical report (\<open>internal/normalize\<close>) and stores it. Every
  upstream call runs under the rate limiter and the circuit breaker (\<open>internal/ratelimit\<close>) and connects only to
  addresses that \<open>internal/netguard\<close> allows. The OAuth endpoints (\<open>internal/auth\<close>) turn the operator's enrollment
  secret into sessions, authorization codes, rotating refresh tokens and signed access tokens. Two
  background loops refresh the bootstrap registries and a third publishes the gauges.

  \<^bold>\<open>Theories and sources.\<close> State is passed explicitly: an operation takes the record of its component and
  returns the new one beside its result; an error is a constructor of a sum type. Clocks, random bytes and
  what the network does are arguments of an operation.

  \<^item> \<open>Go_Prelude\<close>: times, durations with the wrap-around of 64 bits, the string functions of package strings and
    strconv; the locale \<open>op_system\<close> of state machines with an invariant, which eleven theories interpret.
  \<^item> \<open>Base64\<close>, \<open>Keyring\<close>, \<open>Access_Token\<close>: \<open>internal/auth/keys.go\<close>, \<open>token.go\<close>, \<open>verifier.go\<close>, \<open>scopegate.go\<close>.
  \<^item> \<open>Session_Store\<close>, \<open>Denylist\<close>, \<open>Code_Store\<close>, \<open>Enrollment\<close>: \<open>session.go\<close>, \<open>denylist.go\<close>, \<open>authcode.go\<close>, \<open>enrollment.go\<close>. The
    locale \<open>session_store\<close> is what the server relies on of a store, interpreted on \<open>MemoryStore\<close>.
  \<^item> \<open>OAuth_Server\<close>, \<open>OAuth_Flow\<close>, \<open>OAuth_Grants\<close>: every handler of \<open>oauthsrv.go\<close>, their composition as a state
    machine, and the flow from the enrollment form to a verified token.
  \<^item> \<open>Enroll_Form\<close>: \<open>internal/web/web.go\<close>, the data and headers of the enrollment page.
  \<^item> \<open>Rate_Limit\<close>, \<open>Breaker\<close>: \<open>internal/ratelimit\<close>. \<open>Cache_Memory\<close>: \<open>internal/cache\<close>, with the interface \<open>Cache\<close> as the
    locale \<open>ttl_cache\<close>. \<open>Netguard\<close>: \<open>internal/netguard\<close>.
  \<^item> \<open>Whois_Text\<close>, \<open>Whois_Client\<close>: \<open>internal/whois\<close> (quirks, discovery, referrals, transport, client); one exchange is
    the locale \<open>port43\<close>. \<open>Whois_Templates\<close>, \<open>Whois_Parse\<close>: \<open>internal/whois/parsers\<close>. \<open>Whois_Peer\<close>: \<open>internal/whois/whoistest\<close>,
    the peer of the tests with its eight modes, and the conversation of the transport with it.
  \<^item> \<open>Rdap_Registry\<close>, \<open>Rdap_Client\<close>, \<open>Http_Client\<close>, \<open>Registry_Fixtures\<close>: \<open>internal/rdapx\<close>.
  \<^item> \<open>Report\<close>: \<open>internal/normalize\<close>. \<open>Query_Name\<close>, \<open>Resolver\<close>, \<open>Resolution\<close>, \<open>Availability\<close>: \<open>internal/resolve\<close>; the locale
    \<open>honest_upstreams\<close> says what the resolver relies on of its two clients, and \<open>Resolution\<close> interprets it on them.
    \<open>Flights\<close>: the same lookups of many callers at the same time, section by section, with their shared flights.
  \<^item> \<open>Mcp_Tools\<close>: \<open>internal/mcpsrv\<close>, every tool and the resource, with their texts.
  \<^item> \<open>Telemetry\<close>, \<open>Instruments\<close>: \<open>internal/obs\<close>. \<open>Startup\<close>: the settings of \<open>cmd/whois-mcp\<close> and what they admit.
  \<^item> \<open>System\<close>: the running server, the step relation over all of the above. \<open>Http_Surface\<close>: its routes, the refusal
    of the scope gate, and the client address in the log. \<open>Process\<close>: \<open>main.go\<close> around it, from the command line
    through \<open>run\<close> to the exit status, the assembly of the first state, and the background loops.

  \<^bold>\<open>What is shown.\<close> The claims C1 to C40 stand before their theorems.

  \<^item> \<^emph>\<open>The whole server\<close> (\<open>System\<close>, \<open>Startup\<close>, \<open>Mcp_Tools\<close>): over any run, a name is reported as free only with
    an explicit denial of an upstream in that run; a server that other hosts can reach answers only
    authorized calls; a revoked session is locked out; an exposure without authentication does not start; a
    process that serves stays ready (\<open>Process\<close>), and what it assembles is an initial state of the runs.
  \<^item> \<^emph>\<open>Concurrency\<close> (\<open>Flights\<close>): no interleaving of lookups makes a name free without a denial, the sequential lookup
    is one of the schedules, and every waiting caller can be answered within five steps of its flight.
  \<^item> \<^emph>\<open>Credentials\<close>: refresh tokens and codes are used once, a replay kills the family, access tokens verify
    exactly while they are valid, the denylist answers by its history, the lockout escalates, redirects go
    to checked targets, and one session never has two outstanding credentials.
  \<^item> \<^emph>\<open>Upstream discipline\<close>: the breaker refines a three-state automaton, Retry-After is honoured, connections go
    to public addresses only, redirects and referrals are bounded.
  \<^item> \<^emph>\<open>Data\<close>: the registries answer by longest prefix and by range, parsed WHOIS fields are parts of the text,
    withheld contacts stay withheld, the cache serves the last live value, a batch keeps its positions.
  \<^item> Lemmas that show where code and intent part are beside the component they are about.

  \<^bold>\<open>Loops and bounds.\<close> Loops over data are structural recursions. Those with another measure carry their
  termination proof: the binary search over ASN ranges (the width of the interval), the referral hops and
  the redirects (the distance to \<open>MaxReferralHops\<close> and \<open>maxRedirects\<close>), the continuation blocks of the parser (the
  lines left), the command line (the arguments left), the chunks of a slow peer (the bytes left), and \<open>itoa\<close>
  (the number). No function uses fuel.

  \<^bold>\<open>Arguments of the model.\<close> Code outside the repository is an argument, with what is relied on as named
  hypotheses (\<open>codec_ok\<close>, \<open>jose_ok\<close>, \<open>sort_ok\<close>, the laws of the token bucket): the openrdap client, encoding/json,
  IDNA and the Public Suffix List, url.Parse, time.Parse, net.ParseIP, the token bucket of x/time/rate,
  Ed25519, SHA-256, Argon2id, and of the MCP SDK the bearer middleware's own checks and the reading of tool
  calls from a body.

  \<^bold>\<open>Granularity.\<close> In \<open>System\<close> a request, a refresh and the check of one name of a batch are atomic steps; the names
  of a batch run in any order. Interleavings within a call are modelled where the code gives up a lock:
  the two sections of \<open>Denied\<close>, of \<open>Enrollment.Verify\<close>, and of a breaker call, and in \<open>Flights\<close> the sections of
  lookups, where a call of the cache or of a client is atomic and the callers of one key share a flight.

  \<^bold>\<open>Not modelled.\<close> The registration of tools with the SDK and their JSON schemas, the HTML of the enrollment page, the
  usage text, the help texts of the metrics and what is written to the log, the exporter of OpenTelemetry,
  the HTTP listener and the delivery of signals are calls into libraries and carry no logic of the program.
  How serving ends is an argument of \<open>run_server\<close>.
\<close>

end
